(* ===== verification/Op_Prelude.thy ===== *)
theory Op_Prelude
  imports Main "HOL-Library.Word"
begin

text \<open>
  Shared vocabulary of the development: the machine integers of the Go source, its
  \<open>error\<close> values, calls that may panic, the collections of rewrite rules the component
  theories fill, and generic lemmas on lists that several components use.
\<close>

section \<open>Collections of facts\<close>

named_theorems builder_simps "what the object builders put into each field"
named_theorems accessor_simps "the accessors of the API types, unfolded"
named_theorems wp_simps "the weakest precondition of each operation on the API server"
named_theorems emits_intros "which requests an operation may issue"

section \<open>Machine integers and opaque values\<close>

type_synonym u8 = "8 word"
type_synonym i32 = "32 word"
type_synonym i64 = "64 word"

text \<open>Widening keeps the number.\<close>

lemma sint_scast_i32: "sint (scast (i :: i32) :: i64) = sint i"
  by (simp add: sint_up_scast is_up)

text \<open>
  A third-party value that the source copies from one place to another without looking
  inside it (for example a resource requirement or an \<open>EnvFromSource\<close>) is carried by the
  text it has on the wire.
\<close>

type_synonym opaque = string

text \<open>The content of a secret's key (Go: \<open>[]byte\<close>).\<close>

type_synonym bytes = string

section \<open>Go errors\<close>

text \<open>
  An \<open>error\<close> is a plain message (\<open>errors.New\<close>, or \<open>fmt.Errorf\<close> without a wrapped error),
  a wrapped error (\<open>fmt.Errorf\<close> whose format ends in a colon and \<open>%w\<close>), or a status error
  of the API server with its reason. The nil error is \<open>None\<close>.
\<close>

datatype gerror =
    ErrorMsg string
  | ErrorWrap string gerror
  | ErrorStatus string string

type_synonym err = "gerror option"

fun Error :: "gerror \<Rightarrow> string" where
  "Error (ErrorMsg m) = m"
| "Error (ErrorWrap p e) = p @ '': '' @ Error e"
| "Error (ErrorStatus r m) = m"

section \<open>Calls that may panic\<close>

datatype 'a go = Value 'a | Panic string

fun go_bind :: "'a go \<Rightarrow> ('a \<Rightarrow> 'b go) \<Rightarrow> 'b go" where
  "go_bind (Value x) f = f x"
| "go_bind (Panic m) f = Panic m"

lemma go_bind_Value_iff: "go_bind m f = Value y \<longleftrightarrow> (\<exists>x. m = Value x \<and> f x = Value y)"
  by (cases m) auto

lemma go_bind_assoc: "go_bind (go_bind m f) g = go_bind m (\<lambda>x. go_bind (f x) g)"
  by (cases m) auto

primrec is_value :: "'a go \<Rightarrow> bool" where
  "is_value (Value x) = True"
| "is_value (Panic m) = False"

section \<open>Lists\<close>

lemma append_suffix_cases:
  assumes "xs @ ys = us @ vs" and "length ys \<le> length vs"
  shows "\<exists>ts. vs = ts @ ys \<and> xs = us @ ts"
proof -
  from assms(1) obtain ts where "xs = us @ ts \<and> ts @ ys = vs \<or> xs @ ts = us \<and> ys = ts @ vs"
    by (auto simp: append_eq_append_conv2)
  then show ?thesis using assms(2) by (cases ts) auto
qed

lemma list_all_True [simp]: "list_all (\<lambda>x. True) xs"
  by (induction xs) auto

lemma singleton_map_eq [simp]: "[k \<mapsto> a] = [k \<mapsto> b] \<longleftrightarrow> a = b"
  by (auto dest: map_upd_eqD1)

end
