(* ===== verification/Kube_Objects.thy ===== *)
theory Kube_Objects
  imports Op_Prelude
begin

text \<open>
  The Kubernetes API types (packages \<open>corev1\<close>, \<open>appsv1\<close>, \<open>metav1\<close>, \<open>unstructured\<close>) as far
  as the source fills or reads their fields. They are third-party types: a record here has
  the fields the operator uses, and a field it only copies is \<open>opaque\<close>. A Go map is a map,
  a pointer is an option, a slice is a list.
\<close>

section \<open>Metadata\<close>

record OwnerReference =
  orAPIVersion :: string
  orKind :: string
  orName :: string
  orUID :: string
  orController :: "bool option"
  orBlockOwnerDeletion :: "bool option"

record ObjectMeta =
  omName :: string
  omNamespace :: string
  omUID :: string
  omGeneration :: i64
  omLabels :: "string \<rightharpoonup> string"
  omOwnerReferences :: "OwnerReference list"

text \<open>\<open>metav1.ObjectMeta{Name: n, Namespace: ns, Labels: ls}\<close>: the other fields are zero.\<close>

definition new_meta :: "string \<Rightarrow> string \<Rightarrow> (string \<rightharpoonup> string) \<Rightarrow> ObjectMeta" where
  "new_meta n ns ls = \<lparr>omName = n, omNamespace = ns, omUID = [], omGeneration = 0,
     omLabels = ls, omOwnerReferences = []\<rparr>"

lemma new_meta_sel [simp]:
  "omName (new_meta n ns ls) = n"
  "omNamespace (new_meta n ns ls) = ns"
  "omLabels (new_meta n ns ls) = ls"
  "omOwnerReferences (new_meta n ns ls) = []"
  "omUID (new_meta n ns ls) = []"
  by (simp_all add: new_meta_def)

record ObjectKey =
  okNamespace :: string
  okName :: string

record GVK =
  gvkGroup :: string
  gvkVersion :: string
  gvkKind :: string

section \<open>JSON values\<close>

text \<open>
  A decoded JSON document (\<open>interface{}\<close> holding the types \<open>k8s.io/apimachinery\<close>'s decoder
  produces). An object has no order and no duplicate key: it is a map.
\<close>

datatype json =
    JNull
  | JBool bool
  | JInt i64
  | JStr string
  | JArr "json list"
  | JObj "string \<rightharpoonup> json"

type_synonym json_map = "string \<rightharpoonup> json"

text \<open>
  The text of an encoded document (Go: the \<open>[]byte\<close> that \<open>Marshal\<close> returns) is carried by the
  document it spells.
\<close>

type_synonym document = json

text \<open>The value at a path of keys.\<close>

fun json_path :: "json \<Rightarrow> string list \<Rightarrow> json option" where
  "json_path j [] = Some j"
| "json_path (JObj m) (k # ks) = (case m k of None \<Rightarrow> None | Some j \<Rightarrow> json_path j ks)"
| "json_path j (k # ks) = None"

section \<open>Status conditions\<close>

record Condition =
  cdType :: string
  cdStatus :: string
  cdObservedGeneration :: i64
  cdLastTransitionTime :: nat
  cdReason :: string
  cdMessage :: string

abbreviation ConditionTrue :: string where "ConditionTrue \<equiv> ''True''"
abbreviation ConditionFalse :: string where "ConditionFalse \<equiv> ''False''"

section \<open>Environment variables\<close>

record LocalObjectReference =
  lrName :: string

record SecretKeySelector =
  skName :: string
  skKey :: string
  skOptional :: "bool option"

record EnvVarSource =
  evsSecretKeyRef :: "SecretKeySelector option"
  evsOther :: opaque

record EnvVar =
  evName :: string
  evValue :: string
  evValueFrom :: "EnvVarSource option"

text \<open>\<open>corev1.EnvVar{Name: n, Value: v}\<close>.\<close>

definition env_value :: "string \<Rightarrow> string \<Rightarrow> EnvVar" where
  "env_value n v = \<lparr>evName = n, evValue = v, evValueFrom = None\<rparr>"

lemma env_value_sel [simp]:
  "evName (env_value n v) = n"
  "evValue (env_value n v) = v"
  "evValueFrom (env_value n v) = None"
  by (simp_all add: env_value_def)

section \<open>Pods\<close>

datatype IntOrString = FromInt32 i32 | FromString string

record HTTPGetAction =
  hgPath :: string
  hgPort :: IntOrString
  hgHTTPHeaders :: "(string \<times> string) list"

record Probe =
  prHTTPGet :: "HTTPGetAction option"
  prInitialDelaySeconds :: i32
  prPeriodSeconds :: i32
  prTimeoutSeconds :: i32
  prFailureThreshold :: i32

record ContainerPort =
  cpName :: string
  cpContainerPort :: i32

record VolumeMount =
  vmName :: string
  vmMountPath :: string

text \<open>A volume whose source is a claim carries the claim's name.\<close>

record Volume =
  volName :: string
  volClaimName :: "string option"

record Container =
  ctName :: string
  ctImage :: string
  ctImagePullPolicy :: string
  ctPorts :: "ContainerPort list"
  ctEnv :: "EnvVar list"
  ctEnvFrom :: "opaque list"
  ctResources :: opaque
  ctVolumeMounts :: "VolumeMount list"
  ctReadinessProbe :: "Probe option"
  ctLivenessProbe :: "Probe option"

record PodSpec =
  psImagePullSecrets :: "LocalObjectReference list"
  psContainers :: "Container list"
  psVolumes :: "Volume list"

record PodTemplateSpec =
  ptLabels :: "string \<rightharpoonup> string"
  ptSpec :: PodSpec

section \<open>The objects the operator writes\<close>

record DeploymentSpec =
  dsReplicas :: "i32 option"
  dsSelectorMatchLabels :: "string \<rightharpoonup> string"
  dsStrategyType :: string
  dsTemplate :: PodTemplateSpec

abbreviation RecreateDeploymentStrategyType :: string where
  "RecreateDeploymentStrategyType \<equiv> ''Recreate''"

record Deployment =
  depMeta :: ObjectMeta
  depSpec :: DeploymentSpec
  depReadyReplicas :: i32

record ServicePort =
  spName :: string
  spPort :: i32
  spTargetPort :: IntOrString

record Service =
  svcMeta :: ObjectMeta
  svcSelector :: "string \<rightharpoonup> string"
  svcPorts :: "ServicePort list"

type_synonym quantity = string

abbreviation ReadWriteOnce :: string where "ReadWriteOnce \<equiv> ''ReadWriteOnce''"
abbreviation ResourceStorage :: string where "ResourceStorage \<equiv> ''storage''"

record PersistentVolumeClaim =
  pvcMeta :: ObjectMeta
  pvcAccessModes :: "string list"
  pvcStorageClassName :: "string option"
  pvcRequests :: "string \<rightharpoonup> quantity"

record Secret =
  secMeta :: ObjectMeta
  secData :: "string \<rightharpoonup> bytes"
  secStringData :: "string \<rightharpoonup> string"

text \<open>
  \<open>unstructured.Unstructured\<close>: what \<open>SetAPIVersion\<close>, \<open>SetKind\<close> and the metadata setters
  write, and the rest of the object's map.
\<close>

record Unstructured =
  unAPIVersion :: string
  unKind :: string
  unMeta :: ObjectMeta
  unObject :: json_map

datatype kobject =
    ODeployment Deployment
  | OService Service
  | OPVC PersistentVolumeClaim
  | OSecret Secret
  | OUnstructured Unstructured

text \<open>\<open>client.Object\<close>: every kind gives access to its metadata.\<close>

fun obj_meta :: "kobject \<Rightarrow> ObjectMeta" where
  "obj_meta (ODeployment d) = depMeta d"
| "obj_meta (OService s) = svcMeta s"
| "obj_meta (OPVC p) = pvcMeta p"
| "obj_meta (OSecret s) = secMeta s"
| "obj_meta (OUnstructured u) = unMeta u"

fun set_meta :: "ObjectMeta \<Rightarrow> kobject \<Rightarrow> kobject" where
  "set_meta m (ODeployment d) = ODeployment (d\<lparr>depMeta := m\<rparr>)"
| "set_meta m (OService s) = OService (s\<lparr>svcMeta := m\<rparr>)"
| "set_meta m (OPVC p) = OPVC (p\<lparr>pvcMeta := m\<rparr>)"
| "set_meta m (OSecret s) = OSecret (s\<lparr>secMeta := m\<rparr>)"
| "set_meta m (OUnstructured u) = OUnstructured (u\<lparr>unMeta := m\<rparr>)"

lemma obj_meta_set_meta [simp]: "obj_meta (set_meta m x) = m"
  by (cases x) auto

lemma set_meta_obj_meta [simp]: "set_meta (obj_meta x) x = x"
  by (cases x) auto

text \<open>\<open>GetName\<close> and \<open>GetOwnerReferences\<close>.\<close>

abbreviation obj_name :: "kobject \<Rightarrow> string" where
  "obj_name x \<equiv> omName (obj_meta x)"

abbreviation obj_owners :: "kobject \<Rightarrow> OwnerReference list" where
  "obj_owners x \<equiv> omOwnerReferences (obj_meta x)"

text \<open>The kind of an object, by its constructor.\<close>

datatype kind = KDeployment | KService | KPVC | KSecret | KUnstructured

fun kind_of :: "kobject \<Rightarrow> kind" where
  "kind_of (ODeployment d) = KDeployment"
| "kind_of (OService s) = KService"
| "kind_of (OPVC p) = KPVC"
| "kind_of (OSecret s) = KSecret"
| "kind_of (OUnstructured u) = KUnstructured"

lemma kind_of_set_meta [simp]: "kind_of (set_meta m x) = kind_of x"
  by (cases x) auto

end
