(* ===== verification/Api_Types.thy ===== *)
theory Api_Types
  imports Kube_Objects Go_Strings
begin

text \<open>
  \<open>api/v1alpha1/paperlessinstance_types.go\<close>: the \<open>PaperlessInstance\<close> custom resource, one
  record per struct in the source's order, and the accessors that resolve defaults
  (\<open>Reference\<close>, \<open>SizeOrDefault\<close>, \<open>IsExternal\<close>, \<open>IsManaged\<close>, \<open>IsEnabled\<close>,
  \<open>DeletionPolicyOrDefault\<close>, \<open>GetConditions\<close>). What the accessors need from the quantity
  library is an argument.
\<close>

section \<open>Constants\<close>

definition ConditionReady :: string where
  "ConditionReady = ''Ready''"

definition ConditionDatabaseReady :: string where
  "ConditionDatabaseReady = ''DatabaseReady''"

definition defaultRepository :: string where
  "defaultRepository = ''ghcr.io/paperless-ngx/paperless-ngx''"

definition DefaultDataSize :: string where "DefaultDataSize = ''5Gi''"
definition DefaultMediaSize :: string where "DefaultMediaSize = ''20Gi''"
definition DefaultConsumeSize :: string where "DefaultConsumeSize = ''5Gi''"
definition DefaultExportSize :: string where "DefaultExportSize = ''10Gi''"
definition DefaultDatabaseSize :: string where "DefaultDatabaseSize = ''10Gi''"

definition DeletionPolicyRetain :: string where
  "DeletionPolicyRetain = ''Retain''"

definition DeletionPolicyDelete :: string where
  "DeletionPolicyDelete = ''Delete''"

lemma condition_types_distinct [simp]:
  "ConditionReady \<noteq> ConditionDatabaseReady" "ConditionDatabaseReady \<noteq> ConditionReady"
  by (simp_all add: ConditionReady_def ConditionDatabaseReady_def)

lemma deletion_policies_distinct [simp]:
  "DeletionPolicyRetain \<noteq> DeletionPolicyDelete" "DeletionPolicyDelete \<noteq> DeletionPolicyRetain"
  "DeletionPolicyRetain \<noteq> []" "DeletionPolicyDelete \<noteq> []"
  by (simp_all add: DeletionPolicyRetain_def DeletionPolicyDelete_def)

text \<open>\<open>GroupVersion\<close> of \<open>groupversion_info.go\<close>, and its \<open>String\<close>.\<close>

definition GroupVersion :: "string \<times> string" where
  "GroupVersion = (''paperless.p3l1.de'', ''v1alpha1'')"

definition GroupVersionString :: string where
  "GroupVersionString = fst GroupVersion @ ''/'' @ snd GroupVersion"

section \<open>The structs of the specification\<close>

record ImageSpec =
  imRepository :: string
  imTag :: string
  imDigest :: string
  imPullPolicy :: string
  imPullSecrets :: "LocalObjectReference list"

record VolumeSpec =
  vsSize :: quantity
  vsStorageClassName :: "string option"
  vsAccessModes :: "string list"

record StorageSpec =
  stData :: VolumeSpec
  stMedia :: VolumeSpec
  stConsume :: VolumeSpec
  stExport :: VolumeSpec

record ExternalDatabase =
  edHost :: string
  edPort :: i32
  edName :: string
  edCredentialsSecretRef :: LocalObjectReference

record ManagedDatabase =
  mdInstances :: i32
  mdStorage :: VolumeSpec

record DatabaseSpec =
  dbCNPG :: "ManagedDatabase option"
  dbExternal :: "ExternalDatabase option"

record CacheSpec =
  caManaged :: "bool option"
  caURL :: string
  caURLSecretRef :: "SecretKeySelector option"

record AdminSpec =
  adEnabled :: "bool option"
  adUsername :: string
  adEmail :: string
  adPasswordSecretRef :: "SecretKeySelector option"

record OCRSpec =
  ocLanguages :: "string list"

record PaperlessInstanceSpec =
  spImage :: ImageSpec
  spURL :: string
  spTimezone :: string
  spOCR :: OCRSpec
  spAdmin :: AdminSpec
  spSecretKeySecretRef :: "SecretKeySelector option"
  spDatabase :: DatabaseSpec
  spCache :: CacheSpec
  spStorage :: StorageSpec
  spResources :: opaque
  spEnv :: "EnvVar list"
  spEnvFrom :: "opaque list"
  spDeletionPolicy :: string

record PaperlessInstanceStatus =
  psConditions :: "Condition list"
  psObservedGeneration :: i64
  psURL :: string
  psVersion :: string

record PaperlessInstance =
  piMeta :: ObjectMeta
  piSpec :: PaperlessInstanceSpec
  piStatus :: PaperlessInstanceStatus

abbreviation inst_name :: "PaperlessInstance \<Rightarrow> string" where
  "inst_name inst \<equiv> omName (piMeta inst)"

abbreviation inst_ns :: "PaperlessInstance \<Rightarrow> string" where
  "inst_ns inst \<equiv> omNamespace (piMeta inst)"

abbreviation inst_uid :: "PaperlessInstance \<Rightarrow> string" where
  "inst_uid inst \<equiv> omUID (piMeta inst)"

section \<open>The accessors\<close>

definition Reference :: "ImageSpec \<Rightarrow> string" where
  "Reference i =
     (let repo = imRepository i;
          repo = (if repo = [] then defaultRepository else repo)
      in if imDigest i \<noteq> [] then repo @ ''@'' @ imDigest i
         else repo @ '':'' @ imTag i)"

text \<open>\<open>resource.MustParse\<close> panics where \<open>resource.ParseQuantity\<close> returns an error.\<close>

definition MustParse :: "(string \<Rightarrow> gerror + quantity) \<Rightarrow> string \<Rightarrow> quantity go" where
  "MustParse parse s =
     (case parse s of Inl e \<Rightarrow> Panic (''cannot parse '' @ Error e) | Inr q \<Rightarrow> Value q)"

definition SizeOrDefault ::
    "(quantity \<Rightarrow> bool) \<Rightarrow> (string \<Rightarrow> gerror + quantity) \<Rightarrow> VolumeSpec \<Rightarrow> string \<Rightarrow> quantity go" where
  "SizeOrDefault is_zero parse v fallback =
     (if is_zero (vsSize v) then MustParse parse fallback else Value (vsSize v))"

definition IsExternal :: "DatabaseSpec \<Rightarrow> bool" where
  "IsExternal d \<longleftrightarrow> dbExternal d \<noteq> None"

definition IsManaged :: "CacheSpec \<Rightarrow> bool" where
  "IsManaged c \<longleftrightarrow> (case caManaged c of None \<Rightarrow> True | Some b \<Rightarrow> b)"

definition IsEnabled :: "AdminSpec \<Rightarrow> bool" where
  "IsEnabled a \<longleftrightarrow> (case adEnabled a of None \<Rightarrow> True | Some b \<Rightarrow> b)"

definition DeletionPolicyOrDefault :: "PaperlessInstanceSpec \<Rightarrow> string" where
  "DeletionPolicyOrDefault s =
     (if spDeletionPolicy s = [] then DeletionPolicyRetain else spDeletionPolicy s)"

text \<open>
  \<open>GetConditions\<close> returns a pointer to the status conditions, through which the caller reads
  and writes them: a read and a write function.
\<close>

definition GetConditions :: "PaperlessInstance \<Rightarrow> Condition list" where
  "GetConditions inst = psConditions (piStatus inst)"

definition PutConditions :: "Condition list \<Rightarrow> PaperlessInstance \<Rightarrow> PaperlessInstance" where
  "PutConditions cs inst = inst\<lparr>piStatus := (piStatus inst)\<lparr>psConditions := cs\<rparr>\<rparr>"

lemma GetConditions_PutConditions [simp]: "GetConditions (PutConditions cs inst) = cs"
  by (simp add: GetConditions_def PutConditions_def)

lemma PutConditions_sel [simp]:
  "piMeta (PutConditions cs inst) = piMeta inst"
  "piSpec (PutConditions cs inst) = piSpec inst"
  by (simp_all add: PutConditions_def)

lemmas accessor_defs [accessor_simps] =
  IsExternal_def IsManaged_def IsEnabled_def DeletionPolicyOrDefault_def

section \<open>The zero values\<close>

text \<open>
  An instance with only a name, a namespace and a UID, as a client that bypasses the
  schema's defaulting sends it: the zero value of every other field. The zero quantity is
  \<open>0\<close> on the wire.
\<close>

definition zero_volume :: VolumeSpec where
  "zero_volume = \<lparr>vsSize = ''0'', vsStorageClassName = None, vsAccessModes = []\<rparr>"

definition zero_spec :: PaperlessInstanceSpec where
  "zero_spec = \<lparr>
     spImage = \<lparr>imRepository = [], imTag = [], imDigest = [], imPullPolicy = [], imPullSecrets = []\<rparr>,
     spURL = [], spTimezone = [], spOCR = \<lparr>ocLanguages = []\<rparr>,
     spAdmin = \<lparr>adEnabled = None, adUsername = [], adEmail = [], adPasswordSecretRef = None\<rparr>,
     spSecretKeySecretRef = None,
     spDatabase = \<lparr>dbCNPG = None, dbExternal = None\<rparr>,
     spCache = \<lparr>caManaged = None, caURL = [], caURLSecretRef = None\<rparr>,
     spStorage = \<lparr>stData = zero_volume, stMedia = zero_volume, stConsume = zero_volume,
                  stExport = zero_volume\<rparr>,
     spResources = [], spEnv = [], spEnvFrom = [], spDeletionPolicy = []\<rparr>"

definition bare_instance :: "string \<Rightarrow> string \<Rightarrow> string \<Rightarrow> PaperlessInstance" where
  "bare_instance n ns uid = \<lparr>
     piMeta = (new_meta n ns Map.empty)\<lparr>omUID := uid\<rparr>,
     piSpec = zero_spec,
     piStatus = \<lparr>psConditions = [], psObservedGeneration = 0, psURL = [], psVersion = []\<rparr>\<rparr>"

section \<open>Properties\<close>

text \<open>
  A digest pins the image: the reference the pod runs is independent of the tag exactly when
  a digest is given, and an empty repository means the default one and nothing else.
\<close>

lemma image_digest_pins:
  "(if imDigest i = [] then (Reference (i\<lparr>imTag := t\<rparr>) = Reference i) = (t = imTag i)
    else Reference (i\<lparr>imTag := t\<rparr>) = Reference i) \<and>
   Reference (i\<lparr>imRepository := []\<rparr>) = Reference (i\<lparr>imRepository := defaultRepository\<rparr>)"
  by (auto simp: Reference_def Let_def)

end
