(* ===== verification/Ext_Lib.thy ===== *)
theory Ext_Lib
  imports Api_Types
begin

text \<open>
  The third-party functions the operator calls, as one record that every definition using
  one of them takes as its first argument. They are not under \<open>src/\<close>, so nothing is said of
  them here beyond their types; the properties that rely on their documented behaviour
  name the law they need (\<open>quantity_laws\<close>, \<open>condition_laws\<close>, \<open>not_found_laws\<close>,
  \<open>owner_laws\<close>, \<open>json_laws\<close>, \<open>object_laws\<close>, \<open>unstructured_laws\<close>).
\<close>

section \<open>The functions\<close>

text \<open>
  \<^item> \<open>libIsDNS1123Subdomain\<close>: \<open>validation.IsDNS1123Subdomain\<close>, the list of complaints;
  \<^item> \<open>libParseQuantity\<close>, \<open>libIsZero\<close>, \<open>libQuantityString\<close>: package \<open>resource\<close>;
  \<^item> \<open>libURLHostname\<close>: \<open>url.Parse\<close>, then \<open>Hostname\<close> of its result;
  \<^item> \<open>libSetStatusCondition\<close>: \<open>meta.SetStatusCondition\<close> at a given time;
  \<^item> \<open>libIsNotFound\<close>, \<open>libIgnoreNotFound\<close>: \<open>apierrors.IsNotFound\<close>, \<open>client.IgnoreNotFound\<close>;
  \<^item> \<open>libSetControllerReference\<close>: \<open>controllerutil.SetControllerReference\<close> with the
    reconciler's scheme, on the controlled object's metadata;
  \<^item> \<open>libGetControllerOf\<close>: \<open>metav1.GetControllerOfNoCopy\<close>, on an object's owner references;
  \<^item> \<open>libGVKForObject\<close>: \<open>apiutil.GVKForObject\<close> with the reconciler's scheme;
  \<^item> \<open>libMarshalObject\<close>, \<open>libMarshalOwnerReference\<close>, \<open>libMarshalJSON\<close>: \<open>k8sjson.Marshal\<close> of
    an object stamped with a group, version and kind, of an owner reference, of a JSON value;
  \<^item> \<open>libUnmarshalMap\<close>: \<open>k8sjson.Unmarshal\<close> into a \<open>map[string]interface{}\<close>, where the
    document \<open>null\<close> gives the nil map;
  \<^item> \<open>libSetNestedMap\<close>: \<open>unstructured.SetNestedMap\<close>.
\<close>

record Lib =
  libIsDNS1123Subdomain :: "string \<Rightarrow> string list"
  libParseQuantity :: "string \<Rightarrow> gerror + quantity"
  libIsZero :: "quantity \<Rightarrow> bool"
  libQuantityString :: "quantity \<Rightarrow> string"
  libURLHostname :: "string \<Rightarrow> gerror + string"
  libSetStatusCondition :: "nat \<Rightarrow> Condition list \<Rightarrow> Condition \<Rightarrow> Condition list"
  libIsNotFound :: "err \<Rightarrow> bool"
  libIgnoreNotFound :: "err \<Rightarrow> err"
  libSetControllerReference :: "PaperlessInstance \<Rightarrow> ObjectMeta \<Rightarrow> gerror + ObjectMeta"
  libGetControllerOf :: "OwnerReference list \<Rightarrow> OwnerReference option"
  libGVKForObject :: "kobject \<Rightarrow> gerror + GVK"
  libMarshalObject :: "GVK \<Rightarrow> kobject \<Rightarrow> gerror + document"
  libMarshalOwnerReference :: "OwnerReference \<Rightarrow> gerror + document"
  libMarshalJSON :: "json \<Rightarrow> gerror + document"
  libUnmarshalMap :: "document \<Rightarrow> gerror + json_map option"
  libSetNestedMap :: "json_map \<Rightarrow> json_map \<Rightarrow> string list \<Rightarrow> gerror + json_map"

section \<open>Documented behaviour\<close>

text \<open>
  The six size literals of the source are well-formed quantities and none is zero; a parsed
  literal prints as itself, being in canonical form.
\<close>

definition size_literals :: "string list" where
  "size_literals = [''1Gi'', ''5Gi'', ''10Gi'', ''20Gi'']"

definition quantity_laws :: "Lib \<Rightarrow> bool" where
  "quantity_laws L \<longleftrightarrow>
     list_all (\<lambda>s. libParseQuantity L s = Inr s \<and> \<not> libIsZero L s \<and> libQuantityString L s = s)
       size_literals"

text \<open>The condition of a given type: the first entry with it.\<close>

definition find_condition :: "Condition list \<Rightarrow> string \<Rightarrow> Condition option" where
  "find_condition cs ty = find (\<lambda>c. cdType c = ty) cs"

text \<open>
  \<open>SetStatusCondition\<close>: an existing condition of the type gets all fields of the new one,
  its transition time moving to the present exactly when its status changes; otherwise the
  new condition is appended with the present as its transition time (the operator never sets
  that field itself). Other types are left alone.
\<close>

definition stamped :: "nat \<Rightarrow> Condition option \<Rightarrow> Condition \<Rightarrow> Condition" where
  "stamped t old c =
     c\<lparr>cdLastTransitionTime :=
        (case old of None \<Rightarrow> t
         | Some o' \<Rightarrow> if cdStatus o' = cdStatus c then cdLastTransitionTime o' else t)\<rparr>"

definition condition_laws :: "Lib \<Rightarrow> bool" where
  "condition_laws L \<longleftrightarrow>
     (\<forall>t cs c. cdLastTransitionTime c = 0 \<longrightarrow>
        find_condition (libSetStatusCondition L t cs c) (cdType c) =
          Some (stamped t (find_condition cs (cdType c)) c)) \<and>
     (\<forall>t cs c ty. cdType c \<noteq> ty \<longrightarrow>
        find_condition (libSetStatusCondition L t cs c) ty = find_condition cs ty) \<and>
     (\<forall>t cs c. map cdType (libSetStatusCondition L t cs c) =
        (if cdType c \<in> set (map cdType cs) then map cdType cs else map cdType cs @ [cdType c]))"

text \<open>
  \<open>IsNotFound\<close> is false of the nil error, and \<open>IgnoreNotFound\<close> maps exactly the not-found
  errors to nil.
\<close>

definition not_found_laws :: "Lib \<Rightarrow> bool" where
  "not_found_laws L \<longleftrightarrow>
     \<not> libIsNotFound L None \<and>
     (\<forall>e. libIgnoreNotFound L e = (if libIsNotFound L e then None else e))"

text \<open>The owner reference of an instance: its controller, which blocks the owner's deletion.\<close>

definition controller_ref :: "PaperlessInstance \<Rightarrow> OwnerReference" where
  "controller_ref inst = \<lparr>orAPIVersion = GroupVersionString, orKind = ''PaperlessInstance'',
     orName = inst_name inst, orUID = inst_uid inst,
     orController = Some True, orBlockOwnerDeletion = Some True\<rparr>"

text \<open>
  \<open>SetControllerReference\<close> on an object of the instance's own namespace without owner
  references adds the instance's; \<open>GetControllerOfNoCopy\<close> is the first reference whose
  controller flag is set and true.
\<close>

definition owner_laws :: "Lib \<Rightarrow> bool" where
  "owner_laws L \<longleftrightarrow>
     (\<forall>inst m. omOwnerReferences m = [] \<longrightarrow> omNamespace m = inst_ns inst \<longrightarrow>
        libSetControllerReference L inst m = Inr (m\<lparr>omOwnerReferences := [controller_ref inst]\<rparr>)) \<and>
     (\<forall>refs. libGetControllerOf L refs = find (\<lambda>r. orController r = Some True) refs)"

text \<open>The JSON form of an owner reference: optional fields are left out when nil.\<close>

definition owner_reference_map :: "OwnerReference \<Rightarrow> json_map" where
  "owner_reference_map r =
     [''apiVersion'' \<mapsto> JStr (orAPIVersion r), ''kind'' \<mapsto> JStr (orKind r),
      ''name'' \<mapsto> JStr (orName r), ''uid'' \<mapsto> JStr (orUID r)]
     ++ (case orController r of None \<Rightarrow> Map.empty | Some b \<Rightarrow> [''controller'' \<mapsto> JBool b])
     ++ (case orBlockOwnerDeletion r of None \<Rightarrow> Map.empty
         | Some b \<Rightarrow> [''blockOwnerDeletion'' \<mapsto> JBool b])"

text \<open>
  Encoding and decoding: a JSON value always encodes, an encoded object decodes to the
  same map, and an owner reference encodes to a document that decodes to its map.
\<close>

definition json_laws :: "Lib \<Rightarrow> bool" where
  "json_laws L \<longleftrightarrow>
     (\<forall>j. \<exists>b. libMarshalJSON L j = Inr b) \<and>
     (\<forall>m b. libMarshalJSON L (JObj m) = Inr b \<longrightarrow> libUnmarshalMap L b = Inr (Some m)) \<and>
     (\<forall>r. \<exists>b. libMarshalOwnerReference L r = Inr b \<and>
        libUnmarshalMap L b = Inr (Some (owner_reference_map r)))"

text \<open>
  An object of a registered type, or an unstructured one that names its kind and version,
  has a group, version and kind and encodes to a document that decodes to a map: it has the
  kind stamped on it and a \<open>metadata\<close> map, which has the object's name and namespace where
  they are not empty.
\<close>

fun typed_object :: "kobject \<Rightarrow> bool" where
  "typed_object (OUnstructured u) \<longleftrightarrow> unAPIVersion u \<noteq> [] \<and> unKind u \<noteq> []"
| "typed_object x \<longleftrightarrow> True"

lemma typed_object_set_meta [simp]: "typed_object (set_meta m x) = typed_object x"
  by (cases x) auto

definition object_laws :: "Lib \<Rightarrow> bool" where
  "object_laws L \<longleftrightarrow>
     (\<forall>x. typed_object x \<longrightarrow>
        (\<exists>gvk b m md. libGVKForObject L x = Inr gvk \<and> libMarshalObject L gvk x = Inr b \<and>
           libUnmarshalMap L b = Inr (Some m) \<and> m ''kind'' = Some (JStr (gvkKind gvk)) \<and>
           m ''metadata'' = Some (JObj md) \<and>
           (obj_name x \<noteq> [] \<longrightarrow> md ''name'' = Some (JStr (obj_name x))) \<and>
           (omNamespace (obj_meta x) \<noteq> [] \<longrightarrow>
              md ''namespace'' = Some (JStr (omNamespace (obj_meta x))))))"

text \<open>\<open>SetNestedMap\<close> with a single field stores the map under it.\<close>

definition unstructured_laws :: "Lib \<Rightarrow> bool" where
  "unstructured_laws L \<longleftrightarrow>
     (\<forall>m v k. libSetNestedMap L m v [k] = Inr (m(k \<mapsto> JObj v)))"

section \<open>Consequences\<close>

lemma find_condition_set:
  "condition_laws L \<Longrightarrow> cdLastTransitionTime c = 0 \<Longrightarrow>
   find_condition (libSetStatusCondition L t cs c) ty =
     (if cdType c = ty then Some (stamped t (find_condition cs ty) c) else find_condition cs ty)"
  unfolding condition_laws_def by auto

lemma distinct_set_condition:
  "condition_laws L \<Longrightarrow> distinct (map cdType cs) \<Longrightarrow>
   distinct (map cdType (libSetStatusCondition L t cs c))"
  unfolding condition_laws_def by auto

lemma ignore_not_found:
  "not_found_laws L \<Longrightarrow> libIgnoreNotFound L e = (if libIsNotFound L e then None else e)"
  by (simp add: not_found_laws_def)

lemma stamped_sel [simp]:
  "cdType (stamped t old c) = cdType c"
  "cdStatus (stamped t old c) = cdStatus c"
  "cdReason (stamped t old c) = cdReason c"
  "cdMessage (stamped t old c) = cdMessage c"
  "cdObservedGeneration (stamped t old c) = cdObservedGeneration c"
  by (simp_all add: stamped_def)

end
