(* ===== verification/Client.thy ===== *)
theory Client
  imports Ext_Lib
begin

text \<open>
  Effects. A piece of the operator that talks to the API server, reads the random source or
  the clock is a tree of requests: each node is one call with its arguments, and its
  continuation takes the answer. Nothing is assumed about the answers, so what is proved of
  a tree holds against every API server, every informer cache and every fault.

  \<open>run\<close> drives a tree with a handler (any stateful way of answering) and returns the log of
  requests with their answers, the result, and the handler's state. \<open>exec\<close> relates a tree to
  all its logs and results, \<open>wp\<close> is the weakest precondition over all answers, and \<open>emits\<close>
  says every request of a tree satisfies a predicate.
\<close>

section \<open>Requests and trees\<close>

text \<open>
  The calls the operator makes: \<open>Get\<close> of an instance, of a secret, of a custom resource
  definition (only its error is read); \<open>Create\<close> of a secret; \<open>Patch\<close> of an object with an
  apply patch (field owner, force, and the encoded body), of a secret with a merge patch, of
  an instance's status with a merge patch against a base; \<open>rand.Read\<close> into a buffer of a
  given length (on success the buffer's content by index); and a reading of the clock.
  \<open>Crash\<close> is a panic.
\<close>

datatype 'a prog =
    Done 'a
  | Crash string
  | GetInstance ObjectKey "gerror + PaperlessInstance \<Rightarrow> 'a prog"
  | GetSecret ObjectKey "gerror + Secret \<Rightarrow> 'a prog"
  | GetCRD string "err \<Rightarrow> 'a prog"
  | CreateSecret Secret "err \<Rightarrow> 'a prog"
  | PatchApply kobject document string bool "gerror + kobject \<Rightarrow> 'a prog"
  | PatchMerge Secret document string "err \<Rightarrow> 'a prog"
  | PatchStatus PaperlessInstance PaperlessInstance "err \<Rightarrow> 'a prog"
  | ReadRand nat "gerror + (nat \<Rightarrow> u8) \<Rightarrow> 'a prog"
  | Now "nat \<Rightarrow> 'a prog"

datatype event =
    EvGetInstance ObjectKey "gerror + PaperlessInstance"
  | EvGetSecret ObjectKey "gerror + Secret"
  | EvGetCRD string err
  | EvCreateSecret Secret err
  | EvPatchApply kobject document string bool "gerror + kobject"
  | EvPatchMerge Secret document string err
  | EvPatchStatus PaperlessInstance PaperlessInstance err
  | EvReadRand nat "gerror + (nat \<Rightarrow> u8)"
  | EvNow nat

section \<open>Sequencing\<close>

primrec bind :: "'a prog \<Rightarrow> ('a \<Rightarrow> 'b prog) \<Rightarrow> 'b prog" where
  "bind (Done x) f = f x"
| "bind (Crash m) f = Crash m"
| "bind (GetInstance k c) f = GetInstance k (\<lambda>r. bind (c r) f)"
| "bind (GetSecret k c) f = GetSecret k (\<lambda>r. bind (c r) f)"
| "bind (GetCRD n c) f = GetCRD n (\<lambda>r. bind (c r) f)"
| "bind (CreateSecret s c) f = CreateSecret s (\<lambda>r. bind (c r) f)"
| "bind (PatchApply x b o' fo c) f = PatchApply x b o' fo (\<lambda>r. bind (c r) f)"
| "bind (PatchMerge s b o' c) f = PatchMerge s b o' (\<lambda>r. bind (c r) f)"
| "bind (PatchStatus i b c) f = PatchStatus i b (\<lambda>r. bind (c r) f)"
| "bind (ReadRand n c) f = ReadRand n (\<lambda>r. bind (c r) f)"
| "bind (Now c) f = Now (\<lambda>r. bind (c r) f)"

lemma bind_Done_right [simp]: "bind p Done = p"
  by (induction p) auto

lemma bind_assoc: "bind (bind p f) g = bind p (\<lambda>x. bind (f x) g)"
  by (induction p) auto

text \<open>A pure computation that may panic.\<close>

fun lift_go :: "'a go \<Rightarrow> 'a prog" where
  "lift_go (Value x) = Done x"
| "lift_go (Panic m) = Crash m"

text \<open>\<open>if err := p; err != nil { return wrap(err) }\<close>, then the rest.\<close>

definition check :: "err prog \<Rightarrow> (gerror \<Rightarrow> 'a) \<Rightarrow> 'a prog \<Rightarrow> 'a prog" where
  "check p onerr rest = bind p (\<lambda>r. case r of Some e \<Rightarrow> Done (onerr e) | None \<Rightarrow> rest)"

section \<open>Running a tree against a handler\<close>

record 'w handler =
  hGetInstance :: "ObjectKey \<Rightarrow> 'w \<Rightarrow> (gerror + PaperlessInstance) \<times> 'w"
  hGetSecret :: "ObjectKey \<Rightarrow> 'w \<Rightarrow> (gerror + Secret) \<times> 'w"
  hGetCRD :: "string \<Rightarrow> 'w \<Rightarrow> err \<times> 'w"
  hCreateSecret :: "Secret \<Rightarrow> 'w \<Rightarrow> err \<times> 'w"
  hPatchApply :: "kobject \<Rightarrow> document \<Rightarrow> string \<Rightarrow> bool \<Rightarrow> 'w \<Rightarrow> (gerror + kobject) \<times> 'w"
  hPatchMerge :: "Secret \<Rightarrow> document \<Rightarrow> string \<Rightarrow> 'w \<Rightarrow> err \<times> 'w"
  hPatchStatus :: "PaperlessInstance \<Rightarrow> PaperlessInstance \<Rightarrow> 'w \<Rightarrow> err \<times> 'w"
  hReadRand :: "nat \<Rightarrow> 'w \<Rightarrow> (gerror + (nat \<Rightarrow> u8)) \<times> 'w"
  hNow :: "'w \<Rightarrow> nat \<times> 'w"

type_synonym ('a, 'w) outcome = "event list \<times> 'a go \<times> 'w"

definition logged :: "event \<Rightarrow> ('a, 'w) outcome \<Rightarrow> ('a, 'w) outcome" where
  "logged e o' = (e # fst o', snd o')"

primrec run :: "'w handler \<Rightarrow> 'a prog \<Rightarrow> 'w \<Rightarrow> ('a, 'w) outcome" where
  "run h (Done x) w = ([], Value x, w)"
| "run h (Crash m) w = ([], Panic m, w)"
| "run h (GetInstance k c) w =
     (case hGetInstance h k w of (r, w') \<Rightarrow> logged (EvGetInstance k r) (run h (c r) w'))"
| "run h (GetSecret k c) w =
     (case hGetSecret h k w of (r, w') \<Rightarrow> logged (EvGetSecret k r) (run h (c r) w'))"
| "run h (GetCRD n c) w =
     (case hGetCRD h n w of (r, w') \<Rightarrow> logged (EvGetCRD n r) (run h (c r) w'))"
| "run h (CreateSecret s c) w =
     (case hCreateSecret h s w of (r, w') \<Rightarrow> logged (EvCreateSecret s r) (run h (c r) w'))"
| "run h (PatchApply x b o' fo c) w =
     (case hPatchApply h x b o' fo w of
        (r, w') \<Rightarrow> logged (EvPatchApply x b o' fo r) (run h (c r) w'))"
| "run h (PatchMerge s b o' c) w =
     (case hPatchMerge h s b o' w of (r, w') \<Rightarrow> logged (EvPatchMerge s b o' r) (run h (c r) w'))"
| "run h (PatchStatus i b c) w =
     (case hPatchStatus h i b w of (r, w') \<Rightarrow> logged (EvPatchStatus i b r) (run h (c r) w'))"
| "run h (ReadRand n c) w =
     (case hReadRand h n w of (r, w') \<Rightarrow> logged (EvReadRand n r) (run h (c r) w'))"
| "run h (Now c) w =
     (case hNow h w of (r, w') \<Rightarrow> logged (EvNow r) (run h (c r) w'))"

text \<open>The log and the result of a run.\<close>

definition events :: "('a, 'w) outcome \<Rightarrow> event list" where
  "events o' = fst o'"

definition result :: "('a, 'w) outcome \<Rightarrow> 'a go" where
  "result o' = fst (snd o')"

lemma events_logged [simp]: "events (logged e o') = e # events o'"
  by (simp add: events_def logged_def)

lemma result_logged [simp]: "result (logged e o') = result o'"
  by (simp add: result_def logged_def)

lemma logged_eq: "logged e (es, x) = (e # es, x)"
  by (simp add: logged_def)

lemma run_bind:
  "run h (bind p f) w =
     (case run h p w of
        (es, Value x, w') \<Rightarrow> (case run h (f x) w' of (es', r) \<Rightarrow> (es @ es', r))
      | (es, Panic m, w') \<Rightarrow> (es, Panic m, w'))"
  by (induction p arbitrary: w) (auto simp: logged_def split: prod.splits go.splits)

section \<open>All executions\<close>

text \<open>\<open>exec p es x\<close>: with some answers, \<open>p\<close> issues the requests \<open>es\<close> and ends with \<open>x\<close>.\<close>

inductive exec :: "'a prog \<Rightarrow> event list \<Rightarrow> 'a go \<Rightarrow> bool" where
  exec_Done: "exec (Done x) [] (Value x)"
| exec_Crash: "exec (Crash m) [] (Panic m)"
| exec_GetInstance: "exec (c r) es x \<Longrightarrow> exec (GetInstance k c) (EvGetInstance k r # es) x"
| exec_GetSecret: "exec (c r) es x \<Longrightarrow> exec (GetSecret k c) (EvGetSecret k r # es) x"
| exec_GetCRD: "exec (c r) es x \<Longrightarrow> exec (GetCRD n c) (EvGetCRD n r # es) x"
| exec_CreateSecret: "exec (c r) es x \<Longrightarrow> exec (CreateSecret s c) (EvCreateSecret s r # es) x"
| exec_PatchApply: "exec (c r) es x \<Longrightarrow> exec (PatchApply ob b o' fo c) (EvPatchApply ob b o' fo r # es) x"
| exec_PatchMerge: "exec (c r) es x \<Longrightarrow> exec (PatchMerge s b o' c) (EvPatchMerge s b o' r # es) x"
| exec_PatchStatus: "exec (c r) es x \<Longrightarrow> exec (PatchStatus i b c) (EvPatchStatus i b r # es) x"
| exec_ReadRand: "exec (c r) es x \<Longrightarrow> exec (ReadRand n c) (EvReadRand n r # es) x"
| exec_Now: "exec (c r) es x \<Longrightarrow> exec (Now c) (EvNow r # es) x"

inductive_simps exec_Done_iff [simp]: "exec (Done y) es x"
  and exec_Crash_iff [simp]: "exec (Crash m) es x"
  and exec_GetInstance_iff [simp]: "exec (GetInstance k c) es x"
  and exec_GetSecret_iff [simp]: "exec (GetSecret k c) es x"
  and exec_GetCRD_iff [simp]: "exec (GetCRD n c) es x"
  and exec_CreateSecret_iff [simp]: "exec (CreateSecret s c) es x"
  and exec_PatchApply_iff [simp]: "exec (PatchApply ob b o' fo c) es x"
  and exec_PatchMerge_iff [simp]: "exec (PatchMerge s b o' c) es x"
  and exec_PatchStatus_iff [simp]: "exec (PatchStatus i b c) es x"
  and exec_ReadRand_iff [simp]: "exec (ReadRand n c) es x"
  and exec_Now_iff [simp]: "exec (Now c) es x"

lemma exec_run: "exec p (events (run h p w)) (result (run h p w))"
  by (induction p arbitrary: w)
     (auto simp: events_def [of "([], _)"] result_def [of "([], _)"] split: prod.split)

lemma exec_total: "\<exists>es x. exec p es x"
  using exec_run [of p "undefined :: unit handler" "()"] by blast

lemma exec_bind_iff:
  "exec (bind p f) es x \<longleftrightarrow>
     (\<exists>m. exec p es (Panic m) \<and> x = Panic m) \<or>
     (\<exists>es1 es2 y. exec p es1 (Value y) \<and> exec (f y) es2 x \<and> es = es1 @ es2)"
  apply (induction p arbitrary: es) 
            apply (simp_all)
   apply (fastforce simp: Cons_eq_append_conv)+
  done

section \<open>Weakest preconditions\<close>

text \<open>\<open>wp p Q\<close>: whatever the answers, the log and the result satisfy \<open>Q\<close>.\<close>

definition wp :: "'a prog \<Rightarrow> (event list \<Rightarrow> 'a go \<Rightarrow> bool) \<Rightarrow> bool" where
  "wp p Q \<longleftrightarrow> (\<forall>es x. exec p es x \<longrightarrow> Q es x)"

lemma wp_basic [simp]:
  "wp (Done y) Q \<longleftrightarrow> Q [] (Value y)"
  "wp (Crash m) Q \<longleftrightarrow> Q [] (Panic m)"
  "wp (GetInstance k c0) Q \<longleftrightarrow> (\<forall>r. wp (c0 r) (\<lambda>es. Q (EvGetInstance k r # es)))"
  "wp (GetSecret k c1) Q \<longleftrightarrow> (\<forall>r. wp (c1 r) (\<lambda>es. Q (EvGetSecret k r # es)))"
  "wp (GetCRD n c2) Q \<longleftrightarrow> (\<forall>r. wp (c2 r) (\<lambda>es. Q (EvGetCRD n r # es)))"
  "wp (CreateSecret s c3) Q \<longleftrightarrow> (\<forall>r. wp (c3 r) (\<lambda>es. Q (EvCreateSecret s r # es)))"
  "wp (PatchApply ob b o' fo c4) Q \<longleftrightarrow> (\<forall>r. wp (c4 r) (\<lambda>es. Q (EvPatchApply ob b o' fo r # es)))"
  "wp (PatchMerge s b o' c5) Q \<longleftrightarrow> (\<forall>r. wp (c5 r) (\<lambda>es. Q (EvPatchMerge s b o' r # es)))"
  "wp (PatchStatus i i' c6) Q \<longleftrightarrow> (\<forall>r. wp (c6 r) (\<lambda>es. Q (EvPatchStatus i i' r # es)))"
  "wp (ReadRand j c7) Q \<longleftrightarrow> (\<forall>r. wp (c7 r) (\<lambda>es. Q (EvReadRand j r # es)))"
  "wp (Now c8) Q \<longleftrightarrow> (\<forall>r. wp (c8 r) (\<lambda>es. Q (EvNow r # es)))"
  by (auto simp: wp_def)

text \<open>Soundness: a weakest precondition holds of every run against every handler.\<close>

lemma wp_run: "wp p Q \<Longrightarrow> Q (events (run h p w)) (result (run h p w))"
  by (simp add: wp_def exec_run)

lemma wp_mono: "wp p Q \<Longrightarrow> (\<And>es x. Q es x \<Longrightarrow> R es x) \<Longrightarrow> wp p R"
  by (auto simp: wp_def)

lemma wp_conj: "wp p (\<lambda>es x. Q es x \<and> R es x) \<longleftrightarrow> wp p Q \<and> wp p R"
  by (auto simp: wp_def)

lemma wp_const [simp]: "wp p (\<lambda>es x. P) \<longleftrightarrow> P"
  using exec_total by (auto simp: wp_def)

lemma wp_bind:
  "wp (bind p f) Q \<longleftrightarrow>
     wp p (\<lambda>es x. case x of Panic m \<Rightarrow> Q es (Panic m)
                          | Value y \<Rightarrow> wp (f y) (\<lambda>es'. Q (es @ es')))"
  by (auto simp: wp_def exec_bind_iff split: go.splits) blast

text \<open>Composition: a specification of the first part, then one of the rest.\<close>

lemma wp_bindI:
  assumes "wp p R"
    and "\<And>es m. R es (Panic m) \<Longrightarrow> Q es (Panic m)"
    and "\<And>es x. R es (Value x) \<Longrightarrow> wp (f x) (\<lambda>es'. Q (es @ es'))"
  shows "wp (bind p f) Q"
  unfolding wp_bind using assms(1)
  by (rule wp_mono) (auto split: go.split intro: assms(2,3))

section \<open>Which requests a tree may issue\<close>

definition emits :: "(event \<Rightarrow> bool) \<Rightarrow> 'a prog \<Rightarrow> bool" where
  "emits P p \<longleftrightarrow> wp p (\<lambda>es x. list_all P es)"

lemma emits_basic [simp]:
  "emits P (Done y)"
  "emits P (Crash m)"
  "emits P (GetInstance k c0) \<longleftrightarrow> (\<forall>r. P (EvGetInstance k r) \<and> emits P (c0 r))"
  "emits P (GetSecret k c1) \<longleftrightarrow> (\<forall>r. P (EvGetSecret k r) \<and> emits P (c1 r))"
  "emits P (GetCRD n c2) \<longleftrightarrow> (\<forall>r. P (EvGetCRD n r) \<and> emits P (c2 r))"
  "emits P (CreateSecret s c3) \<longleftrightarrow> (\<forall>r. P (EvCreateSecret s r) \<and> emits P (c3 r))"
  "emits P (PatchApply ob b o' fo c4) \<longleftrightarrow> (\<forall>r. P (EvPatchApply ob b o' fo r) \<and> emits P (c4 r))"
  "emits P (PatchMerge s b o' c5) \<longleftrightarrow> (\<forall>r. P (EvPatchMerge s b o' r) \<and> emits P (c5 r))"
  "emits P (PatchStatus i i' c6) \<longleftrightarrow> (\<forall>r. P (EvPatchStatus i i' r) \<and> emits P (c6 r))"
  "emits P (ReadRand j c7) \<longleftrightarrow> (\<forall>r. P (EvReadRand j r) \<and> emits P (c7 r))"
  "emits P (Now c8) \<longleftrightarrow> (\<forall>r. P (EvNow r) \<and> emits P (c8 r))"
  by (simp_all add: emits_def wp_conj)

lemma emits_bind [emits_intros]:
  "emits P p \<Longrightarrow> (\<And>x. emits P (f x)) \<Longrightarrow> emits P (bind p f)"
  unfolding emits_def wp_bind
  by (rule wp_mono, assumption) (auto split: go.split elim: wp_mono)

lemma emits_lift_go [simp]: "emits P (lift_go m)"
  by (cases m) auto

lemma emits_check [emits_intros]:
  "emits P p \<Longrightarrow> emits P rest \<Longrightarrow> emits P (check p onerr rest)"
  unfolding check_def by (rule emits_bind) (auto split: option.split)

lemma emits_mono: "emits P p \<Longrightarrow> (\<And>e. P e \<Longrightarrow> Q e) \<Longrightarrow> emits Q p"
  unfolding emits_def by (erule wp_mono) (auto simp: list_all_iff)

lemma emits_run: "emits P p \<Longrightarrow> list_all P (events (run h p w))"
  unfolding emits_def by (rule wp_run)

section \<open>Trees that keep to a set of requests and do not panic\<close>

definition safe :: "(event \<Rightarrow> bool) \<Rightarrow> 'a prog \<Rightarrow> bool" where
  "safe P p \<longleftrightarrow> wp p (\<lambda>es x. list_all P es \<and> is_value x)"

lemma safe_basic [simp]:
  "safe P (Done y)"
  "safe P (GetInstance k c0) \<longleftrightarrow> (\<forall>r. P (EvGetInstance k r) \<and> safe P (c0 r))"
  "safe P (GetSecret k c1) \<longleftrightarrow> (\<forall>r. P (EvGetSecret k r) \<and> safe P (c1 r))"
  "safe P (GetCRD n c2) \<longleftrightarrow> (\<forall>r. P (EvGetCRD n r) \<and> safe P (c2 r))"
  "safe P (CreateSecret s c3) \<longleftrightarrow> (\<forall>r. P (EvCreateSecret s r) \<and> safe P (c3 r))"
  "safe P (PatchApply ob b o' fo c4) \<longleftrightarrow> (\<forall>r. P (EvPatchApply ob b o' fo r) \<and> safe P (c4 r))"
  "safe P (PatchMerge s b o' c5) \<longleftrightarrow> (\<forall>r. P (EvPatchMerge s b o' r) \<and> safe P (c5 r))"
  "safe P (PatchStatus i i' c6) \<longleftrightarrow> (\<forall>r. P (EvPatchStatus i i' r) \<and> safe P (c6 r))"
  "safe P (ReadRand j c7) \<longleftrightarrow> (\<forall>r. P (EvReadRand j r) \<and> safe P (c7 r))"
  "safe P (Now c8) \<longleftrightarrow> (\<forall>r. P (EvNow r) \<and> safe P (c8 r))"
  by (auto simp: safe_def wp_conj)

lemma safe_bind [emits_intros]:
  "safe P p \<Longrightarrow> (\<And>x. safe P (f x)) \<Longrightarrow> safe P (bind p f)"
  unfolding safe_def wp_bind
  by (rule wp_mono, assumption) (auto split: go.splits elim: wp_mono)

lemma safe_check [emits_intros]:
  "safe P p \<Longrightarrow> safe P rest \<Longrightarrow> safe P (check p onerr rest)"
  unfolding check_def by (rule safe_bind) (auto split: option.split)

text \<open>Every value a tree can return satisfies \<open>R\<close>.\<close>

definition results :: "('a \<Rightarrow> bool) \<Rightarrow> 'a prog \<Rightarrow> bool" where
  "results R p \<longleftrightarrow> wp p (\<lambda>es x. case x of Value y \<Rightarrow> R y | Panic m \<Rightarrow> True)"

lemma results_basic [simp]:
  "results R (Done y) \<longleftrightarrow> R y"
  "results R (Crash m)"
  "results R (GetInstance k c0) \<longleftrightarrow> (\<forall>r. results R (c0 r))"
  "results R (GetSecret k c1) \<longleftrightarrow> (\<forall>r. results R (c1 r))"
  "results R (GetCRD n c2) \<longleftrightarrow> (\<forall>r. results R (c2 r))"
  "results R (CreateSecret s c3) \<longleftrightarrow> (\<forall>r. results R (c3 r))"
  "results R (PatchApply ob b o' fo c4) \<longleftrightarrow> (\<forall>r. results R (c4 r))"
  "results R (PatchMerge s b o' c5) \<longleftrightarrow> (\<forall>r. results R (c5 r))"
  "results R (PatchStatus i i' c6) \<longleftrightarrow> (\<forall>r. results R (c6 r))"
  "results R (ReadRand j c7) \<longleftrightarrow> (\<forall>r. results R (c7 r))"
  "results R (Now c8) \<longleftrightarrow> (\<forall>r. results R (c8 r))"
  by (simp_all add: results_def)

lemma results_bind:
  assumes "results S p" and "\<And>y. S y \<Longrightarrow> results R (f y)"
  shows "results R (bind p f)"
  unfolding results_def
proof (rule wp_bindI)
  show "wp p (\<lambda>es x. case x of Value y \<Rightarrow> S y | Panic m \<Rightarrow> True)"
    using assms(1) by (simp add: results_def)
qed (auto dest!: assms(2) simp: results_def)

lemma results_True [simp]: "results (\<lambda>y. True) p"
  by (simp add: results_def wp_def split: go.split)

lemma results_conj: "results R p \<Longrightarrow> results S p \<Longrightarrow> results (\<lambda>y. R y \<and> S y) p"
  unfolding results_def wp_def by (auto split: go.splits)

lemma results_bind_any: "(\<And>y. results R (f y)) \<Longrightarrow> results R (bind p f)"
  by (rule results_bind [OF results_True])

lemma safe_result_bind:
  assumes "safe P p" and "results R p" and "\<And>y. R y \<Longrightarrow> safe P (f y)"
  shows "safe P (bind p f)"
proof -
  from assms(1,2) have "wp p (\<lambda>es x. (list_all P es \<and> is_value x) \<and>
      (case x of Value y \<Rightarrow> R y | Panic m \<Rightarrow> True))"
    unfolding safe_def results_def wp_conj by blast
  then show ?thesis
    unfolding safe_def
    by (rule wp_bindI) (auto dest!: assms(3) simp: safe_def elim: wp_mono)
qed

text \<open>A safe tree returns a value that satisfies what all its results satisfy.\<close>

lemma safe_results:
  "safe P p \<Longrightarrow> results R p \<Longrightarrow> wp p (\<lambda>es x. list_all P es \<and> (\<exists>y. x = Value y \<and> R y))"
proof -
  assume "safe P p" "results R p"
  then have "wp p (\<lambda>es x. (list_all P es \<and> is_value x) \<and>
      (case x of Value y \<Rightarrow> R y | Panic m \<Rightarrow> True))"
    unfolding safe_def results_def wp_conj by blast
  then show ?thesis by (rule wp_mono) (auto split: go.splits)
qed

end
