(* ===== verification/Ref_Lib.thy ===== *)
theory Ref_Lib
  imports Ext_Lib
begin

text \<open>
  A concrete third-party library, at which the properties that assume a law of \<open>Ext_Lib\<close> are
  applied in their witnesses. It does what the documentation of each function says on the
  arguments the witnesses use, and satisfies every law.
\<close>

definition dns_label_ok :: "string \<Rightarrow> bool" where
  "dns_label_ok s \<longleftrightarrow> s \<noteq> [] \<and> hd s \<noteq> CHR ''-'' \<and> last s \<noteq> CHR ''-'' \<and>
     list_all (\<lambda>c. c \<in> set ''abcdefghijklmnopqrstuvwxyz0123456789-'') s"

definition ref_is_subdomain :: "string \<Rightarrow> string list" where
  "ref_is_subdomain s =
     (if length s > 253 then [''must be no more than 253 bytes''] else []) @
     (if list_all dns_label_ok (split_on (CHR ''.'') s) then [] else [''a lowercase RFC 1123 subdomain''])"

definition ref_parse_quantity :: "string \<Rightarrow> gerror + quantity" where
  "ref_parse_quantity s =
     (if s \<in> set size_literals then Inr s else Inl (ErrorMsg ''quantities must match''))"

definition ref_hostname :: "string \<Rightarrow> gerror + string" where
  "ref_hostname u =
     (if take 8 u = ''https://''
      then Inr (takeWhile (\<lambda>c. c \<notin> set '':/?#'') (drop 8 u)) else Inl (ErrorMsg ''parse''))"

fun ref_set_condition :: "nat \<Rightarrow> Condition list \<Rightarrow> Condition \<Rightarrow> Condition list" where
  "ref_set_condition t [] c = [stamped t None c]"
| "ref_set_condition t (x # xs) c =
     (if cdType x = cdType c then stamped t (Some x) c # xs else x # ref_set_condition t xs c)"

fun ref_not_found :: "gerror \<Rightarrow> bool" where
  "ref_not_found (ErrorMsg m) = False"
| "ref_not_found (ErrorWrap p e) = ref_not_found e"
| "ref_not_found (ErrorStatus r m) = (r = ''NotFound'')"

definition ref_is_not_found :: "err \<Rightarrow> bool" where
  "ref_is_not_found e = (case e of None \<Rightarrow> False | Some e' \<Rightarrow> ref_not_found e')"

definition ref_controller_of :: "OwnerReference list \<Rightarrow> OwnerReference option" where
  "ref_controller_of refs = find (\<lambda>r. orController r = Some True) refs"

definition ref_set_controller :: "PaperlessInstance \<Rightarrow> ObjectMeta \<Rightarrow> gerror + ObjectMeta" where
  "ref_set_controller inst m =
     (if omNamespace m \<noteq> inst_ns inst then Inl (ErrorMsg ''cross-namespace owner'')
      else case ref_controller_of (omOwnerReferences m) of
        Some r \<Rightarrow> (if orUID r = inst_uid inst then Inr m else Inl (ErrorMsg ''already owned''))
      | None \<Rightarrow> Inr (m\<lparr>omOwnerReferences := omOwnerReferences m @ [controller_ref inst]\<rparr>))"

fun ref_gvk :: "kobject \<Rightarrow> gerror + GVK" where
  "ref_gvk (ODeployment d) = Inr \<lparr>gvkGroup = ''apps'', gvkVersion = ''v1'', gvkKind = ''Deployment''\<rparr>"
| "ref_gvk (OService s) = Inr \<lparr>gvkGroup = [], gvkVersion = ''v1'', gvkKind = ''Service''\<rparr>"
| "ref_gvk (OPVC p) = Inr \<lparr>gvkGroup = [], gvkVersion = ''v1'', gvkKind = ''PersistentVolumeClaim''\<rparr>"
| "ref_gvk (OSecret s) = Inr \<lparr>gvkGroup = [], gvkVersion = ''v1'', gvkKind = ''Secret''\<rparr>"
| "ref_gvk (OUnstructured u) =
     Inr \<lparr>gvkGroup = ''postgresql.cnpg.io'', gvkVersion = ''v1'', gvkKind = unKind u\<rparr>"

definition ref_marshal_object :: "GVK \<Rightarrow> kobject \<Rightarrow> gerror + document" where
  "ref_marshal_object gvk x =
     Inr (JObj [''kind'' \<mapsto> JStr (gvkKind gvk),
                ''metadata'' \<mapsto> JObj (
                   (if obj_name x = [] then Map.empty else [''name'' \<mapsto> JStr (obj_name x)])
                   ++ (if omNamespace (obj_meta x) = [] then Map.empty
                       else [''namespace'' \<mapsto> JStr (omNamespace (obj_meta x))])
                   ++ (if obj_owners x = [] then Map.empty
                       else [''ownerReferences'' \<mapsto>
                              JArr (map (\<lambda>r. JObj (owner_reference_map r)) (obj_owners x))]))])"

definition ref_unmarshal_map :: "document \<Rightarrow> gerror + json_map option" where
  "ref_unmarshal_map d = (case d of JObj m \<Rightarrow> Inr (Some m) | JNull \<Rightarrow> Inr None
     | _ \<Rightarrow> Inl (ErrorMsg ''cannot unmarshal''))"

fun ref_set_nested :: "json_map \<Rightarrow> json_map \<Rightarrow> string list \<Rightarrow> gerror + json_map" where
  "ref_set_nested m v [k] = Inr (m(k \<mapsto> JObj v))"
| "ref_set_nested m v ks = Inl (ErrorMsg ''unsupported path'')"

definition ref_lib :: Lib where
  "ref_lib = \<lparr>
     libIsDNS1123Subdomain = ref_is_subdomain,
     libParseQuantity = ref_parse_quantity,
     libIsZero = (\<lambda>q. q = ''0''),
     libQuantityString = (\<lambda>q. q),
     libURLHostname = ref_hostname,
     libSetStatusCondition = ref_set_condition,
     libIsNotFound = ref_is_not_found,
     libIgnoreNotFound = (\<lambda>e. if ref_is_not_found e then None else e),
     libSetControllerReference = ref_set_controller,
     libGetControllerOf = ref_controller_of,
     libGVKForObject = ref_gvk,
     libMarshalObject = ref_marshal_object,
     libMarshalOwnerReference = (\<lambda>r. Inr (JObj (owner_reference_map r))),
     libMarshalJSON = Inr,
     libUnmarshalMap = ref_unmarshal_map,
     libSetNestedMap = ref_set_nested\<rparr>"

lemma ref_lib_sel [simp]:
  "libIsDNS1123Subdomain ref_lib = ref_is_subdomain"
  "libParseQuantity ref_lib = ref_parse_quantity"
  "libIsZero ref_lib = (\<lambda>q. q = ''0'')"
  "libQuantityString ref_lib = (\<lambda>q. q)"
  "libURLHostname ref_lib = ref_hostname"
  "libSetStatusCondition ref_lib = ref_set_condition"
  "libIsNotFound ref_lib = ref_is_not_found"
  "libIgnoreNotFound ref_lib = (\<lambda>e. if ref_is_not_found e then None else e)"
  "libSetControllerReference ref_lib = ref_set_controller"
  "libGetControllerOf ref_lib = ref_controller_of"
  "libGVKForObject ref_lib = ref_gvk"
  "libMarshalObject ref_lib = ref_marshal_object"
  "libMarshalOwnerReference ref_lib = (\<lambda>r. Inr (JObj (owner_reference_map r)))"
  "libMarshalJSON ref_lib = Inr"
  "libUnmarshalMap ref_lib = ref_unmarshal_map"
  "libSetNestedMap ref_lib = ref_set_nested"
  by (simp_all add: ref_lib_def)

section \<open>It satisfies the laws\<close>

lemma ref_quantity_laws [simp]: "quantity_laws ref_lib"
  by (simp add: quantity_laws_def ref_parse_quantity_def size_literals_def)

lemma find_ref_set_condition:
  "find_condition (ref_set_condition t cs c) ty =
     (if cdType c = ty then Some (stamped t (find_condition cs ty) c) else find_condition cs ty)"
  by (induction cs) (auto simp: find_condition_def)

lemma types_ref_set_condition:
  "map cdType (ref_set_condition t cs c) =
     (if cdType c \<in> set (map cdType cs) then map cdType cs else map cdType cs @ [cdType c])"
  by (induction cs) auto

lemma ref_condition_laws [simp]: "condition_laws ref_lib"
  using find_ref_set_condition types_ref_set_condition by (simp add: condition_laws_def)

lemma ref_not_found_laws [simp]: "not_found_laws ref_lib"
  by (simp add: not_found_laws_def ref_is_not_found_def)

lemma ref_owner_laws [simp]: "owner_laws ref_lib"
  by (simp add: owner_laws_def ref_set_controller_def ref_controller_of_def)

lemma ref_json_laws [simp]: "json_laws ref_lib"
  by (simp add: json_laws_def ref_unmarshal_map_def)

lemma ref_object_laws [simp]: "object_laws ref_lib"
proof -
  have "\<exists>gvk. ref_gvk x = Inr gvk" for x by (cases x) auto
  then show ?thesis
    unfolding object_laws_def by (auto simp: ref_marshal_object_def ref_unmarshal_map_def) 
qed

lemma ref_unstructured_laws [simp]: "unstructured_laws ref_lib"
  by (simp add: unstructured_laws_def)

end
