(* ===== verification/Conditions.thy ===== *)
theory Conditions
  imports Client Ref_Lib
begin

text \<open>
  \<open>internal/controller/conditions.go\<close>: \<open>SetCondition\<close> upserts a status condition, stamped with
  the object's generation. \<open>meta.SetStatusCondition\<close> reads the clock, so it is a program.
\<close>

definition SetCondition ::
    "Lib \<Rightarrow> PaperlessInstance \<Rightarrow> string \<Rightarrow> string \<Rightarrow> string \<Rightarrow> string \<Rightarrow> PaperlessInstance prog" where
  "SetCondition L inst conditionType status reason message =
     Now (\<lambda>now. Done (PutConditions
       (libSetStatusCondition L now (GetConditions inst)
          \<lparr>cdType = conditionType, cdStatus = status,
           cdObservedGeneration = omGeneration (piMeta inst),
           cdLastTransitionTime = 0, cdReason = reason, cdMessage = message\<rparr>) inst))"

section \<open>What a condition says\<close>

text \<open>The condition of a type in an instance's status.\<close>

definition cond :: "PaperlessInstance \<Rightarrow> string \<Rightarrow> Condition option" where
  "cond inst ty = find_condition (GetConditions inst) ty"

text \<open>It is there, with the given status and reason, and computed from the current generation.\<close>

definition says :: "PaperlessInstance \<Rightarrow> string \<Rightarrow> string \<Rightarrow> string \<Rightarrow> bool" where
  "says inst ty status reason \<longleftrightarrow>
     (\<exists>c. cond inst ty = Some c \<and> cdStatus c = status \<and> cdReason c = reason \<and>
        cdObservedGeneration c = omGeneration (piMeta inst))"

text \<open>\<open>inst'\<close> is \<open>inst\<close> with other conditions: nothing else of it is changed.\<close>

definition only_conditions :: "PaperlessInstance \<Rightarrow> PaperlessInstance \<Rightarrow> bool" where
  "only_conditions inst inst' \<longleftrightarrow> (\<exists>cs. inst' = PutConditions cs inst)"

lemma only_conditions_refl [simp]: "only_conditions inst inst"
  unfolding only_conditions_def
  by (rule exI [of _ "GetConditions inst"]) (simp add: PutConditions_def GetConditions_def)

lemma only_conditions_Put [simp]: "only_conditions inst (PutConditions cs inst)"
  unfolding only_conditions_def by blast

lemma only_conditions_trans [trans]:
  "only_conditions a b \<Longrightarrow> only_conditions b c \<Longrightarrow> only_conditions a c"
  by (auto simp: only_conditions_def PutConditions_def)

lemma only_conditions_sel:
  "only_conditions a b \<Longrightarrow> piMeta b = piMeta a"
  "only_conditions a b \<Longrightarrow> piSpec b = piSpec a"
  by (auto simp: only_conditions_def)

section \<open>The operation\<close>

definition set_at :: "Lib \<Rightarrow> nat \<Rightarrow> PaperlessInstance \<Rightarrow> string \<Rightarrow> string \<Rightarrow> string \<Rightarrow> string \<Rightarrow> PaperlessInstance" where
  "set_at L t inst ty status reason message = PutConditions
       (libSetStatusCondition L t (GetConditions inst)
          \<lparr>cdType = ty, cdStatus = status, cdObservedGeneration = omGeneration (piMeta inst),
           cdLastTransitionTime = 0, cdReason = reason, cdMessage = message\<rparr>) inst"

lemma SetCondition_wp [wp_simps]:
  "wp (SetCondition L inst ty status reason message) Q \<longleftrightarrow>
     (\<forall>t. Q [EvNow t] (Value (set_at L t inst ty status reason message)))"
  by (simp add: SetCondition_def set_at_def)

lemma set_at_only [simp]: "only_conditions inst (set_at L t inst ty status reason message)"
  by (simp add: set_at_def)

lemma set_at_sel [simp]:
  "piMeta (set_at L t inst ty status reason message) = piMeta inst"
  "piSpec (set_at L t inst ty status reason message) = piSpec inst"
  by (simp_all add: set_at_def)

lemma cond_set_at:
  "condition_laws L \<Longrightarrow> cond (set_at L t inst ty status reason message) ty' =
     (if ty' = ty
      then Some (stamped t (cond inst ty)
        \<lparr>cdType = ty, cdStatus = status, cdObservedGeneration = omGeneration (piMeta inst),
         cdLastTransitionTime = 0, cdReason = reason, cdMessage = message\<rparr>)
      else cond inst ty')"
  by (simp add: cond_def set_at_def find_condition_set)

lemma says_set_at:
  "condition_laws L \<Longrightarrow> says (set_at L t inst ty status reason message) ty' st' re' \<longleftrightarrow>
     (if ty' = ty then st' = status \<and> re' = reason else says inst ty' st' re')"
  by (auto simp: says_def cond_set_at)

lemma SetCondition_emits [emits_intros]: "(\<And>t. P (EvNow t)) \<Longrightarrow> emits P (SetCondition L inst ty st re m)"
  by (simp add: SetCondition_def)

lemma distinct_set_at:
  "condition_laws L \<Longrightarrow> distinct (map cdType (GetConditions inst)) \<Longrightarrow>
   distinct (map cdType (GetConditions (set_at L t inst ty status reason message)))"
  by (simp add: set_at_def distinct_set_condition)

section \<open>Properties\<close>

text \<open>
  \<open>SetCondition\<close> makes the condition of its type carry exactly the given status, reason and
  message and the instance's current generation; its transition time is the present exactly
  when the condition is new or its status changes. Conditions of other types, the metadata and
  the specification stay as they are, and no type gets a second entry.
\<close>

lemma set_condition_upserts:
  assumes "condition_laws L" and "distinct (map cdType (GetConditions inst))"
  shows "wp (SetCondition L inst ty status reason message) (\<lambda>es x.
    \<exists>t inst' c. es = [EvNow t] \<and> x = Value inst' \<and> only_conditions inst inst' \<and>
      cond inst' ty = Some c \<and> cdStatus c = status \<and> cdReason c = reason \<and> cdMessage c = message \<and>
      cdObservedGeneration c = omGeneration (piMeta inst) \<and>
      cdLastTransitionTime c =
        (case cond inst ty of Some o' \<Rightarrow> (if cdStatus o' = status then cdLastTransitionTime o' else t)
         | None \<Rightarrow> t) \<and>
      (\<forall>ty'. ty' = ty \<or> cond inst' ty' = cond inst ty') \<and>
      distinct (map cdType (GetConditions inst')))"
  using distinct_set_at [OF assms]
  by (auto simp: wp_simps cond_set_at [OF assms(1)] stamped_def split: option.split)

lemma set_condition_upserts_witness:
  "wp (SetCondition ref_lib (bare_instance ''docs'' ''ns'' ''u'') ''Ready'' ''False'' ''r'' ''m'')
     (\<lambda>es x. \<exists>t inst'. es = [EvNow t] \<and> x = Value inst' \<and>
       (\<exists>c. cond inst' ''Ready'' = Some c \<and> cdLastTransitionTime c = t))"
  by (rule wp_mono [OF set_condition_upserts [OF ref_condition_laws]])
     (auto simp: bare_instance_def GetConditions_def cond_def find_condition_def)

end
