(* ===== verification/Names.thy ===== *)
theory Names
  imports Ext_Lib
begin

text \<open>
  \<open>internal/resources/names.go\<close>: the names of the objects an instance owns, each the
  instance's name followed by a hyphen and a fixed suffix. The locale \<open>suffix_scheme\<close> states
  when such a family of names cannot collide, within one instance or between two; the
  operator's eight suffixes are an instance of it.
\<close>

section \<open>The name functions\<close>

definition derivedName :: "PaperlessInstance \<Rightarrow> string \<Rightarrow> string" where
  "derivedName inst suffix = inst_name inst @ ''-'' @ suffix"

definition SecretKeyName :: "PaperlessInstance \<Rightarrow> string" where
  "SecretKeyName inst = derivedName inst ''secret-key''"

definition AdminSecretName :: "PaperlessInstance \<Rightarrow> string" where
  "AdminSecretName inst = derivedName inst ''admin''"

definition DataPVCName :: "PaperlessInstance \<Rightarrow> string" where
  "DataPVCName inst = derivedName inst ''data''"

definition MediaPVCName :: "PaperlessInstance \<Rightarrow> string" where
  "MediaPVCName inst = derivedName inst ''media''"

definition ConsumePVCName :: "PaperlessInstance \<Rightarrow> string" where
  "ConsumePVCName inst = derivedName inst ''consume''"

definition ExportPVCName :: "PaperlessInstance \<Rightarrow> string" where
  "ExportPVCName inst = derivedName inst ''export''"

definition ValkeyName :: "PaperlessInstance \<Rightarrow> string" where
  "ValkeyName inst = derivedName inst ''valkey''"

definition DBName :: "PaperlessInstance \<Rightarrow> string" where
  "DBName inst = derivedName inst ''db''"

lemmas name_defs = SecretKeyName_def AdminSecretName_def DataPVCName_def MediaPVCName_def
  ConsumePVCName_def ExportPVCName_def ValkeyName_def DBName_def

section \<open>When derived names cannot collide\<close>

definition is_suffix_of :: "string \<Rightarrow> string \<Rightarrow> bool" where
  "is_suffix_of s t \<longleftrightarrow> length s \<le> length t \<and> drop (length t - length s) t = s"

lemma is_suffix_of_append: "t = u @ s \<Longrightarrow> is_suffix_of s t"
  by (simp add: is_suffix_of_def)

locale suffix_scheme =
  fixes suffixes :: "string list"
  assumes suffix_free: "\<lbrakk>s \<in> set suffixes; t \<in> set suffixes; is_suffix_of (''-'' @ s) (''-'' @ t)\<rbrakk> \<Longrightarrow> s = t"
begin

lemma same_suffix:
  assumes "s \<in> set suffixes" "t \<in> set suffixes" "xs @ ''-'' @ s = ys @ ''-'' @ t"
  shows "s = t"
proof (cases "length s \<le> length t")
  case True
  from append_suffix_cases [OF assms(3)] True obtain u where "''-'' @ t = u @ ''-'' @ s"
    by auto
  then have "is_suffix_of (''-'' @ s) (''-'' @ t)" by (rule is_suffix_of_append)
  with assms show ?thesis by (auto intro: suffix_free)
next
  case False
  from append_suffix_cases [OF assms(3) [symmetric]] False obtain u where "''-'' @ s = u @ ''-'' @ t"
    by auto
  then have "is_suffix_of (''-'' @ t) (''-'' @ s)" by (rule is_suffix_of_append)
  with assms show ?thesis by (auto dest: suffix_free)
qed

lemma derived_name_eq:
  assumes "s \<in> set suffixes" "t \<in> set suffixes"
  shows "derivedName a s = derivedName b t \<longleftrightarrow> inst_name a = inst_name b \<and> s = t"
proof
  assume eq: "derivedName a s = derivedName b t"
  with same_suffix [OF assms, of "inst_name a" "inst_name b"] have "s = t"
    by (simp add: derivedName_def)
  with eq show "inst_name a = inst_name b \<and> s = t" by (simp add: derivedName_def)
qed (simp add: derivedName_def)

lemma images_distinct:
  "distinct suffixes \<Longrightarrow> distinct (map (derivedName a) suffixes)"
  by (auto simp: distinct_map inj_on_def derived_name_eq)

end

definition operator_suffixes :: "string list" where
  "operator_suffixes = [''secret-key'', ''admin'', ''data'', ''media'', ''consume'', ''export'',
     ''valkey'', ''db'']"

lemma operator_suffixes_distinct: "distinct operator_suffixes"
  by (simp add: operator_suffixes_def)

lemma operator_suffixes_free:
  "list_all (\<lambda>s. list_all (\<lambda>t. is_suffix_of (''-'' @ s) (''-'' @ t) \<longrightarrow> s = t) operator_suffixes)
     operator_suffixes"
  by code_simp

interpretation derived: suffix_scheme operator_suffixes
  by unfold_locales (use operator_suffixes_free in \<open>auto simp: list_all_iff\<close>)

lemma derivedName_not_bare [simp]: "derivedName a s \<noteq> inst_name a"
  by (simp add: derivedName_def)

definition derived_names :: "PaperlessInstance \<Rightarrow> string list" where
  "derived_names a = [SecretKeyName a, AdminSecretName a, DataPVCName a, MediaPVCName a,
     ConsumePVCName a, ExportPVCName a, ValkeyName a, DBName a]"

lemma derived_names_eq: "derived_names a = map (derivedName a) operator_suffixes"
  by (simp add: derived_names_def operator_suffixes_def name_defs)

lemma derived_names_distinct: "distinct (derived_names a)"
  by (simp add: derived_names_eq derived.images_distinct operator_suffixes_distinct)

section \<open>Properties of the names\<close>

text \<open>
  The eight names an instance derives are pairwise distinct and differ from the
  instance's own name, and a name derived for one instance equals a name derived for another
  only if the two instances have the same name and the names play the same role.
\<close>

lemma derived_names_never_collide:
  assumes "s \<in> set operator_suffixes" and "t \<in> set operator_suffixes"
  shows "distinct (inst_name a # derived_names a) \<and>
    (derivedName a s = derivedName b t \<longleftrightarrow> inst_name a = inst_name b \<and> s = t)"
  using derived_names_distinct [of a] derived.derived_name_eq [OF assms]
  by (auto simp: derived_names_eq dest: sym)

end
