(* ===== verification/Secrets.thy ===== *)
theory Secrets
  imports Names Client
begin

unbundle bit_operations_syntax

text \<open>
  \<open>internal/resources/secret.go\<close>: random keys, the labels every object carries, the check of
  a derived name, and the builders of the two generated secrets. The builders draw from the
  random source, so they are programs of \<open>Client\<close>; a nil secret is \<open>None\<close>.
\<close>

section \<open>Random keys\<close>

definition randomKeyAlphabet :: string where
  "randomKeyAlphabet = ''ABCDEFGHIJKLMNOPQRSTUVWXYZabcdefghijklmnopqrstuvwxyz0123456789-_''"

definition secretKeyLength :: nat where "secretKeyLength = 50"

definition adminPasswordLength :: nat where "adminPasswordLength = 32"

definition pick :: "u8 \<Rightarrow> char" where
  "pick b = randomKeyAlphabet ! unat (b AND 0x3F)"

definition RandomKey :: "nat \<Rightarrow> (gerror + string) prog" where
  "RandomKey n = ReadRand n (\<lambda>r. case r of
     Inl e \<Rightarrow> Done (Inl (ErrorWrap ''generating random key'' e))
   | Inr raw \<Rightarrow> Done (Inr (map (\<lambda>i. pick (raw i)) [0..<n])))"

section \<open>Labels and names\<close>

definition commonLabels :: "PaperlessInstance \<Rightarrow> string \<Rightarrow> (string \<rightharpoonup> string)" where
  "commonLabels inst component =
     [''app.kubernetes.io/name'' \<mapsto> ''paperless-ngx'',
      ''app.kubernetes.io/instance'' \<mapsto> inst_name inst,
      ''app.kubernetes.io/managed-by'' \<mapsto> ''paperless-ngx-operator'',
      ''app.kubernetes.io/component'' \<mapsto> component]"

definition validateName :: "Lib \<Rightarrow> string \<Rightarrow> err" where
  "validateName L name =
     (let errs = libIsDNS1123Subdomain L name in
      if errs \<noteq> []
      then Some (ErrorMsg (''object name '' @ Quote name @ '' is invalid: '' @ Join errs ''; ''))
      else None)"

section \<open>The generated secrets\<close>

definition SecretKey :: "Lib \<Rightarrow> PaperlessInstance \<Rightarrow> (gerror + Secret option) prog" where
  "SecretKey L inst =
     (if spSecretKeySecretRef (piSpec inst) \<noteq> None then Done (Inr None)
      else
        let name = SecretKeyName inst in
        case validateName L name of
          Some e \<Rightarrow> Done (Inl e)
        | None \<Rightarrow> bind (RandomKey secretKeyLength) (\<lambda>r. case r of
            Inl e \<Rightarrow> Done (Inl (ErrorWrap ''generating secret key'' e))
          | Inr key \<Rightarrow> Done (Inr (Some \<lparr>
              secMeta = new_meta name (inst_ns inst) (commonLabels inst ''secret-key''),
              secData = Map.empty,
              secStringData = [''PAPERLESS_SECRET_KEY'' \<mapsto> key]\<rparr>))))"

definition AdminSecret :: "Lib \<Rightarrow> PaperlessInstance \<Rightarrow> (gerror + Secret option) prog" where
  "AdminSecret L inst =
     (let admin = spAdmin (piSpec inst) in
      if \<not> IsEnabled admin \<or> adPasswordSecretRef admin \<noteq> None then Done (Inr None)
      else
        let name = AdminSecretName inst in
        case validateName L name of
          Some e \<Rightarrow> Done (Inl e)
        | None \<Rightarrow> bind (RandomKey adminPasswordLength) (\<lambda>r. case r of
            Inl e \<Rightarrow> Done (Inl (ErrorWrap ''generating admin password'' e))
          | Inr password \<Rightarrow> Done (Inr (Some \<lparr>
              secMeta = new_meta name (inst_ns inst) (commonLabels inst ''admin''),
              secData = Map.empty,
              secStringData = [''username'' \<mapsto> adUsername admin,
                               ''password'' \<mapsto> password]\<rparr>))))"

section \<open>Lemmas\<close>

lemma alphabet_length [simp]: "length randomKeyAlphabet = 64"
  by (simp add: randomKeyAlphabet_def)

lemma alphabet_distinct: "distinct randomKeyAlphabet"
  by (simp add: randomKeyAlphabet_def)

lemma unat_and_63: "unat ((b :: u8) AND 0x3F) = unat b mod 64"
proof -
  have "b AND 0x3F = take_bit 6 b"
    by (simp add: take_bit_eq_mask mask_eq_exp_minus_1)
  then have "unat (b AND 0x3F) = unat (take_bit 6 b)" by (simp only:)
  also have "\<dots> = take_bit 6 (unat b)" by (rule unsigned_take_bit_eq)
  also have "\<dots> = unat b mod 64" by (simp add: take_bit_eq_mod)
  finally show ?thesis .
qed

lemma pick_in_alphabet [simp]: "pick b \<in> set randomKeyAlphabet"
  by (simp add: pick_def unat_and_63)

lemma pick_eq_nth: "i < 64 \<Longrightarrow> pick b = randomKeyAlphabet ! i \<longleftrightarrow> unat b mod 64 = i"
  by (simp add: pick_def unat_and_63 nth_eq_iff_index_eq [OF alphabet_distinct])

lemma unat_of_nat_u8: "n < 256 \<Longrightarrow> unat (of_nat n :: u8) = n"
  by (simp add: unsigned_of_nat take_bit_nat_eq_self)

lemma card_residue:
  assumes i: "i < 64"
  shows "card {b :: u8. unat b mod 64 = i} = 4"
proof -
  have u: "unat (of_nat (i + 64 * k) :: u8) = i + 64 * k" if "k < 4" for k
    using i that by (intro unat_of_nat_u8) simp
  have "{b :: u8. unat b mod 64 = i} = (\<lambda>k. of_nat (i + 64 * k)) ` {..<4}"
  proof (intro equalityI subsetI)
    fix b :: u8 assume "b \<in> {b. unat b mod 64 = i}"
    then have "i + 64 * (unat b div 64) = unat b" by (metis mem_Collect_eq mod_mult_div_eq)
    then have "b = of_nat (i + 64 * (unat b div 64))" by simp
    moreover have "unat b div 64 < 4" using unsigned_less [of b, where 'a = nat] by simp
    ultimately show "b \<in> (\<lambda>k. of_nat (i + 64 * k)) ` {..<4}" by blast
  next
    fix b :: u8 assume "b \<in> (\<lambda>k. of_nat (i + 64 * k)) ` {..<4}"
    then obtain k where "k < 4" "unat b = i + 64 * k" using u by force
    with i show "b \<in> {b. unat b mod 64 = i}" by simp
  qed
  moreover have "inj_on (\<lambda>k. of_nat (i + 64 * k) :: u8) {..<4}"
  proof (rule inj_onI)
    fix k l :: nat
    assume kl: "k \<in> {..<4}" "l \<in> {..<4}" "(of_nat (i + 64 * k) :: u8) = of_nat (i + 64 * l)"
    from arg_cong [OF kl(3), of unat] show "k = l"
      using u kl(1,2) by (simp del: of_nat_add of_nat_mult)
  qed
  ultimately show ?thesis by (simp add: card_image)
qed

lemma commonLabels_inj:
  "commonLabels a c = commonLabels b d \<longleftrightarrow> inst_name a = inst_name b \<and> c = d"
proof
  assume "commonLabels a c = commonLabels b d"
  then have "commonLabels a c ''app.kubernetes.io/instance'' = commonLabels b d ''app.kubernetes.io/instance''"
    and "commonLabels a c ''app.kubernetes.io/component'' = commonLabels b d ''app.kubernetes.io/component''"
    by simp_all
  then show "inst_name a = inst_name b \<and> c = d" by (simp add: commonLabels_def)
qed (simp add: commonLabels_def)

section \<open>The contract of a builder\<close>

text \<open>
  Every builder makes fresh objects of the instance's namespace, labelled with one of its
  components and without owner references. The reconciler relies on this when it adds an
  owner: on such an object the call cannot fail and leaves exactly one reference.
\<close>

definition built_for :: "PaperlessInstance \<Rightarrow> string \<Rightarrow> ObjectMeta \<Rightarrow> bool" where
  "built_for inst component m \<longleftrightarrow> m = new_meta (omName m) (inst_ns inst) (commonLabels inst component)"

lemma built_for_new_meta [simp]:
  "built_for inst c (new_meta n ns ls) \<longleftrightarrow> ns = inst_ns inst \<and> ls = commonLabels inst c"
  by (auto simp: built_for_def new_meta_def)

locale object_builder =
  fixes objects :: "PaperlessInstance \<Rightarrow> kobject list"
    and components :: "string list"
  assumes built: "x \<in> set (objects inst) \<Longrightarrow> \<exists>c \<in> set components. built_for inst c (obj_meta x)"
begin

lemma no_owner: "x \<in> set (objects inst) \<Longrightarrow> obj_owners x = []"
  using built [of x inst] unfolding built_for_def
  by (metis new_meta_sel(4))

lemma own_namespace: "x \<in> set (objects inst) \<Longrightarrow> omNamespace (obj_meta x) = inst_ns inst"
  using built [of x inst] unfolding built_for_def
  by (metis new_meta_sel(2))

lemma owner_set:
  "owner_laws L \<Longrightarrow> x \<in> set (objects inst) \<Longrightarrow>
   libSetControllerReference L inst (obj_meta x) =
     Inr ((obj_meta x)\<lparr>omOwnerReferences := [controller_ref inst]\<rparr>)"
  using no_owner own_namespace unfolding owner_laws_def by blast

lemma instance_label:
  "x \<in> set (objects inst) \<Longrightarrow>
   omLabels (obj_meta x) ''app.kubernetes.io/instance'' = Some (inst_name inst)"
proof -
  assume "x \<in> set (objects inst)"
  then obtain c where "built_for inst c (obj_meta x)" using built by blast
  then have "omLabels (obj_meta x) = commonLabels inst c"
    unfolding built_for_def by (metis new_meta_sel(3))
  then show ?thesis by (simp add: commonLabels_def)
qed

end

lemma RandomKey_wp [wp_simps]:
  "wp (RandomKey n) Q \<longleftrightarrow>
     (\<forall>e. Q [EvReadRand n (Inl e)] (Value (Inl (ErrorWrap ''generating random key'' e)))) \<and>
     (\<forall>raw. Q [EvReadRand n (Inr raw)] (Value (Inr (map (\<lambda>i. pick (raw i)) [0..<n]))))"
  by (auto simp: RandomKey_def split: sum.splits)

lemma picked_chars [simp]: "list_all (\<lambda>c. c \<in> set randomKeyAlphabet) (map (\<lambda>i. pick (f i)) xs)"
  by (simp add: list_all_iff)

section \<open>The contract of a secret builder\<close>

text \<open>
  A builder of a generated secret only draws randomness, at most once, and never panics. It
  returns an error, nothing at all where the user supplies the value (then it draws nothing),
  or a fresh secret under its fixed name in the instance's namespace, without owner and with
  the value in \<open>stringData\<close> only. The reconciler relies on exactly this.
\<close>

definition is_draw :: "event \<Rightarrow> bool" where
  "is_draw e \<longleftrightarrow> (case e of EvReadRand n r \<Rightarrow> True | _ \<Rightarrow> False)"

lemma is_draw_simps [simp]: "is_draw (EvReadRand n r)"
  by (simp add: is_draw_def)

definition fresh_secret :: "PaperlessInstance \<Rightarrow> string \<Rightarrow> Secret \<Rightarrow> bool" where
  "fresh_secret inst name s \<longleftrightarrow> omName (secMeta s) = name \<and> omNamespace (secMeta s) = inst_ns inst \<and>
     omOwnerReferences (secMeta s) = [] \<and> secData s = Map.empty"

locale secret_builder =
  fixes build :: "Lib \<Rightarrow> PaperlessInstance \<Rightarrow> (gerror + Secret option) prog"
    and secret_name :: "PaperlessInstance \<Rightarrow> string"
    and supplied :: "PaperlessInstance \<Rightarrow> bool"
  assumes builds: "wp (build L inst) (\<lambda>es x. \<exists>r. x = Value r \<and> list_all is_draw es \<and> length es \<le> 1 \<and>
      (case r of Inl e \<Rightarrow> True | Inr None \<Rightarrow> supplied inst
       | Inr (Some s) \<Rightarrow> fresh_secret inst (secret_name inst) s))"
    and user_value: "supplied inst \<Longrightarrow> build L inst = Done (Inr None)"
begin

lemma draws_only: "safe is_draw (build L inst)"
  unfolding safe_def by (rule wp_mono [OF builds]) auto

lemma result_fresh:
  "results (\<lambda>r. \<forall>s. r = Inr (Some s) \<longrightarrow> fresh_secret inst (secret_name inst) s) (build L inst)"
  unfolding results_def by (rule wp_mono [OF builds]) auto

end

definition admin_supplied :: "PaperlessInstance \<Rightarrow> bool" where
  "admin_supplied inst \<longleftrightarrow> \<not> IsEnabled (spAdmin (piSpec inst)) \<or> adPasswordSecretRef (spAdmin (piSpec inst)) \<noteq> None"

interpretation secret_key: secret_builder SecretKey SecretKeyName
  "\<lambda>inst. spSecretKeySecretRef (piSpec inst) \<noteq> None"
  by unfold_locales
     (auto simp: SecretKey_def validateName_def Let_def wp_bind wp_simps fresh_secret_def
       split: option.split)

interpretation admin_secret: secret_builder AdminSecret AdminSecretName admin_supplied
  by unfold_locales
     (auto simp: AdminSecret_def validateName_def Let_def wp_bind wp_simps fresh_secret_def
       admin_supplied_def split: option.split)

section \<open>Properties of the secrets\<close>

text \<open>
  Random keys are drawn without bias: the alphabet has 64 different characters and each
  is picked by exactly four of the 256 values of a random byte.
\<close>

lemma random_key_unbiased:
  "distinct randomKeyAlphabet \<and> length randomKeyAlphabet = 64 \<and>
   list_all (\<lambda>c. card {b. pick b = c} = 4) randomKeyAlphabet"
proof -
  have "card {b. pick b = randomKeyAlphabet ! i} = 4" if "i < 64" for i
    using that by (simp add: pick_eq_nth card_residue)
  then show ?thesis
    by (simp add: alphabet_distinct list_all_length)
qed

lemma picks_onto: "card {b. pick b = c} = (if c \<in> set randomKeyAlphabet then 4 else 0)"
proof (cases "c \<in> set randomKeyAlphabet")
  case False
  then have "{b. pick b = c} = {}" using picked_chars [of id] by (auto simp: list_all_iff)
  with False show ?thesis by simp
qed (use random_key_unbiased in \<open>simp add: list_all_iff\<close>)

text \<open>How many byte strings turn into a given text, one character for each byte.\<close>

lemma card_picks: "card {bs. map pick bs = key} = (if set key \<subseteq> set randomKeyAlphabet then 4 ^ length key else 0)"
proof (induction key)
  case (Cons c key)
  have "{bs. map pick bs = c # key} = (\<lambda>(b, bs). b # bs) ` ({b. pick b = c} \<times> {bs. map pick bs = key})"
    by (auto simp: map_eq_Cons_conv)
  moreover have "inj_on (\<lambda>(b, bs). b # bs) ({b. pick b = c} \<times> {bs. map pick bs = key})"
    by (auto simp: inj_on_def)
  ultimately show ?case
    using Cons.IH by (simp add: card_image card_cartesian_product picks_onto)
qed simp

lemma RandomKey_exec:
  assumes "length bs = n"
  shows "exec (RandomKey n) [EvReadRand n (Inr (\<lambda>i. bs ! i))] (Value (Inr key)) \<longleftrightarrow> map pick bs = key"
proof -
  have "map (\<lambda>i. pick (bs ! i)) [0..<n] = map pick bs"
    using assms by (simp add: list_eq_iff_nth_eq)
  then show ?thesis by (auto simp: RandomKey_def)
qed

text \<open>Every key over the alphabet is equally likely, and nothing else is ever returned.\<close>

lemma random_key_uniform:
  "card {bs. length bs = n \<and> exec (RandomKey n) [EvReadRand n (Inr (\<lambda>i. bs ! i))] (Value (Inr key))} =
     (if length key = n \<and> set key \<subseteq> set randomKeyAlphabet then 4 ^ n else 0)"
proof -
  have "{bs. length bs = n \<and> exec (RandomKey n) [EvReadRand n (Inr (\<lambda>i. bs ! i))] (Value (Inr key))} =
      (if length key = n then {bs. map pick bs = key} else {})"
    using RandomKey_exec by (auto dest: map_eq_imp_length_eq)
  then show ?thesis by (simp add: card_picks)
qed

text \<open>
  C39: Random keys are sound. The alphabet has 64 different characters and each is picked by
  exactly four of the 256 values of a random byte. Whatever the random source answers,
  \<open>RandomKey\<close> reads it once, for as many bytes as characters, never panics, and returns either
  the source's error, wrapped, or the key whose i-th character is picked by the i-th byte that
  was read. So \<open>RandomKey\<close> itself is unbiased: of the byte strings the source can answer, exactly
  \<open>4 ^ n\<close> make it return a given key of \<open>n\<close> alphabet characters, the same number for each such
  key, and none makes it return anything else.
\<close>

theorem random_key_sound:
  "distinct randomKeyAlphabet \<and> length randomKeyAlphabet = 64 \<and>
   list_all (\<lambda>c. card {b. pick b = c} = 4) randomKeyAlphabet \<and>
   wp (RandomKey n) (\<lambda>es x. case x of
     Panic m \<Rightarrow> False
   | Value (Inl e) \<Rightarrow>
       (\<exists>e'. es = [EvReadRand n (Inl e')] \<and> e = ErrorWrap ''generating random key'' e')
   | Value (Inr key) \<Rightarrow>
       (\<exists>raw. es = [EvReadRand n (Inr raw)] \<and> key = map (\<lambda>i. pick (raw i)) [0..<n]) \<and>
       length key = n \<and> list_all (\<lambda>c. c \<in> set randomKeyAlphabet) key) \<and>
   card {bs. length bs = n \<and> exec (RandomKey n) [EvReadRand n (Inr (\<lambda>i. bs ! i))] (Value (Inr k))} =
     (if length k = n \<and> set k \<subseteq> set randomKeyAlphabet then 4 ^ n else 0)"
proof -
  have "wp (RandomKey n) (\<lambda>es x. case x of
     Panic m \<Rightarrow> False
   | Value (Inl e) \<Rightarrow>
       (\<exists>e'. es = [EvReadRand n (Inl e')] \<and> e = ErrorWrap ''generating random key'' e')
   | Value (Inr key) \<Rightarrow>
       (\<exists>raw. es = [EvReadRand n (Inr raw)] \<and> key = map (\<lambda>i. pick (raw i)) [0..<n]) \<and>
       length key = n \<and> list_all (\<lambda>c. c \<in> set randomKeyAlphabet) key)"
    by (simp add: wp_simps)
  with random_key_unbiased random_key_uniform show ?thesis by blast
qed

text \<open>
  \<open>SecretKey\<close> draws nothing and returns nil when the user names a secret of their own, and
  draws nothing and fails when the derived name is not a valid object name. Otherwise, if
  the draw succeeds, the secret has the derived name, the instance's namespace, no owner,
  and exactly one entry: a key of 50 alphabet characters.
\<close>

lemma secret_key_behaviour:
  "wp (SecretKey L inst) (\<lambda>es x.
     if spSecretKeySecretRef (piSpec inst) \<noteq> None then es = [] \<and> x = Value (Inr None)
     else if libIsDNS1123Subdomain L (SecretKeyName inst) \<noteq> []
       then es = [] \<and> (\<exists>e. x = Value (Inl (ErrorMsg e)))
     else (\<exists>e. es = [EvReadRand 50 (Inl e)] \<and> (\<exists>e'. x = Value (Inl e'))) \<or>
       (\<exists>raw s key. es = [EvReadRand 50 (Inr raw)] \<and> x = Value (Inr (Some s)) \<and>
          omName (secMeta s) = SecretKeyName inst \<and>
          built_for inst ''secret-key'' (secMeta s) \<and> secData s = Map.empty \<and>
          secStringData s = [''PAPERLESS_SECRET_KEY'' \<mapsto> key] \<and> length key = 50 \<and>
          list_all (\<lambda>c. c \<in> set randomKeyAlphabet) key))"
  by (auto simp: SecretKey_def validateName_def Let_def wp_bind wp_simps secretKeyLength_def
      split: option.split)

text \<open>
  \<open>AdminSecret\<close> draws nothing and returns nil when the admin account is disabled or the user
  supplies the password, and draws nothing and fails on an invalid derived name. Otherwise,
  if the draw succeeds, the secret holds the configured username and a password of 32
  alphabet characters, under the derived name and without an owner.
\<close>

lemma admin_secret_behaviour:
  "wp (AdminSecret L inst) (\<lambda>es x.
     if admin_supplied inst
       then es = [] \<and> x = Value (Inr None)
     else if libIsDNS1123Subdomain L (AdminSecretName inst) \<noteq> []
       then es = [] \<and> (\<exists>e. x = Value (Inl (ErrorMsg e)))
     else (\<exists>e. es = [EvReadRand 32 (Inl e)] \<and> (\<exists>e'. x = Value (Inl e'))) \<or>
       (\<exists>raw s password. es = [EvReadRand 32 (Inr raw)] \<and> x = Value (Inr (Some s)) \<and>
          omName (secMeta s) = AdminSecretName inst \<and>
          built_for inst ''admin'' (secMeta s) \<and> secData s = Map.empty \<and>
          secStringData s = [''username'' \<mapsto> adUsername (spAdmin (piSpec inst)),
                             ''password'' \<mapsto> password] \<and>
          length password = 32 \<and> list_all (\<lambda>c. c \<in> set randomKeyAlphabet) password))"
  by (auto simp: AdminSecret_def admin_supplied_def validateName_def Let_def wp_bind wp_simps
      adminPasswordLength_def split: option.split)

text \<open>
  C40: What the two secret builders do on every path. They draw nothing and return nil when the
  user supplies the secret (or disables the admin account), and draw nothing and fail when the
  derived name is not a valid object name. Otherwise they read the random source once; if that
  succeeds the secret has the derived name, the instance's namespace, no owner, and exactly the
  entries Paperless reads: a 50 character secret key, or the username and a 32 character
  password, over the key alphabet.
\<close>

theorem generated_secrets_behaviour:
  "wp (SecretKey L inst) (\<lambda>es x.
     if spSecretKeySecretRef (piSpec inst) \<noteq> None then es = [] \<and> x = Value (Inr None)
     else if libIsDNS1123Subdomain L (SecretKeyName inst) \<noteq> []
       then es = [] \<and> (\<exists>e. x = Value (Inl (ErrorMsg e)))
     else (\<exists>e. es = [EvReadRand 50 (Inl e)] \<and> (\<exists>e'. x = Value (Inl e'))) \<or>
       (\<exists>raw s key. es = [EvReadRand 50 (Inr raw)] \<and> x = Value (Inr (Some s)) \<and>
          omName (secMeta s) = SecretKeyName inst \<and>
          built_for inst ''secret-key'' (secMeta s) \<and> secData s = Map.empty \<and>
          secStringData s = [''PAPERLESS_SECRET_KEY'' \<mapsto> key] \<and> length key = 50 \<and>
          list_all (\<lambda>c. c \<in> set randomKeyAlphabet) key)) \<and>
   wp (AdminSecret L inst) (\<lambda>es x.
     if admin_supplied inst
       then es = [] \<and> x = Value (Inr None)
     else if libIsDNS1123Subdomain L (AdminSecretName inst) \<noteq> []
       then es = [] \<and> (\<exists>e. x = Value (Inl (ErrorMsg e)))
     else (\<exists>e. es = [EvReadRand 32 (Inl e)] \<and> (\<exists>e'. x = Value (Inl e'))) \<or>
       (\<exists>raw s password. es = [EvReadRand 32 (Inr raw)] \<and> x = Value (Inr (Some s)) \<and>
          omName (secMeta s) = AdminSecretName inst \<and>
          built_for inst ''admin'' (secMeta s) \<and> secData s = Map.empty \<and>
          secStringData s = [''username'' \<mapsto> adUsername (spAdmin (piSpec inst)),
                             ''password'' \<mapsto> password] \<and>
          length password = 32 \<and> list_all (\<lambda>c. c \<in> set randomKeyAlphabet) password))"
  by (intro conjI secret_key_behaviour admin_secret_behaviour)

end
