(* ===== verification/Deletion_Policy.thy ===== *)
theory Deletion_Policy
  imports Conditions Secrets
begin

text \<open>
  \<open>internal/controller/deletion_policy.go\<close>, and the apply path of
  \<open>internal/controller/paperlessinstance_controller.go\<close> (\<open>apply\<close>, \<open>applyOwned\<close>) that it
  shares with the reconciler: who owns an object, and how the ownership is put into the
  body that is sent to the API server.
\<close>

section \<open>Owner references in a body\<close>

definition fieldOwner :: string where
  "fieldOwner = ''paperless-ngx-operator''"

text \<open>A \<open>map[string]interface{}\<close> as a JSON value: the nil map encodes as \<open>null\<close>.\<close>

fun map_value :: "json_map option \<Rightarrow> json" where
  "map_value None = JNull"
| "map_value (Some m) = JObj m"

fun ownerReferencesJSON :: "Lib \<Rightarrow> OwnerReference list \<Rightarrow> gerror + json list" where
  "ownerReferencesJSON L [] = Inr []"
| "ownerReferencesJSON L (ref # refs) =
     (case libMarshalOwnerReference L ref of
        Inl e \<Rightarrow> Inl (ErrorWrap ''encoding owner reference'' e)
      | Inr data \<Rightarrow> (case libUnmarshalMap L data of
          Inl e \<Rightarrow> Inl (ErrorWrap ''decoding owner reference'' e)
        | Inr m \<Rightarrow> (case ownerReferencesJSON L refs of
            Inl e \<Rightarrow> Inl e
          | Inr list \<Rightarrow> Inr (map_value m # list))))"

text \<open>
  \<open>metadata\<close> is the nil map when the field is missing or not an object. It is then created
  and stored in the decoded map, which panics when that map is nil itself; otherwise it is
  the map the field refers to, so writing to it writes to the decoded object.
\<close>

definition setExplicitOwnerReferences ::
    "Lib \<Rightarrow> document \<Rightarrow> OwnerReference list \<Rightarrow> (gerror + document) go" where
  "setExplicitOwnerReferences L data refs =
     (case libUnmarshalMap L data of
        Inl e \<Rightarrow> Value (Inl (ErrorWrap ''decoding object'' e))
      | Inr None \<Rightarrow> Panic ''assignment to entry in nil map''
      | Inr (Some obj) \<Rightarrow>
          let metadata = (case obj ''metadata'' of Some (JObj md) \<Rightarrow> md | _ \<Rightarrow> Map.empty) in
          (case ownerReferencesJSON L refs of
             Inl e \<Rightarrow> Value (Inl e)
           | Inr list \<Rightarrow> Value (libMarshalJSON L
               (JObj (obj(''metadata'' \<mapsto> JObj (metadata(''ownerReferences'' \<mapsto> JArr list))))))))"

section \<open>Applying an object\<close>

definition Apply :: "Lib \<Rightarrow> kobject \<Rightarrow> (gerror + kobject) prog" where
  "Apply L obj =
     (case libGVKForObject L obj of
        Inl e \<Rightarrow> Done (Inl (ErrorWrap ''resolving GroupVersionKind'' e))
      | Inr gvk \<Rightarrow> (case libMarshalObject L gvk obj of
          Inl e \<Rightarrow> Done (Inl (ErrorWrap (''encoding '' @ gvkKind gvk @ '' '' @ obj_name obj) e))
        | Inr data \<Rightarrow>
            bind (lift_go (setExplicitOwnerReferences L data (obj_owners obj))) (\<lambda>r. case r of
              Inl e \<Rightarrow> Done (Inl (ErrorWrap
                (''normalizing owner references for '' @ gvkKind gvk @ '' '' @ obj_name obj) e))
            | Inr data \<Rightarrow> PatchApply obj data fieldOwner True (\<lambda>r. case r of
                Inl e \<Rightarrow> Done (Inl (ErrorWrap (''applying '' @ gvkKind gvk @ '' '' @ obj_name obj) e))
              | Inr obj' \<Rightarrow> Done (Inr obj')))))"

definition applyOwned :: "Lib \<Rightarrow> PaperlessInstance \<Rightarrow> kobject \<Rightarrow> (gerror + kobject) prog" where
  "applyOwned L inst obj =
     (case libSetControllerReference L inst (obj_meta obj) of
        Inl e \<Rightarrow> Done (Inl (ErrorWrap ''setting owner reference'' e))
      | Inr m \<Rightarrow> Apply L (set_meta m obj))"

definition applyStateful :: "Lib \<Rightarrow> PaperlessInstance \<Rightarrow> kobject \<Rightarrow> (gerror + kobject) prog" where
  "applyStateful L inst obj =
     (if DeletionPolicyOrDefault (piSpec inst) = DeletionPolicyDelete
      then (case libSetControllerReference L inst (obj_meta obj) of
              Inl e \<Rightarrow> Done (Inl (ErrorWrap ''setting owner reference'' e))
            | Inr m \<Rightarrow> Apply L (set_meta m obj))
      else Apply L obj)"

section \<open>The ownership of a generated secret\<close>

definition isControlledBy :: "Lib \<Rightarrow> ObjectMeta \<Rightarrow> PaperlessInstance \<Rightarrow> bool" where
  "isControlledBy L obj inst \<longleftrightarrow>
     (case libGetControllerOf L (omOwnerReferences obj) of
        None \<Rightarrow> False | Some ref \<Rightarrow> orUID ref = inst_uid inst)"

definition reconcileSecretOwnership :: "Lib \<Rightarrow> PaperlessInstance \<Rightarrow> Secret \<Rightarrow> err prog" where
  "reconcileSecretOwnership L inst secret =
     (let wantOwned = (DeletionPolicyOrDefault (piSpec inst) = DeletionPolicyDelete);
          isOwned = isControlledBy L (secMeta secret) inst in
      if wantOwned = isOwned then Done None
      else
        (case (if wantOwned
               then (case libSetControllerReference L inst ((secMeta secret)\<lparr>omOwnerReferences := []\<rparr>) of
                       Inl e \<Rightarrow> Inl (ErrorWrap ''setting owner reference'' e)
                     | Inr m \<Rightarrow> Inr (omOwnerReferences m))
               else Inr []) of
           Inl e \<Rightarrow> Done (Some e)
         | Inr refs \<Rightarrow> (case ownerReferencesJSON L refs of
             Inl e \<Rightarrow> Done (Some e)
           | Inr list \<Rightarrow> (case libMarshalJSON L
                 (JObj [''metadata'' \<mapsto> JObj [''ownerReferences'' \<mapsto> JArr list]]) of
               Inl e \<Rightarrow> Done (Some (ErrorWrap ''encoding owner reference patch'' e))
             | Inr body \<Rightarrow> PatchMerge secret body fieldOwner (\<lambda>r. case r of
                 Some e \<Rightarrow> Done (Some (ErrorWrap
                   (''patching owner references on secret '' @ omName (secMeta secret)) e))
               | None \<Rightarrow> Done None)))))"

section \<open>What a body says\<close>

text \<open>The value at a path of an encoded object.\<close>

definition body_field :: "Lib \<Rightarrow> document \<Rightarrow> string list \<Rightarrow> json option" where
  "body_field L b ks =
     (case libUnmarshalMap L b of Inr (Some m) \<Rightarrow> json_path (JObj m) ks | _ \<Rightarrow> None)"

text \<open>The owner references as a JSON list.\<close>

definition owners_json :: "OwnerReference list \<Rightarrow> json" where
  "owners_json refs = JArr (map (\<lambda>r. JObj (owner_reference_map r)) refs)"

text \<open>The body of an apply states the owners, also when there are none.\<close>

definition states_owners :: "Lib \<Rightarrow> document \<Rightarrow> OwnerReference list \<Rightarrow> bool" where
  "states_owners L b refs \<longleftrightarrow>
     body_field L b [''metadata'', ''ownerReferences''] = Some (owners_json refs)"

lemma owners_json_inj [simp]: "owners_json [] = owners_json [r] \<longleftrightarrow> False"
  by (simp add: owners_json_def)

lemma ownerReferencesJSON_value:
  "json_laws L \<Longrightarrow> ownerReferencesJSON L refs = Inr (map (\<lambda>r. JObj (owner_reference_map r)) refs)"
proof (induction refs)
  case (Cons r refs)
  from Cons.prems obtain b where "libMarshalOwnerReference L r = Inr b"
    and "libUnmarshalMap L b = Inr (Some (owner_reference_map r))"
    unfolding json_laws_def by blast
  then show ?case using Cons by simp
qed simp

text \<open>Encoding a map gives a body that decodes to it.\<close>

lemma marshal_map:
  assumes "json_laws L"
  obtains b where "libMarshalJSON L (JObj m) = Inr b" and "libUnmarshalMap L b = Inr (Some m)"
  using assms unfolding json_laws_def by blast

definition metadata_of :: "json_map \<Rightarrow> json_map" where
  "metadata_of m = (case m ''metadata'' of Some (JObj md) \<Rightarrow> md | _ \<Rightarrow> Map.empty)"

definition with_owners :: "json_map \<Rightarrow> OwnerReference list \<Rightarrow> json_map" where
  "with_owners m refs =
     m(''metadata'' \<mapsto> JObj ((metadata_of m)(''ownerReferences'' \<mapsto> owners_json refs)))"

lemma setExplicit_value:
  assumes J: "json_laws L" and D: "libUnmarshalMap L d = Inr (Some m)"
  obtains b where "setExplicitOwnerReferences L d refs = Value (Inr b)"
    and "libUnmarshalMap L b = Inr (Some (with_owners m refs))"
proof -
  obtain b where "libMarshalJSON L (JObj (with_owners m refs)) = Inr b"
    and "libUnmarshalMap L b = Inr (Some (with_owners m refs))"
    using marshal_map [OF J] .
  then show thesis
    using that D ownerReferencesJSON_value [OF J, of refs]
    by (simp add: setExplicitOwnerReferences_def with_owners_def metadata_of_def owners_json_def)
qed

lemma with_owners_path [simp]:
  "json_path (JObj (with_owners m refs)) [''metadata'', ''ownerReferences''] = Some (owners_json refs)"
  by (simp add: with_owners_def)

section \<open>What is applied\<close>

text \<open>
  The one request of an apply: forced, under the operator's field owner, with a body that
  has the object's kind, name and namespace and states its owners.
\<close>

definition body_ok :: "Lib \<Rightarrow> kobject \<Rightarrow> document \<Rightarrow> bool" where
  "body_ok L obj b \<longleftrightarrow>
     (\<exists>gvk. libGVKForObject L obj = Inr gvk \<and> body_field L b [''kind''] = Some (JStr (gvkKind gvk))) \<and>
     states_owners L b (obj_owners obj) \<and>
     (obj_name obj = [] \<or> body_field L b [''metadata'', ''name''] = Some (JStr (obj_name obj))) \<and>
     (omNamespace (obj_meta obj) = [] \<or>
        body_field L b [''metadata'', ''namespace''] = Some (JStr (omNamespace (obj_meta obj))))"

lemma Apply_value:
  assumes O: "object_laws L" and J: "json_laws L" and T: "typed_object obj"
  obtains b p where "body_ok L obj b"
    and "Apply L obj = PatchApply obj b fieldOwner True
          (\<lambda>r. Done (case r of Inl e \<Rightarrow> Inl (ErrorWrap p e) | Inr obj' \<Rightarrow> Inr obj'))"
proof -
  from O T obtain gvk d m md where g: "libGVKForObject L obj = Inr gvk"
    and d: "libMarshalObject L gvk obj = Inr d" "libUnmarshalMap L d = Inr (Some m)"
    and m: "m ''kind'' = Some (JStr (gvkKind gvk))" "m ''metadata'' = Some (JObj md)"
      "obj_name obj \<noteq> [] \<longrightarrow> md ''name'' = Some (JStr (obj_name obj))"
      "omNamespace (obj_meta obj) \<noteq> [] \<longrightarrow>
         md ''namespace'' = Some (JStr (omNamespace (obj_meta obj)))"
    unfolding object_laws_def by blast
  obtain b where b: "setExplicitOwnerReferences L d (obj_owners obj) = Value (Inr b)"
    and u: "libUnmarshalMap L b = Inr (Some (with_owners m (obj_owners obj)))"
    using setExplicit_value [OF J d(2)] .
  have "body_ok L obj b"
    using g m by (auto simp: body_ok_def states_owners_def body_field_def u)
      (auto simp: with_owners_def metadata_of_def)
  moreover have "Apply L obj = PatchApply obj b fieldOwner True
      (\<lambda>r. Done (case r of
         Inl e \<Rightarrow> Inl (ErrorWrap (''applying '' @ gvkKind gvk @ '' '' @ obj_name obj) e)
       | Inr obj' \<Rightarrow> Inr obj'))"
    by (auto simp: Apply_def g d(1) b fun_eq_iff split: sum.split)
  ultimately show thesis by (rule that)
qed

text \<open>Without any law: an apply issues at most that request, for the object it is given.\<close>

lemma Apply_emits [emits_intros]:
  "(\<And>b r. P (EvPatchApply obj b fieldOwner True r)) \<Longrightarrow> emits P (Apply L obj)"
  unfolding Apply_def
  by (auto split: sum.split intro!: emits_bind)

text \<open>The owners an object of each class gets.\<close>

definition with_refs :: "OwnerReference list \<Rightarrow> kobject \<Rightarrow> kobject" where
  "with_refs refs obj = set_meta ((obj_meta obj)\<lparr>omOwnerReferences := refs\<rparr>) obj"

definition stateful_owners :: "PaperlessInstance \<Rightarrow> OwnerReference list" where
  "stateful_owners inst =
     (if DeletionPolicyOrDefault (piSpec inst) = DeletionPolicyDelete then [controller_ref inst] else [])"

lemma with_refs_sel [simp]:
  "obj_owners (with_refs refs obj) = refs"
  "obj_name (with_refs refs obj) = obj_name obj"
  "omNamespace (obj_meta (with_refs refs obj)) = omNamespace (obj_meta obj)"
  "omLabels (obj_meta (with_refs refs obj)) = omLabels (obj_meta obj)"
  "kind_of (with_refs refs obj) = kind_of obj"
  "typed_object (with_refs refs obj) = typed_object obj"
  by (simp_all add: with_refs_def)

lemma with_refs_self: "obj_owners obj = refs \<Longrightarrow> with_refs refs obj = obj"
proof -
  assume "obj_owners obj = refs"
  then have "(obj_meta obj)\<lparr>omOwnerReferences := refs\<rparr> = obj_meta obj" by auto
  then show ?thesis by (simp add: with_refs_def)
qed

text \<open>An object as its builder leaves it: no owner yet, in the instance's namespace.\<close>

definition fresh_for :: "PaperlessInstance \<Rightarrow> kobject \<Rightarrow> bool" where
  "fresh_for inst obj \<longleftrightarrow> obj_owners obj = [] \<and> omNamespace (obj_meta obj) = inst_ns inst"

lemma set_owner_fresh:
  "owner_laws L \<Longrightarrow> fresh_for inst obj \<Longrightarrow>
   libSetControllerReference L inst (obj_meta obj) =
     Inr ((obj_meta obj)\<lparr>omOwnerReferences := [controller_ref inst]\<rparr>)"
  by (simp add: owner_laws_def fresh_for_def)

lemma applyOwned_fresh:
  "owner_laws L \<Longrightarrow> fresh_for inst obj \<Longrightarrow>
   applyOwned L inst obj = Apply L (with_refs [controller_ref inst] obj)"
  by (simp add: applyOwned_def set_owner_fresh with_refs_def)

lemma applyStateful_fresh:
  "owner_laws L \<Longrightarrow> fresh_for inst obj \<Longrightarrow>
   applyStateful L inst obj = Apply L (with_refs (stateful_owners inst) obj)"
  using with_refs_self [of obj "[]"]
  by (simp add: applyStateful_def stateful_owners_def set_owner_fresh)
     (simp add: with_refs_def fresh_for_def)

text \<open>Without any law: an apply of either class patches an object of the same kind and name.\<close>

lemma applyOwned_emits [emits_intros]:
  "(\<And>m b r. P (EvPatchApply (set_meta m obj) b fieldOwner True r)) \<Longrightarrow> emits P (applyOwned L inst obj)"
  unfolding applyOwned_def by (auto split: sum.split intro!: Apply_emits)

lemma applyStateful_emits [emits_intros]:
  assumes "\<And>m b r. P (EvPatchApply (set_meta m obj) b fieldOwner True r)"
  shows "emits P (applyStateful L inst obj)"
  using assms [of "obj_meta obj"] assms unfolding applyStateful_def
  by (auto split: sum.split intro!: Apply_emits)

section \<open>What is patched on a secret\<close>

definition owns_matches :: "Lib \<Rightarrow> PaperlessInstance \<Rightarrow> Secret \<Rightarrow> bool" where
  "owns_matches L inst secret \<longleftrightarrow>
     ((DeletionPolicyOrDefault (piSpec inst) = DeletionPolicyDelete) =
        isControlledBy L (secMeta secret) inst)"

lemma ownership_matches_noop:
  "owns_matches L inst secret \<Longrightarrow> reconcileSecretOwnership L inst secret = Done None"
  by (simp add: reconcileSecretOwnership_def owns_matches_def)

lemma isControlledBy_owner:
  "owner_laws L \<Longrightarrow> isControlledBy L (m\<lparr>omOwnerReferences := [controller_ref inst]\<rparr>) inst"
  "owner_laws L \<Longrightarrow> \<not> isControlledBy L (m\<lparr>omOwnerReferences := []\<rparr>) inst"
  by (simp_all add: isControlledBy_def owner_laws_def controller_ref_def)

text \<open>The merge patch: one field, the owners the policy wants.\<close>

definition ownership_patch :: "OwnerReference list \<Rightarrow> json_map" where
  "ownership_patch refs = [''metadata'' \<mapsto> JObj [''ownerReferences'' \<mapsto> owners_json refs]]"

lemma reconcileSecretOwnership_patch:
  assumes J: "json_laws L" and O: "owner_laws L"
    and ns: "omNamespace (secMeta secret) = inst_ns inst" and diff: "\<not> owns_matches L inst secret"
  obtains b p where "libUnmarshalMap L b = Inr (Some (ownership_patch (stateful_owners inst)))"
    and "reconcileSecretOwnership L inst secret = PatchMerge secret b fieldOwner
          (\<lambda>r. Done (case r of Some e \<Rightarrow> Some (ErrorWrap p e) | None \<Rightarrow> None))"
proof -
  obtain b where b: "libMarshalJSON L (JObj (ownership_patch (stateful_owners inst))) = Inr b"
    and u: "libUnmarshalMap L b = Inr (Some (ownership_patch (stateful_owners inst)))"
    using marshal_map [OF J] .
  have own: "libSetControllerReference L inst ((secMeta secret)\<lparr>omOwnerReferences := []\<rparr>) =
      Inr ((secMeta secret)\<lparr>omOwnerReferences := [controller_ref inst]\<rparr>)"
    using O ns by (simp add: owner_laws_def)
  have "reconcileSecretOwnership L inst secret = PatchMerge secret b fieldOwner
      (\<lambda>r. Done (case r of Some e \<Rightarrow> Some (ErrorWrap
         (''patching owner references on secret '' @ omName (secMeta secret)) e) | None \<Rightarrow> None))"
    using b diff own
    by (auto simp: reconcileSecretOwnership_def Let_def owns_matches_def ownerReferencesJSON_value [OF J]
        ownership_patch_def owners_json_def stateful_owners_def fun_eq_iff
        simp del: ownerReferencesJSON.simps split: option.split)
  with u show thesis by (rule that)
qed

lemma reconcileSecretOwnership_emits [emits_intros]:
  "(\<And>b r. P (EvPatchMerge secret b fieldOwner r)) \<Longrightarrow> emits P (reconcileSecretOwnership L inst secret)"
  unfolding reconcileSecretOwnership_def Let_def
  by (auto split: sum.split option.split)

section \<open>Properties\<close>

text \<open>
  C19: \<open>setExplicitOwnerReferences\<close> states the owners of an encoded object, also when there are
  none: the body it returns decodes to the same object, with exactly the given references
  under \<open>metadata.ownerReferences\<close> and every other field, of the object and of a \<open>metadata\<close>
  that is an object, as before.
\<close>

theorem explicit_owner_references:
  assumes "json_laws L" and "libUnmarshalMap L d = Inr (Some m)"
  shows "\<exists>b m' md'. setExplicitOwnerReferences L d refs = Value (Inr b) \<and>
    libUnmarshalMap L b = Inr (Some m') \<and> m' ''metadata'' = Some (JObj md') \<and>
    md' ''ownerReferences'' = Some (JArr (map (\<lambda>r. JObj (owner_reference_map r)) refs)) \<and>
    (\<forall>k. k = ''metadata'' \<or> m' k = m k) \<and>
    (\<forall>k. k = ''ownerReferences'' \<or> md' k = metadata_of m k)"
proof -
  obtain b where "setExplicitOwnerReferences L d refs = Value (Inr b)"
    and "libUnmarshalMap L b = Inr (Some (with_owners m refs))"
    using setExplicit_value [OF assms] .
  then show ?thesis by (auto simp: with_owners_def owners_json_def)
qed

theorem explicit_owner_references_witness:
  "\<exists>b md'. setExplicitOwnerReferences ref_lib (JObj [''kind'' \<mapsto> JStr ''Service'']) [] = Value (Inr b) \<and>
     libUnmarshalMap ref_lib b = Inr (Some [''kind'' \<mapsto> JStr ''Service'', ''metadata'' \<mapsto> JObj md']) \<and>
     md' ''ownerReferences'' = Some (JArr [])"
proof -
  have "libUnmarshalMap ref_lib (JObj [''kind'' \<mapsto> JStr ''Service'']) =
      Inr (Some [''kind'' \<mapsto> JStr ''Service''])"
    by (simp add: ref_unmarshal_map_def)
  from explicit_owner_references [OF ref_json_laws this, of "[]"]
  obtain b m' md' where b: "setExplicitOwnerReferences ref_lib (JObj [''kind'' \<mapsto> JStr ''Service'']) [] = Value (Inr b)"
    "libUnmarshalMap ref_lib b = Inr (Some m')" "m' ''metadata'' = Some (JObj md')"
    "md' ''ownerReferences'' = Some (JArr [])"
    "\<forall>k. k = ''metadata'' \<or> m' k = [''kind'' \<mapsto> JStr ''Service''] k"
    by auto
  have "m' = [''kind'' \<mapsto> JStr ''Service'', ''metadata'' \<mapsto> JObj md']"
  proof
    fix k show "m' k = ([''kind'' \<mapsto> JStr ''Service'', ''metadata'' \<mapsto> JObj md']) k"
      using b(3) b(5) [rule_format, of k] by auto
  qed
  with b show ?thesis by blast
qed

text \<open>
  The deletion policy decides the ownership of a stateful object. On an object as its
  builder leaves it, \<open>applyStateful\<close> never panics and makes exactly one request: a forced
  apply, under the operator's field owner, of that object with the instance as its only,
  controlling owner under \<open>Delete\<close> and with no owner under any other policy, stated in the
  body as an explicit list in both cases. The request's error is returned wrapped.
\<close>

lemma stateful_ownership_follows_policy:
  assumes "object_laws L" and "json_laws L" and "owner_laws L"
    and "typed_object obj" and "obj_owners obj = []" and "omNamespace (obj_meta obj) = inst_ns inst"
  shows "wp (applyStateful L inst obj) (\<lambda>es x. \<exists>obj' b r.
    es = [EvPatchApply obj' b fieldOwner True r] \<and>
    obj' = with_refs (if spDeletionPolicy (piSpec inst) = ''Delete'' then [controller_ref inst] else []) obj \<and>
    body_field L b [''metadata'', ''ownerReferences''] =
      Some (JArr (if spDeletionPolicy (piSpec inst) = ''Delete''
                  then [JObj (owner_reference_map (controller_ref inst))] else [])) \<and>
    (case r of Inl e \<Rightarrow> \<exists>p. x = Value (Inl (ErrorWrap p e)) | Inr a \<Rightarrow> x = Value (Inr a)))"
proof -
  have so: "stateful_owners inst =
      (if spDeletionPolicy (piSpec inst) = ''Delete'' then [controller_ref inst] else [])"
    by (simp add: stateful_owners_def DeletionPolicyOrDefault_def DeletionPolicyDelete_def
        DeletionPolicyRetain_def)
  from assms obtain b p where "body_ok L (with_refs (stateful_owners inst) obj) b"
    and "applyStateful L inst obj = PatchApply (with_refs (stateful_owners inst) obj) b fieldOwner True
          (\<lambda>r. Done (case r of Inl e \<Rightarrow> Inl (ErrorWrap p e) | Inr a \<Rightarrow> Inr a))"
    by (metis Apply_value applyStateful_fresh fresh_for_def with_refs_sel(6))
  then show ?thesis
    by (auto simp: body_ok_def states_owners_def owners_json_def so split: sum.split)
qed

text \<open>A claim of an instance that keeps its data, and the same instance under \<open>Delete\<close>.\<close>

definition deleting :: "PaperlessInstance \<Rightarrow> PaperlessInstance" where
  "deleting inst = inst\<lparr>piSpec := (piSpec inst)\<lparr>spDeletionPolicy := DeletionPolicyDelete\<rparr>\<rparr>"

definition sample_object :: kobject where
  "sample_object = OService \<lparr>svcMeta = new_meta ''docs'' ''ns'' Map.empty,
     svcSelector = Map.empty, svcPorts = []\<rparr>"

lemma stateful_ownership_follows_policy_witness:
  "wp (applyStateful ref_lib (deleting (bare_instance ''docs'' ''ns'' ''u'')) sample_object)
     (\<lambda>es x. \<exists>b r. es = [EvPatchApply
         (with_refs [controller_ref (deleting (bare_instance ''docs'' ''ns'' ''u''))] sample_object)
         b fieldOwner True r])"
  by (rule wp_mono [OF stateful_ownership_follows_policy
        [OF ref_object_laws ref_json_laws ref_owner_laws]])
     (auto simp: sample_object_def deleting_def bare_instance_def DeletionPolicyDelete_def)

text \<open>
  C18: An existing generated secret is only ever touched on its owner references, and only once.
  When its ownership already matches the deletion policy, nothing is requested. Otherwise
  there is exactly one merge patch, whose body has the single field
  \<open>metadata.ownerReferences\<close> (so neither data nor labels), and once the API server has put
  it into effect, a second reconciliation of the same secret requests nothing: the ownership
  converges in one step, in both directions of a change of policy.
\<close>

theorem secret_ownership_converges:
  assumes "json_laws L" and "owner_laws L" and "omNamespace (secMeta secret) = inst_ns inst"
  shows "wp (reconcileSecretOwnership L inst secret) (\<lambda>es x.
    if (spDeletionPolicy (piSpec inst) = ''Delete'') = isControlledBy L (secMeta secret) inst
    then es = [] \<and> x = Value None
    else \<exists>b r refs. es = [EvPatchMerge secret b fieldOwner r] \<and>
      libUnmarshalMap L b = Inr (Some [''metadata'' \<mapsto> JObj [''ownerReferences'' \<mapsto>
        JArr (map (\<lambda>o'. JObj (owner_reference_map o')) refs)]]) \<and>
      (x = Value None) = (r = None) \<and> is_value x \<and>
      reconcileSecretOwnership L inst
        (secret\<lparr>secMeta := (secMeta secret)\<lparr>omOwnerReferences := refs\<rparr>\<rparr>) = Done None)"
proof -
  have dp: "DeletionPolicyOrDefault (piSpec inst) = DeletionPolicyDelete \<longleftrightarrow>
      spDeletionPolicy (piSpec inst) = ''Delete''"
    by (simp add: DeletionPolicyOrDefault_def DeletionPolicyDelete_def DeletionPolicyRetain_def)
  show ?thesis
  proof (cases "owns_matches L inst secret")
    case True
    then show ?thesis by (simp add: ownership_matches_noop) (simp add: owns_matches_def dp)
  next
    case False
    obtain b p where b: "libUnmarshalMap L b = Inr (Some (ownership_patch (stateful_owners inst)))"
      and eq: "reconcileSecretOwnership L inst secret = PatchMerge secret b fieldOwner
          (\<lambda>r. Done (case r of Some e \<Rightarrow> Some (ErrorWrap p e) | None \<Rightarrow> None))"
      using reconcileSecretOwnership_patch [OF assms False] .
    have "owns_matches L inst (secret\<lparr>secMeta := (secMeta secret)
        \<lparr>omOwnerReferences := stateful_owners inst\<rparr>\<rparr>)"
      using isControlledBy_owner [OF assms(2)] by (simp add: owns_matches_def stateful_owners_def)
    from ownership_matches_noop [OF this] show ?thesis
      using False b
      by (auto simp: eq owns_matches_def dp ownership_patch_def owners_json_def split: option.split)
  qed
qed

definition admin_secret_of_docs :: Secret where
  "admin_secret_of_docs = \<lparr>secMeta = new_meta ''docs-admin'' ''ns'' Map.empty,
     secData = Map.empty, secStringData = Map.empty\<rparr>"

theorem secret_ownership_converges_witness:
  "wp (reconcileSecretOwnership ref_lib (deleting (bare_instance ''docs'' ''ns'' ''u'')) admin_secret_of_docs)
     (\<lambda>es x. length es = 1) \<and>
   wp (reconcileSecretOwnership ref_lib (bare_instance ''docs'' ''ns'' ''u'') admin_secret_of_docs)
     (\<lambda>es x. es = [] \<and> x = Value None)"
  by (intro conjI; rule wp_mono [OF secret_ownership_converges [OF ref_json_laws ref_owner_laws]])
     (auto simp: admin_secret_of_docs_def deleting_def bare_instance_def DeletionPolicyDelete_def
        isControlledBy_def ref_controller_of_def zero_spec_def split: if_splits)

end
