(* ===== verification/Storage.thy ===== *)
theory Storage
  imports Secrets Ref_Lib
begin

text \<open>
  \<open>internal/resources/storage.go\<close>: the persistent volume claims. A builder reads a size
  through \<open>SizeOrDefault\<close>, which parses a literal and so may panic; the result is a \<open>go\<close>.
\<close>

section \<open>The builders\<close>

definition defaultAccessModes :: "string list" where
  "defaultAccessModes = [ReadWriteOnce]"

definition buildPVC ::
    "PaperlessInstance \<Rightarrow> string \<Rightarrow> string \<Rightarrow> quantity \<Rightarrow> string list \<Rightarrow> string option \<Rightarrow>
     PersistentVolumeClaim" where
  "buildPVC inst name component sz accessModes storageClassName =
     (let accessModes = (if length accessModes = 0 then defaultAccessModes else accessModes) in
      \<lparr>pvcMeta = new_meta name (inst_ns inst) (commonLabels inst component),
       pvcAccessModes = accessModes,
       pvcStorageClassName = storageClassName,
       pvcRequests = [ResourceStorage \<mapsto> sz]\<rparr>)"

definition volumePVC ::
    "Lib \<Rightarrow> PaperlessInstance \<Rightarrow> string \<Rightarrow> string \<Rightarrow> VolumeSpec \<Rightarrow> string \<Rightarrow>
     PersistentVolumeClaim go" where
  "volumePVC L inst name component vol defaultSize =
     go_bind (SizeOrDefault (libIsZero L) (libParseQuantity L) vol defaultSize) (\<lambda>size.
       Value (buildPVC inst name component size (vsAccessModes vol) (vsStorageClassName vol)))"

definition PVCs :: "Lib \<Rightarrow> PaperlessInstance \<Rightarrow> PersistentVolumeClaim list go" where
  "PVCs L inst =
     (let storage = spStorage (piSpec inst) in
      go_bind (volumePVC L inst (DataPVCName inst) ''data'' (stData storage) DefaultDataSize) (\<lambda>a.
      go_bind (volumePVC L inst (MediaPVCName inst) ''media'' (stMedia storage) DefaultMediaSize) (\<lambda>b.
      go_bind (volumePVC L inst (ConsumePVCName inst) ''consume'' (stConsume storage) DefaultConsumeSize) (\<lambda>c.
      go_bind (volumePVC L inst (ExportPVCName inst) ''export'' (stExport storage) DefaultExportSize) (\<lambda>d.
      Value [a, b, c, d])))))"

section \<open>Lemmas\<close>

lemma buildPVC_sel [builder_simps]:
  "pvcMeta (buildPVC inst n c sz am sc) = new_meta n (inst_ns inst) (commonLabels inst c)"
  "pvcAccessModes (buildPVC inst n c sz am sc) = (if am = [] then defaultAccessModes else am)"
  "pvcStorageClassName (buildPVC inst n c sz am sc) = sc"
  "pvcRequests (buildPVC inst n c sz am sc) = [ResourceStorage \<mapsto> sz]"
  by (simp_all add: buildPVC_def Let_def)

text \<open>The size a claim asks for, when the library keeps its documented behaviour.\<close>

definition wanted_size :: "Lib \<Rightarrow> VolumeSpec \<Rightarrow> string \<Rightarrow> quantity" where
  "wanted_size L v d = (if libIsZero L (vsSize v) then d else vsSize v)"

lemma size_literal:
  "quantity_laws L \<Longrightarrow> s \<in> set size_literals \<Longrightarrow>
   libParseQuantity L s = Inr s \<and> \<not> libIsZero L s \<and> libQuantityString L s = s"
  by (auto simp: quantity_laws_def list_all_iff)

lemma default_sizes_literal [simp]:
  "DefaultDataSize \<in> set size_literals" "DefaultMediaSize \<in> set size_literals"
  "DefaultConsumeSize \<in> set size_literals" "DefaultExportSize \<in> set size_literals"
  "DefaultDatabaseSize \<in> set size_literals"
  by (simp_all add: size_literals_def DefaultDataSize_def DefaultMediaSize_def
      DefaultConsumeSize_def DefaultExportSize_def DefaultDatabaseSize_def)

lemma SizeOrDefault_value:
  "quantity_laws L \<Longrightarrow> d \<in> set size_literals \<Longrightarrow>
   SizeOrDefault (libIsZero L) (libParseQuantity L) v d = Value (wanted_size L v d)"
  by (simp add: SizeOrDefault_def MustParse_def wanted_size_def size_literal)

lemma wanted_size_nonzero:
  "quantity_laws L \<Longrightarrow> d \<in> set size_literals \<Longrightarrow> \<not> libIsZero L (wanted_size L v d)"
  by (simp add: wanted_size_def size_literal)

definition volume_claim ::
    "Lib \<Rightarrow> PaperlessInstance \<Rightarrow> string \<Rightarrow> string \<Rightarrow> VolumeSpec \<Rightarrow> string \<Rightarrow> PersistentVolumeClaim" where
  "volume_claim L inst n c v d =
     buildPVC inst n c (wanted_size L v d) (vsAccessModes v) (vsStorageClassName v)"

lemma volumePVC_value:
  "quantity_laws L \<Longrightarrow> d \<in> set size_literals \<Longrightarrow>
   volumePVC L inst n c v d = Value (volume_claim L inst n c v d)"
  by (simp add: volumePVC_def volume_claim_def SizeOrDefault_value)

lemma PVCs_value:
  "quantity_laws L \<Longrightarrow>
   PVCs L inst = Value
     [volume_claim L inst (DataPVCName inst) ''data'' (stData (spStorage (piSpec inst))) DefaultDataSize,
      volume_claim L inst (MediaPVCName inst) ''media'' (stMedia (spStorage (piSpec inst))) DefaultMediaSize,
      volume_claim L inst (ConsumePVCName inst) ''consume'' (stConsume (spStorage (piSpec inst))) DefaultConsumeSize,
      volume_claim L inst (ExportPVCName inst) ''export'' (stExport (spStorage (piSpec inst))) DefaultExportSize]"
  by (simp add: PVCs_def Let_def volumePVC_value)

lemma volumePVC_built:
  "volumePVC L inst n c v d = Value p \<Longrightarrow> \<exists>sz. p = buildPVC inst n c sz (vsAccessModes v) (vsStorageClassName v)"
  by (auto simp: volumePVC_def go_bind_Value_iff)

lemma PVCs_built:
  assumes "PVCs L inst = Value ps"
  shows "\<exists>s1 s2 s3 s4. let st = spStorage (piSpec inst) in ps =
    [buildPVC inst (DataPVCName inst) ''data'' s1 (vsAccessModes (stData st)) (vsStorageClassName (stData st)),
     buildPVC inst (MediaPVCName inst) ''media'' s2 (vsAccessModes (stMedia st)) (vsStorageClassName (stMedia st)),
     buildPVC inst (ConsumePVCName inst) ''consume'' s3 (vsAccessModes (stConsume st)) (vsStorageClassName (stConsume st)),
     buildPVC inst (ExportPVCName inst) ''export'' s4 (vsAccessModes (stExport st)) (vsStorageClassName (stExport st))]"
  using assms by (auto simp: PVCs_def Let_def go_bind_Value_iff dest!: volumePVC_built)

text \<open>The claims are built under the contract of a builder.\<close>

definition claim_objects :: "Lib \<Rightarrow> PaperlessInstance \<Rightarrow> kobject list" where
  "claim_objects L inst = (case PVCs L inst of Value ps \<Rightarrow> map OPVC ps | Panic m \<Rightarrow> [])"

definition claim_components :: "string list" where
  "claim_components = [''data'', ''media'', ''consume'', ''export'']"

interpretation claims: object_builder "claim_objects L" claim_components for L
proof unfold_locales
  fix x inst assume "x \<in> set (claim_objects L inst)"
  then show "\<exists>c \<in> set claim_components. built_for inst c (obj_meta x)"
    by (auto simp: claim_objects_def claim_components_def Let_def builder_simps
        split: go.splits dest!: PVCs_built [OF sym])
qed

section \<open>Properties of the claims\<close>

text \<open>
  With well-formed size literals, building the claims never panics and gives four claims
  under four different names, in the source's order. Each requests storage of a non-zero
  size, has at least one access mode, and passes the storage class through untouched: unset
  stays unset and the empty name stays empty.
\<close>

lemma claims_wellformed:
  assumes "quantity_laws L"
  shows "\<exists>ps. PVCs L inst = Value ps \<and>
    map (\<lambda>p. omName (pvcMeta p)) ps =
      [DataPVCName inst, MediaPVCName inst, ConsumePVCName inst, ExportPVCName inst] \<and>
    distinct (map (\<lambda>p. omName (pvcMeta p)) ps) \<and>
    list_all (\<lambda>p. pvcAccessModes p \<noteq> [] \<and>
      (\<exists>q. pvcRequests p = [ResourceStorage \<mapsto> q] \<and> \<not> libIsZero L q)) ps \<and>
    map pvcStorageClassName ps =
      map (\<lambda>f. vsStorageClassName (f (spStorage (piSpec inst)))) [stData, stMedia, stConsume, stExport]"
  using derived_names_distinct [of inst] wanted_size_nonzero [OF assms]
  by (simp add: PVCs_value [OF assms] volume_claim_def builder_simps defaultAccessModes_def
      derived_names_def)

end
