(* ===== verification/Env_Dedupe.thy ===== *)
theory Env_Dedupe
  imports Kube_Objects
begin

text \<open>
  \<open>dedupeEnv\<close> of \<open>internal/resources/workload.go\<close>: an override replaces the earlier entry of
  the same name, in its place. \<open>dedupe_loop\<close> is its loop, with the index map and the output
  slice as state; \<open>dedupe_spec\<close> says what it computes without them; the locale \<open>last_wins\<close>
  is what its caller relies on.
\<close>

section \<open>The loop\<close>

fun dedupe_loop :: "(string \<rightharpoonup> nat) \<Rightarrow> EnvVar list \<Rightarrow> EnvVar list \<Rightarrow> EnvVar list" where
  "dedupe_loop index out [] = out"
| "dedupe_loop index out (e # es) =
     (case index (evName e) of
        Some i \<Rightarrow> dedupe_loop index (out[i := e]) es
      | None \<Rightarrow> dedupe_loop (index(evName e \<mapsto> length out)) (out @ [e]) es)"

definition dedupeEnv :: "EnvVar list \<Rightarrow> EnvVar list" where
  "dedupeEnv env = dedupe_loop Map.empty [] env"

section \<open>What it computes\<close>

text \<open>
  The entry of a name in an environment (the first one), the last entry of a name, and the
  names in the order in which they first appear.
\<close>

definition env_lookup :: "EnvVar list \<Rightarrow> string \<Rightarrow> EnvVar option" where
  "env_lookup env n = find (\<lambda>e. evName e = n) env"

definition last_entry :: "EnvVar list \<Rightarrow> string \<Rightarrow> EnvVar option" where
  "last_entry env n = find (\<lambda>e. evName e = n) (rev env)"

fun first_names :: "string list \<Rightarrow> string list \<Rightarrow> string list" where
  "first_names seen [] = []"
| "first_names seen (n # ns) =
     (if n \<in> set seen then first_names seen ns else n # first_names (seen @ [n]) ns)"

definition dedupe_spec :: "EnvVar list \<Rightarrow> EnvVar list" where
  "dedupe_spec env = map (\<lambda>n. the (last_entry env n)) (first_names [] (map evName env))"

lemma find_append: "find P (xs @ ys) = (case find P xs of Some x \<Rightarrow> Some x | None \<Rightarrow> find P ys)"
  by (induction xs) auto

lemma env_lookup_Nil [simp]: "env_lookup [] n = None"
  by (simp add: env_lookup_def)

lemma env_lookup_append:
  "env_lookup (xs @ ys) n = (case env_lookup xs n of Some e \<Rightarrow> Some e | None \<Rightarrow> env_lookup ys n)"
  by (simp add: env_lookup_def find_append split: option.split)

lemma last_entry_Nil [simp]: "last_entry [] n = None"
  by (simp add: last_entry_def)

lemma last_entry_Cons:
  "last_entry (e # es) n =
     (case last_entry es n of Some e' \<Rightarrow> Some e' | None \<Rightarrow> if evName e = n then Some e else None)"
  by (simp add: last_entry_def find_append split: option.split)

lemma last_entry_append:
  "last_entry (xs @ ys) n = (case last_entry ys n of Some e \<Rightarrow> Some e | None \<Rightarrow> last_entry xs n)"
  by (simp add: last_entry_def find_append split: option.split)

lemma env_lookup_None: "env_lookup env n = None \<longleftrightarrow> n \<notin> set (map evName env)"
  by (auto simp: env_lookup_def find_None_iff)

lemma last_entry_None: "last_entry env n = None \<longleftrightarrow> n \<notin> set (map evName env)"
  by (auto simp: last_entry_def find_None_iff)

lemma env_lookup_name: "env_lookup env n = Some e \<Longrightarrow> evName e = n \<and> e \<in> set env"
  by (auto simp: env_lookup_def find_Some_iff)

lemma env_lookup_nth:
  "distinct (map evName env) \<Longrightarrow> i < length env \<Longrightarrow> env_lookup env (evName (env ! i)) = Some (env ! i)"
proof (induction env arbitrary: i)
  case (Cons e es)
  then show ?case by (cases i) (auto simp: env_lookup_def)
qed simp

lemma env_lookup_distinct:
  "distinct (map evName env) \<Longrightarrow> env = map (\<lambda>n. the (env_lookup env n)) (map evName env)"
  by (rule nth_equalityI) (simp_all add: env_lookup_nth)

lemma name_at: "i < length xs \<Longrightarrow> evName (xs ! i) = n \<Longrightarrow> n \<in> evName ` set xs"
  by auto

lemma env_lookup_update:
  assumes "distinct (map evName out)" "i < length out" "evName (out ! i) = evName e"
  shows "env_lookup (out[i := e]) n = (if n = evName e then Some e else env_lookup out n)"
  using assms
proof (induction out arbitrary: i)
  case (Cons o' os)
  then show ?case
    by (cases i) (auto simp: env_lookup_def dest: name_at)
qed simp

section \<open>The invariant of the loop\<close>

text \<open>
  The index maps exactly the names in the output slice to their position, and no name
  occurs twice in it.
\<close>

definition indexed :: "(string \<rightharpoonup> nat) \<Rightarrow> EnvVar list \<Rightarrow> bool" where
  "indexed index out \<longleftrightarrow> distinct (map evName out) \<and>
     (\<forall>n i. index n = Some i \<longleftrightarrow> i < length out \<and> evName (out ! i) = n)"

lemma indexed_empty [simp]: "indexed Map.empty []"
  by (simp add: indexed_def)

lemma indexed_None: "indexed index out \<Longrightarrow> index n = None \<longleftrightarrow> n \<notin> set (map evName out)"
  unfolding indexed_def in_set_conv_nth by (metis length_map nth_map not_None_eq)

lemma map_evName_update:
  "i < length out \<Longrightarrow> evName (out ! i) = evName e \<Longrightarrow> map evName (out[i := e]) = map evName out"
  by (metis list_update_id map_update)

lemma indexed_update:
  assumes "indexed index out" "index (evName e) = Some i"
  shows "indexed index (out[i := e])"
proof -
  have i: "i < length out" "evName (out ! i) = evName e" using assms by (auto simp: indexed_def)
  have "evName (out[i := e] ! j) = evName (out ! j)" if "j < length out" for j
    using i that by (metis nth_list_update)
  with assms(1) map_evName_update [OF i] show ?thesis by (auto simp: indexed_def)
qed

lemma indexed_append:
  assumes "indexed index out" "index (evName e) = None"
  shows "indexed (index(evName e \<mapsto> length out)) (out @ [e])"
  using assms indexed_None [OF assms(1), of "evName e"]
  unfolding indexed_def
  by (auto simp: nth_append less_Suc_eq dest: name_at)

lemma dedupe_loop_names:
  "indexed index out \<Longrightarrow>
   map evName (dedupe_loop index out es) = map evName out @ first_names (map evName out) (map evName es)"
proof (induction es arbitrary: index out)
  case Nil
  then show ?case by simp
next
  case (Cons e es)
  show ?case
  proof (cases "index (evName e)")
    case None
    with indexed_None [OF Cons.prems] have "evName e \<notin> set (map evName out)" by simp
    then show ?thesis
      using Cons.IH [OF indexed_append [OF Cons.prems None]] by (simp add: None del: fun_upd_apply)
  next
    case (Some i)
    then have i: "i < length out" "evName (out ! i) = evName e"
      using Cons.prems by (auto simp: indexed_def)
    moreover have "evName e \<in> set (map evName out)" using name_at [OF i] by simp
    ultimately show ?thesis
      using Cons.IH [OF indexed_update [OF Cons.prems Some]] Some map_evName_update by auto
  qed
qed

lemma distinct_first_names:
  "distinct (first_names seen ns) \<and> set (first_names seen ns) \<inter> set seen = {}"
proof (induction ns arbitrary: seen)
  case (Cons n ns)
  then show ?case by (cases "n \<in> set seen") (auto, fastforce+)
qed simp

lemma dedupe_loop_lookup:
  "indexed index out \<Longrightarrow>
   env_lookup (dedupe_loop index out es) n =
     (case last_entry es n of Some e \<Rightarrow> Some e | None \<Rightarrow> env_lookup out n)"
proof (induction es arbitrary: index out)
  case Nil
  then show ?case by simp
next
  case (Cons e es)
  show ?case
  proof (cases "index (evName e)")
    case None
    with indexed_None [OF Cons.prems] have "env_lookup out (evName e) = None"
      by (simp add: env_lookup_None)
    moreover have "env_lookup [e] n = (if evName e = n then Some e else None)"
      by (simp add: env_lookup_def)
    ultimately show ?thesis
      using Cons.IH [OF indexed_append [OF Cons.prems None]]
      by (auto simp: None last_entry_Cons env_lookup_append simp del: fun_upd_apply split: option.split)
  next
    case (Some i)
    then have "distinct (map evName out)" "i < length out" "evName (out ! i) = evName e"
      using Cons.prems by (auto simp: indexed_def)
    then show ?thesis
      using Cons.IH [OF indexed_update [OF Cons.prems Some]] Some
      by (auto simp: last_entry_Cons env_lookup_update split: option.splits)
  qed
qed

lemma dedupeEnv_distinct: "distinct (map evName (dedupeEnv env))"
  by (simp add: dedupeEnv_def dedupe_loop_names distinct_first_names)

lemma dedupeEnv_lookup: "env_lookup (dedupeEnv env) n = last_entry env n"
  by (simp add: dedupeEnv_def dedupe_loop_lookup split: option.split)

lemma dedupeEnv_names: "map evName (dedupeEnv env) = first_names [] (map evName env)"
  by (simp add: dedupeEnv_def dedupe_loop_names)

lemma first_names_distinct:
  "distinct ns \<Longrightarrow> set ns \<inter> set seen = {} \<Longrightarrow> first_names seen ns = ns"
  by (induction ns arbitrary: seen) auto

lemma last_entry_distinct: "distinct (map evName env) \<Longrightarrow> last_entry env n = env_lookup env n"
proof (induction env)
  case (Cons e es)
  then have "evName e \<notin> set (map evName es)" by simp
  then have "env_lookup es (evName e) = None" by (rule env_lookup_None [THEN iffD2])
  with Cons show ?case
    by (auto simp: last_entry_Cons env_lookup_def split: option.split)
qed simp

lemma dedupeEnv_id:
  assumes "distinct (map evName env)"
  shows "dedupeEnv env = env"
proof -
  have "map evName (dedupeEnv env) = map evName env"
    using assms by (simp add: dedupeEnv_names first_names_distinct)
  moreover have "env_lookup (dedupeEnv env) = env_lookup env"
    using assms by (simp add: fun_eq_iff dedupeEnv_lookup last_entry_distinct)
  ultimately show ?thesis
    using env_lookup_distinct [OF dedupeEnv_distinct, of env] env_lookup_distinct [OF assms] by simp
qed

section \<open>The contract with the caller\<close>

locale last_wins =
  fixes resolve :: "EnvVar list \<Rightarrow> EnvVar list"
  assumes distinct_names: "distinct (map evName (resolve env))"
    and lookup: "env_lookup (resolve env) n = last_entry env n"
begin

lemma override_wins:
  "n \<in> set (map evName user) \<Longrightarrow> env_lookup (resolve (base @ user)) n = last_entry user n"
  by (auto simp: lookup last_entry_append last_entry_None split: option.split)

lemma base_kept:
  "n \<notin> set (map evName user) \<Longrightarrow> env_lookup (resolve (base @ user)) n = last_entry base n"
  using last_entry_None [of user n] by (simp add: lookup last_entry_append)

lemma same_names: "set (map evName (resolve env)) = set (map evName env)"
  using env_lookup_None [of "resolve env"] last_entry_None [of env] lookup [of env] by fastforce

end

interpretation dedupe: last_wins dedupeEnv
  by unfold_locales (rule dedupeEnv_distinct, rule dedupeEnv_lookup)

section \<open>Properties\<close>

text \<open>
  The loop with its index map computes exactly the specification: one entry for each
  name, in the order of first appearance, and it is the last one the input has for the name.
\<close>

lemma dedupe_env_refines_spec: "dedupeEnv env = dedupe_spec env"
  using env_lookup_distinct [OF dedupeEnv_distinct, of env]
  by (simp only: dedupe_spec_def dedupeEnv_lookup dedupeEnv_names)

text \<open>
  No name occurs twice in the result, the same names occur as in the input, and
  running it again changes nothing.
\<close>

lemma dedupe_env_idempotent:
  "distinct (map evName (dedupeEnv env)) \<and>
   set (map evName (dedupeEnv env)) = set (map evName env) \<and>
   dedupeEnv (dedupeEnv env) = dedupeEnv env"
  using dedupe.distinct_names [of env] dedupe.same_names [of env] dedupeEnv_id by blast

text \<open>
  C38: The loop with its index map computes exactly the specification: one entry for each
  name, in the order of first appearance, and it is the last one the input has for the name.
  So no name occurs twice, the same names occur as in the input, and running it again changes
  nothing.
\<close>

theorem dedupe_env_correct:
  "dedupeEnv env = dedupe_spec env \<and> distinct (map evName (dedupeEnv env)) \<and>
   set (map evName (dedupeEnv env)) = set (map evName env) \<and>
   dedupeEnv (dedupeEnv env) = dedupeEnv env"
  using dedupe_env_refines_spec dedupe_env_idempotent by blast

end
