(* ===== verification/Database.thy ===== *)
theory Database
  imports Storage Env_Dedupe
begin

text \<open>
  \<open>internal/resources/database.go\<close>: the environment that points Paperless at its database,
  managed or external, and the CloudNativePG cluster of a managed one.
\<close>

section \<open>Constants and names\<close>

definition managedDatabaseName :: string where "managedDatabaseName = ''paperless''"
definition cnpgAPIVersion :: string where "cnpgAPIVersion = ''postgresql.cnpg.io/v1''"
definition cnpgKind :: string where "cnpgKind = ''Cluster''"

definition cnpgAppSecretName :: "PaperlessInstance \<Rightarrow> string" where
  "cnpgAppSecretName inst = DBName inst @ ''-app''"

definition cnpgServiceName :: "PaperlessInstance \<Rightarrow> string" where
  "cnpgServiceName inst = DBName inst @ ''-rw''"

section \<open>The environment\<close>

definition secretEnvVar :: "string \<Rightarrow> string \<Rightarrow> string \<Rightarrow> EnvVar" where
  "secretEnvVar name secretName key =
     \<lparr>evName = name, evValue = [],
      evValueFrom = Some \<lparr>evsSecretKeyRef =
        Some \<lparr>skName = secretName, skKey = key, skOptional = None\<rparr>, evsOther = []\<rparr>\<rparr>"

definition DatabaseEnv :: "PaperlessInstance \<Rightarrow> EnvVar list" where
  "DatabaseEnv inst =
     (let env = [env_value ''PAPERLESS_DBENGINE'' ''postgresql''] in
      if IsExternal (spDatabase (piSpec inst)) then
        let ext = the (dbExternal (spDatabase (piSpec inst))) in
        env @
          [env_value ''PAPERLESS_DBHOST'' (edHost ext),
           env_value ''PAPERLESS_DBPORT'' (Itoa (sint (edPort ext))),
           env_value ''PAPERLESS_DBNAME'' (edName ext),
           secretEnvVar ''PAPERLESS_DBUSER'' (lrName (edCredentialsSecretRef ext)) ''username'',
           secretEnvVar ''PAPERLESS_DBPASS'' (lrName (edCredentialsSecretRef ext)) ''password'']
      else
        let secretName = cnpgAppSecretName inst in
        env @
          [env_value ''PAPERLESS_DBHOST'' (cnpgServiceName inst),
           env_value ''PAPERLESS_DBPORT'' ''5432'',
           env_value ''PAPERLESS_DBNAME'' managedDatabaseName,
           secretEnvVar ''PAPERLESS_DBUSER'' secretName ''username'',
           secretEnvVar ''PAPERLESS_DBPASS'' secretName ''password''])"

section \<open>The CloudNativePG cluster\<close>

definition zero_managed :: ManagedDatabase where
  "zero_managed = \<lparr>mdInstances = 0, mdStorage = zero_volume\<rparr>"

definition CNPGCluster :: "Lib \<Rightarrow> PaperlessInstance \<Rightarrow> (gerror + Unstructured) go" where
  "CNPGCluster L inst =
     (let name = DBName inst in
      case validateName L name of
        Some e \<Rightarrow> Value (Inl e)
      | None \<Rightarrow>
        let cnpg = (case dbCNPG (spDatabase (piSpec inst)) of None \<Rightarrow> zero_managed | Some m \<Rightarrow> m);
            instances = mdInstances cnpg;
            instances = (if sint instances < 1 then 1 else instances)
        in go_bind (SizeOrDefault (libIsZero L) (libParseQuantity L) (mdStorage cnpg) DefaultDatabaseSize)
          (\<lambda>size.
            let storage = [''size'' \<mapsto> JStr (libQuantityString L size)];
                storage = (case vsStorageClassName (mdStorage cnpg) of
                             None \<Rightarrow> storage
                           | Some c \<Rightarrow> storage(''storageClass'' \<mapsto> JStr c));
                spec = [''instances'' \<mapsto> JInt (scast instances),
                        ''storage'' \<mapsto> JObj storage,
                        ''bootstrap'' \<mapsto> JObj [''initdb'' \<mapsto>
                           JObj [''database'' \<mapsto> JStr managedDatabaseName]]]
            in case libSetNestedMap L Map.empty spec [''spec''] of
                 Inl e \<Rightarrow> Value (Inl (ErrorWrap ''setting cluster spec'' e))
               | Inr content \<Rightarrow> Value (Inr
                   \<lparr>unAPIVersion = cnpgAPIVersion, unKind = cnpgKind,
                    unMeta = new_meta name (inst_ns inst) (commonLabels inst ''database''),
                    unObject = content\<rparr>)))"

section \<open>Lemmas\<close>

lemma secretEnvVar_sel [simp]:
  "evName (secretEnvVar n s k) = n"
  "evValue (secretEnvVar n s k) = []"
  by (simp_all add: secretEnvVar_def)

text \<open>The secret and the key an environment variable reads, if it reads a secret.\<close>

definition secret_source :: "EnvVar \<Rightarrow> (string \<times> string) option" where
  "secret_source e =
     (case evValueFrom e of None \<Rightarrow> None
      | Some src \<Rightarrow> map_option (\<lambda>r. (skName r, skKey r)) (evsSecretKeyRef src))"

lemma secret_source_simps [simp]:
  "secret_source (secretEnvVar n s k) = Some (s, k)"
  "secret_source (env_value n v) = None"
  by (simp_all add: secret_source_def secretEnvVar_def env_value_def)

definition database_env_names :: "string list" where
  "database_env_names = [''PAPERLESS_DBENGINE'', ''PAPERLESS_DBHOST'', ''PAPERLESS_DBPORT'',
     ''PAPERLESS_DBNAME'', ''PAPERLESS_DBUSER'', ''PAPERLESS_DBPASS'']"

lemma DatabaseEnv_external:
  "dbExternal (spDatabase (piSpec inst)) = Some ext \<Longrightarrow>
   DatabaseEnv inst =
     [env_value ''PAPERLESS_DBENGINE'' ''postgresql'',
      env_value ''PAPERLESS_DBHOST'' (edHost ext),
      env_value ''PAPERLESS_DBPORT'' (Itoa (sint (edPort ext))),
      env_value ''PAPERLESS_DBNAME'' (edName ext),
      secretEnvVar ''PAPERLESS_DBUSER'' (lrName (edCredentialsSecretRef ext)) ''username'',
      secretEnvVar ''PAPERLESS_DBPASS'' (lrName (edCredentialsSecretRef ext)) ''password'']"
  by (simp add: DatabaseEnv_def IsExternal_def)

lemma DatabaseEnv_managed:
  "dbExternal (spDatabase (piSpec inst)) = None \<Longrightarrow>
   DatabaseEnv inst =
     [env_value ''PAPERLESS_DBENGINE'' ''postgresql'',
      env_value ''PAPERLESS_DBHOST'' (cnpgServiceName inst),
      env_value ''PAPERLESS_DBPORT'' ''5432'',
      env_value ''PAPERLESS_DBNAME'' managedDatabaseName,
      secretEnvVar ''PAPERLESS_DBUSER'' (cnpgAppSecretName inst) ''username'',
      secretEnvVar ''PAPERLESS_DBPASS'' (cnpgAppSecretName inst) ''password'']"
  by (simp add: DatabaseEnv_def IsExternal_def Let_def)

lemma DatabaseEnv_names: "map evName (DatabaseEnv inst) = database_env_names"
  by (cases "dbExternal (spDatabase (piSpec inst))")
     (simp_all add: DatabaseEnv_managed DatabaseEnv_external database_env_names_def)

lemma CNPGCluster_invalid:
  "libIsDNS1123Subdomain L (DBName inst) \<noteq> [] \<Longrightarrow>
   \<exists>e. CNPGCluster L inst = Value (Inl (ErrorMsg e))"
  by (simp add: CNPGCluster_def validateName_def Let_def)

text \<open>What the cluster asks for, where the user leaves a field out.\<close>

definition wanted_database :: "PaperlessInstance \<Rightarrow> ManagedDatabase" where
  "wanted_database inst =
     (case dbCNPG (spDatabase (piSpec inst)) of None \<Rightarrow> zero_managed | Some m \<Rightarrow> m)"

definition wanted_instances :: "PaperlessInstance \<Rightarrow> int" where
  "wanted_instances inst = max 1 (sint (mdInstances (wanted_database inst)))"

definition cluster_spec :: "Lib \<Rightarrow> PaperlessInstance \<Rightarrow> json_map" where
  "cluster_spec L inst =
     [''instances'' \<mapsto> JInt (scast (if sint (mdInstances (wanted_database inst)) < 1 then 1
                                   else mdInstances (wanted_database inst))),
      ''storage'' \<mapsto> JObj (
         [''size'' \<mapsto> JStr (libQuantityString L
            (wanted_size L (mdStorage (wanted_database inst)) DefaultDatabaseSize))] ++
         (case vsStorageClassName (mdStorage (wanted_database inst)) of None \<Rightarrow> Map.empty
          | Some c \<Rightarrow> [''storageClass'' \<mapsto> JStr c])),
      ''bootstrap'' \<mapsto> JObj [''initdb'' \<mapsto> JObj [''database'' \<mapsto> JStr managedDatabaseName]]]"

lemma CNPGCluster_valid:
  assumes "quantity_laws L" "unstructured_laws L" "libIsDNS1123Subdomain L (DBName inst) = []"
  shows "CNPGCluster L inst = Value (Inr \<lparr>unAPIVersion = cnpgAPIVersion, unKind = cnpgKind,
    unMeta = new_meta (DBName inst) (inst_ns inst) (commonLabels inst ''database''),
    unObject = [''spec'' \<mapsto> JObj (cluster_spec L inst)]\<rparr>)"
  using assms
  by (simp add: CNPGCluster_def validateName_def SizeOrDefault_value unstructured_laws_def
      cluster_spec_def Let_def flip: wanted_database_def split: option.split)

lemma case_Inr_iff:
  "(case r of Inl e \<Rightarrow> Value (Inl (f e)) | Inr x \<Rightarrow> Value (Inr (g x))) = Value (Inr y) \<longleftrightarrow>
     (\<exists>x. r = Inr x \<and> g x = y)"
  by (cases r) auto

lemma CNPGCluster_meta:
  "CNPGCluster L inst = Value (Inr c) \<Longrightarrow>
   unMeta c = new_meta (DBName inst) (inst_ns inst) (commonLabels inst ''database'') \<and>
   unAPIVersion c = cnpgAPIVersion \<and> unKind c = cnpgKind"
  unfolding CNPGCluster_def Let_def
  by (cases "validateName L (DBName inst)") (auto simp: go_bind_Value_iff case_Inr_iff)

definition cluster_objects :: "Lib \<Rightarrow> PaperlessInstance \<Rightarrow> kobject list" where
  "cluster_objects L inst = (case CNPGCluster L inst of
     Value (Inr c) \<Rightarrow> [OUnstructured c] | _ \<Rightarrow> [])"

interpretation clusters: object_builder "cluster_objects L" "[''database'']" for L
  by unfold_locales
     (auto simp: cluster_objects_def split: go.splits sum.splits dest!: CNPGCluster_meta [OF sym])

section \<open>Properties of the database\<close>

text \<open>
  The container always gets the same six database variables, each once, and the engine is
  PostgreSQL whether the database is managed or external, so Paperless never falls back to
  SQLite.
\<close>

lemma database_env_complete:
  "map evName (DatabaseEnv inst) = database_env_names \<and> distinct database_env_names \<and>
   env_lookup (DatabaseEnv inst) ''PAPERLESS_DBENGINE'' =
     Some (env_value ''PAPERLESS_DBENGINE'' ''postgresql'')"
  by (cases "dbExternal (spDatabase (piSpec inst))")
     (simp_all add: DatabaseEnv_managed DatabaseEnv_external database_env_names_def env_lookup_def)

text \<open>
  The port of an external database survives its printing: the decimal that reaches the
  container reads back as the number of the specification.
\<close>

lemma external_port_roundtrip:
  assumes "dbExternal (spDatabase (piSpec inst)) = Some ext" and "0 \<le> sint (edPort ext)"
  shows "\<exists>e. env_lookup (DatabaseEnv inst) ''PAPERLESS_DBPORT'' = Some e \<and>
    int (atoi_nat (evValue e)) = sint (edPort ext)"
  using assms by (simp add: DatabaseEnv_external env_lookup_def Itoa_nonneg)

definition external_instance :: PaperlessInstance where
  "external_instance =
     (bare_instance ''docs'' ''paperless'' ''uid-1'')\<lparr>piSpec := zero_spec\<lparr>spDatabase :=
        \<lparr>dbCNPG = None, dbExternal = Some \<lparr>edHost = ''pg'', edPort = 5432, edName = ''paperless'',
          edCredentialsSecretRef = \<lparr>lrName = ''db-credentials''\<rparr>\<rparr>\<rparr>\<rparr>\<rparr>"

lemma external_port_roundtrip_witness:
  "\<exists>e. env_lookup (DatabaseEnv external_instance) ''PAPERLESS_DBPORT'' = Some e \<and>
    int (atoi_nat (evValue e)) = 5432"
proof -
  have "dbExternal (spDatabase (piSpec external_instance)) = Some \<lparr>edHost = ''pg'', edPort = 5432,
      edName = ''paperless'', edCredentialsSecretRef = \<lparr>lrName = ''db-credentials''\<rparr>\<rparr>"
    by (simp add: external_instance_def)
  from external_port_roundtrip [OF this] show ?thesis by simp
qed

text \<open>
  C36: The container always gets the same six database variables, each once, and the engine is
  PostgreSQL whether the database is managed or external, so Paperless never falls back to
  SQLite. The port of an external database survives its printing: the decimal that reaches the
  container reads back as the number of the specification.
\<close>

theorem database_env_correct:
  "map evName (DatabaseEnv inst) = database_env_names \<and> distinct database_env_names \<and>
   env_lookup (DatabaseEnv inst) ''PAPERLESS_DBENGINE'' =
     Some (env_value ''PAPERLESS_DBENGINE'' ''postgresql'') \<and>
   (case dbExternal (spDatabase (piSpec inst)) of
      None \<Rightarrow> True
    | Some ext \<Rightarrow>
        (\<exists>e. env_lookup (DatabaseEnv inst) ''PAPERLESS_DBPORT'' = Some e \<and>
           (if 0 \<le> sint (edPort ext) then int (atoi_nat (evValue e)) = sint (edPort ext)
            else evValue e = Itoa (sint (edPort ext)))))"
proof (intro conjI)
  show "case dbExternal (spDatabase (piSpec inst)) of None \<Rightarrow> True
    | Some ext \<Rightarrow>
        (\<exists>e. env_lookup (DatabaseEnv inst) ''PAPERLESS_DBPORT'' = Some e \<and>
           (if 0 \<le> sint (edPort ext) then int (atoi_nat (evValue e)) = sint (edPort ext)
            else evValue e = Itoa (sint (edPort ext))))"
  proof (cases "dbExternal (spDatabase (piSpec inst))")
    case (Some ext)
    have "\<exists>e. env_lookup (DatabaseEnv inst) ''PAPERLESS_DBPORT'' = Some e \<and>
        evValue e = Itoa (sint (edPort ext))"
      by (simp add: DatabaseEnv_external [OF Some] env_lookup_def)
    then show ?thesis by (auto simp: Some Itoa_nonneg)
  qed simp
qed (use database_env_complete in simp_all)

text \<open>
  With the third-party laws, building the cluster never panics. It fails exactly on an
  invalid name; otherwise the cluster has the derived name, at least one instance (the
  requested number when that is positive), a non-zero storage size, and a storage class
  exactly when the user names one, the empty name included.
\<close>

lemma cluster_wellformed:
  assumes "quantity_laws L" and "unstructured_laws L"
  shows "case CNPGCluster L inst of
      Panic m \<Rightarrow> False
    | Value (Inl e) \<Rightarrow> libIsDNS1123Subdomain L (DBName inst) \<noteq> []
    | Value (Inr c) \<Rightarrow>
        libIsDNS1123Subdomain L (DBName inst) = [] \<and> omName (unMeta c) = DBName inst \<and>
        built_for inst ''database'' (unMeta c) \<and>
        (\<exists>n. json_path (JObj (unObject c)) [''spec'', ''instances''] = Some (JInt n) \<and>
             sint n = wanted_instances inst) \<and>
        (\<exists>q. json_path (JObj (unObject c)) [''spec'', ''storage'', ''size''] =
               Some (JStr (libQuantityString L q)) \<and> \<not> libIsZero L q) \<and>
        json_path (JObj (unObject c)) [''spec'', ''storage'', ''storageClass''] =
          map_option JStr (vsStorageClassName (mdStorage (wanted_database inst)))"
proof (cases "libIsDNS1123Subdomain L (DBName inst) = []")
  case True
  from CNPGCluster_valid [OF assms True] True wanted_size_nonzero [OF assms(1)] show ?thesis
    by (auto simp: cluster_spec_def sint_scast_i32 wanted_instances_def split: option.split)
next
  case False
  with CNPGCluster_invalid [OF False] show ?thesis by auto
qed

lemma cluster_wellformed_witness:
  "case CNPGCluster ref_lib (bare_instance ''docs'' ''ns'' ''u'') of
     Value (Inr c) \<Rightarrow> omName (unMeta c) = ''docs-db'' | _ \<Rightarrow> False"
proof -
  let ?i = "bare_instance ''docs'' ''ns'' ''u''"
  have n: "DBName ?i = ''docs-db''" by (simp add: DBName_def derivedName_def bare_instance_def)
  have "libIsDNS1123Subdomain ref_lib (DBName ?i) = []" unfolding n by code_simp
  then show ?thesis
    using cluster_wellformed [OF ref_quantity_laws ref_unstructured_laws, of ?i]
    by (auto simp: n split: go.splits sum.splits)
qed

text \<open>
  The workload's database variables match the managed cluster it was built with: the
  host is the read-write service of that cluster, the credentials come from the secret
  CloudNativePG generates for it, and the database is the one its bootstrap creates.
\<close>

lemma managed_database_coherent:
  assumes "quantity_laws L" and "unstructured_laws L"
    and "dbExternal (spDatabase (piSpec inst)) = None"
    and "CNPGCluster L inst = Value (Inr c)"
  shows "map_option evValue (env_lookup (DatabaseEnv inst) ''PAPERLESS_DBHOST'') =
           Some (omName (unMeta c) @ ''-rw'') \<and>
    Option.bind (env_lookup (DatabaseEnv inst) ''PAPERLESS_DBUSER'') secret_source =
      Some (omName (unMeta c) @ ''-app'', ''username'') \<and>
    Option.bind (env_lookup (DatabaseEnv inst) ''PAPERLESS_DBPASS'') secret_source =
      Some (omName (unMeta c) @ ''-app'', ''password'') \<and>
    map_option (\<lambda>e. JStr (evValue e)) (env_lookup (DatabaseEnv inst) ''PAPERLESS_DBNAME'') =
      json_path (JObj (unObject c)) [''spec'', ''bootstrap'', ''initdb'', ''database'']"
proof -
  have "libIsDNS1123Subdomain L (DBName inst) = []"
    using CNPGCluster_invalid [of L inst] assms(4) by auto
  from CNPGCluster_valid [OF assms(1,2) this] assms(4)
  have "omName (unMeta c) = DBName inst" "unObject c = [''spec'' \<mapsto> JObj (cluster_spec L inst)]"
    by auto
  with assms(3) show ?thesis
    by (simp add: DatabaseEnv_managed env_lookup_def cnpgServiceName_def cnpgAppSecretName_def
        cluster_spec_def)
qed

lemma managed_database_coherent_witness:
  "map_option evValue (env_lookup (DatabaseEnv (bare_instance ''docs'' ''ns'' ''u'')) ''PAPERLESS_DBHOST'') =
     Some ''docs-db-rw''"
proof -
  let ?i = "bare_instance ''docs'' ''ns'' ''u''"
  have n: "DBName ?i = ''docs-db''" by (simp add: DBName_def derivedName_def bare_instance_def)
  have "libIsDNS1123Subdomain ref_lib (DBName ?i) = []" unfolding n by code_simp
  then obtain c where c: "CNPGCluster ref_lib ?i = Value (Inr c)" and m: "omName (unMeta c) = ''docs-db''"
    using CNPGCluster_valid [OF ref_quantity_laws ref_unstructured_laws, of ?i] n by simp
  have "dbExternal (spDatabase (piSpec ?i)) = None" by (simp add: bare_instance_def zero_spec_def)
  from managed_database_coherent [OF ref_quantity_laws ref_unstructured_laws this c] m show ?thesis
    by simp
qed

text \<open>
  C37: The managed database is well-formed and the workload is wired to it. Building the cluster
  never panics and fails exactly on an invalid name; otherwise the cluster has the derived
  name, at least one instance (the requested number when that is positive), a non-zero storage
  size, and a storage class exactly when the user names one, the empty name included. And unless an
  external database is configured, the workload's host is the read-write service of that very
  cluster, its credentials come from the secret CloudNativePG generates for it, and its
  database is the one the cluster's bootstrap creates.
\<close>

theorem managed_database_correct:
  assumes "quantity_laws L" and "unstructured_laws L"
  shows "case CNPGCluster L inst of
      Panic m \<Rightarrow> False
    | Value (Inl e) \<Rightarrow> libIsDNS1123Subdomain L (DBName inst) \<noteq> []
    | Value (Inr c) \<Rightarrow>
        libIsDNS1123Subdomain L (DBName inst) = [] \<and> omName (unMeta c) = DBName inst \<and>
        built_for inst ''database'' (unMeta c) \<and>
        (\<exists>n. json_path (JObj (unObject c)) [''spec'', ''instances''] = Some (JInt n) \<and>
             sint n = wanted_instances inst) \<and>
        (\<exists>q. json_path (JObj (unObject c)) [''spec'', ''storage'', ''size''] =
               Some (JStr (libQuantityString L q)) \<and> \<not> libIsZero L q) \<and>
        json_path (JObj (unObject c)) [''spec'', ''storage'', ''storageClass''] =
          map_option JStr (vsStorageClassName (mdStorage (wanted_database inst))) \<and>
        (dbExternal (spDatabase (piSpec inst)) = None \<longrightarrow>
          map_option evValue (env_lookup (DatabaseEnv inst) ''PAPERLESS_DBHOST'') =
            Some (omName (unMeta c) @ ''-rw'') \<and>
          Option.bind (env_lookup (DatabaseEnv inst) ''PAPERLESS_DBUSER'') secret_source =
            Some (omName (unMeta c) @ ''-app'', ''username'') \<and>
          Option.bind (env_lookup (DatabaseEnv inst) ''PAPERLESS_DBPASS'') secret_source =
            Some (omName (unMeta c) @ ''-app'', ''password'') \<and>
          map_option (\<lambda>e. JStr (evValue e)) (env_lookup (DatabaseEnv inst) ''PAPERLESS_DBNAME'') =
            json_path (JObj (unObject c)) [''spec'', ''bootstrap'', ''initdb'', ''database''])"
  using cluster_wellformed [OF assms, of inst] managed_database_coherent [OF assms, of inst]
  by (simp split: go.splits sum.splits)

theorem managed_database_correct_witness:
  "case CNPGCluster ref_lib (bare_instance ''docs'' ''ns'' ''u'') of
     Value (Inr c) \<Rightarrow> omName (unMeta c) = ''docs-db'' \<and>
       map_option evValue (env_lookup (DatabaseEnv (bare_instance ''docs'' ''ns'' ''u'')) ''PAPERLESS_DBHOST'') =
         Some ''docs-db-rw''
   | _ \<Rightarrow> False"
proof -
  let ?i = "bare_instance ''docs'' ''ns'' ''u''"
  have n: "DBName ?i = ''docs-db''" by (simp add: DBName_def derivedName_def bare_instance_def)
  have "libIsDNS1123Subdomain ref_lib (DBName ?i) = []" unfolding n by code_simp
  moreover have "dbExternal (spDatabase (piSpec ?i)) = None" by (simp add: bare_instance_def zero_spec_def)
  ultimately show ?thesis
    using managed_database_correct [OF ref_quantity_laws ref_unstructured_laws, of ?i]
    by (auto simp: n split: go.splits sum.splits)
qed

end
