(* ===== verification/Cache.thy ===== *)
theory Cache
  imports Storage
begin

text \<open>
  \<open>internal/resources/cache.go\<close>: the managed Valkey cache. Each builder returns nil (\<open>None\<close>)
  when the instance uses an external cache.
\<close>

definition defaultValkeyImage :: string where
  "defaultValkeyImage = ''valkey/valkey:8.1.10-alpine''"

definition valkeyPort :: i32 where "valkeyPort = 6379"
definition valkeyDataSize :: string where "valkeyDataSize = ''1Gi''"
definition valkeyReplicas :: i32 where "valkeyReplicas = 1"

definition valkeyLabels :: "PaperlessInstance \<Rightarrow> (string \<rightharpoonup> string)" where
  "valkeyLabels inst = commonLabels inst ''cache''"

definition ValkeyDeployment :: "PaperlessInstance \<Rightarrow> Deployment option" where
  "ValkeyDeployment inst =
     (if \<not> IsManaged (spCache (piSpec inst)) then None
      else
        let name = ValkeyName inst; labels = valkeyLabels inst in
        Some \<lparr>
          depMeta = new_meta name (inst_ns inst) labels,
          depSpec = \<lparr>
            dsReplicas = Some valkeyReplicas,
            dsSelectorMatchLabels = labels,
            dsStrategyType = RecreateDeploymentStrategyType,
            dsTemplate = \<lparr>
              ptLabels = labels,
              ptSpec = \<lparr>
                psImagePullSecrets = [],
                psContainers = [\<lparr>
                  ctName = ''valkey'',
                  ctImage = defaultValkeyImage,
                  ctImagePullPolicy = [],
                  ctPorts = [\<lparr>cpName = ''valkey'', cpContainerPort = valkeyPort\<rparr>],
                  ctEnv = [], ctEnvFrom = [], ctResources = [],
                  ctVolumeMounts = [\<lparr>vmName = ''data'', vmMountPath = ''/data''\<rparr>],
                  ctReadinessProbe = None, ctLivenessProbe = None\<rparr>],
                psVolumes = [\<lparr>volName = ''data'', volClaimName = Some name\<rparr>]\<rparr>\<rparr>\<rparr>,
          depReadyReplicas = 0\<rparr>)"

definition ValkeyService :: "PaperlessInstance \<Rightarrow> Service option" where
  "ValkeyService inst =
     (if \<not> IsManaged (spCache (piSpec inst)) then None
      else
        let labels = valkeyLabels inst in
        Some \<lparr>
          svcMeta = new_meta (ValkeyName inst) (inst_ns inst) labels,
          svcSelector = labels,
          svcPorts = [\<lparr>spName = ''valkey'', spPort = valkeyPort,
                       spTargetPort = FromInt32 valkeyPort\<rparr>]\<rparr>)"

definition ValkeyPVC :: "Lib \<Rightarrow> PaperlessInstance \<Rightarrow> PersistentVolumeClaim option go" where
  "ValkeyPVC L inst =
     (if \<not> IsManaged (spCache (piSpec inst)) then Value None
      else go_bind (MustParse (libParseQuantity L) valkeyDataSize) (\<lambda>size.
        Value (Some (buildPVC inst (ValkeyName inst) ''cache'' size [] None))))"

section \<open>Lemmas\<close>

lemma ValkeyDeployment_None [simp]: "ValkeyDeployment inst = None \<longleftrightarrow> \<not> IsManaged (spCache (piSpec inst))"
  by (simp add: ValkeyDeployment_def Let_def)

lemma ValkeyService_None [simp]: "ValkeyService inst = None \<longleftrightarrow> \<not> IsManaged (spCache (piSpec inst))"
  by (simp add: ValkeyService_def Let_def)

lemma ValkeyDeployment_sel [builder_simps]:
  assumes "ValkeyDeployment inst = Some d"
  shows "depMeta d = new_meta (ValkeyName inst) (inst_ns inst) (valkeyLabels inst)"
    and "dsSelectorMatchLabels (depSpec d) = valkeyLabels inst"
    and "ptLabels (dsTemplate (depSpec d)) = valkeyLabels inst"
    and "map ctPorts (psContainers (ptSpec (dsTemplate (depSpec d)))) =
           [[\<lparr>cpName = ''valkey'', cpContainerPort = valkeyPort\<rparr>]]"
    and "map volClaimName (psVolumes (ptSpec (dsTemplate (depSpec d)))) = [Some (ValkeyName inst)]"
    and "dsReplicas (depSpec d) = Some 1"
    and "dsStrategyType (depSpec d) = RecreateDeploymentStrategyType"
  using assms by (auto simp: ValkeyDeployment_def Let_def valkeyReplicas_def split: if_splits)

lemma ValkeyService_sel [builder_simps]:
  assumes "ValkeyService inst = Some s"
  shows "svcMeta s = new_meta (ValkeyName inst) (inst_ns inst) (valkeyLabels inst)"
    and "svcSelector s = valkeyLabels inst"
    and "svcPorts s = [\<lparr>spName = ''valkey'', spPort = valkeyPort, spTargetPort = FromInt32 valkeyPort\<rparr>]"
  using assms by (auto simp: ValkeyService_def Let_def split: if_splits)

lemma ValkeyPVC_value:
  "quantity_laws L \<Longrightarrow> ValkeyPVC L inst = Value
     (if IsManaged (spCache (piSpec inst))
      then Some (buildPVC inst (ValkeyName inst) ''cache'' ''1Gi'' [] None) else None)"
  using size_literal [of L "''1Gi''"]
  by (simp add: ValkeyPVC_def MustParse_def valkeyDataSize_def size_literals_def)

lemma ValkeyPVC_built:
  "ValkeyPVC L inst = Value (Some p) \<Longrightarrow>
   \<exists>sz. p = buildPVC inst (ValkeyName inst) ''cache'' sz [] None"
  by (auto simp: ValkeyPVC_def go_bind_Value_iff split: if_splits)

text \<open>What \<open>reconcileCache\<close> applies, in its order.\<close>

definition cache_objects :: "Lib \<Rightarrow> PaperlessInstance \<Rightarrow> kobject list" where
  "cache_objects L inst =
     (case ValkeyDeployment inst of None \<Rightarrow> [] | Some d \<Rightarrow> [ODeployment d]) @
     (case ValkeyService inst of None \<Rightarrow> [] | Some s \<Rightarrow> [OService s]) @
     (case ValkeyPVC L inst of Value (Some p) \<Rightarrow> [OPVC p] | _ \<Rightarrow> [])"

interpretation caches: object_builder "cache_objects L" "[''cache'']" for L
  by unfold_locales
     (auto simp: cache_objects_def builder_simps valkeyLabels_def
       split: option.splits go.splits dest!: ValkeyPVC_built [OF sym] ValkeyPVC_built)

end
