(* ===== verification/Workload.thy ===== *)
theory Workload
  imports Database Cache Env_Dedupe
begin

text \<open>
  \<open>internal/resources/workload.go\<close>: the environment, volumes and probes of the Paperless
  container, its Deployment and its Service. \<open>dedupeEnv\<close> is in \<open>Env_Dedupe\<close>.
\<close>

section \<open>Constants\<close>

definition defaultTimezone :: string where "defaultTimezone = ''UTC''"
definition defaultOCRLanguage :: string where "defaultOCRLanguage = ''eng''"
definition defaultAdminUsername :: string where "defaultAdminUsername = ''admin''"
definition paperlessPort :: i32 where "paperlessPort = 8000"
definition paperlessReplicas :: i32 where "paperlessReplicas = 1"
definition readinessInitialDelaySeconds :: i32 where "readinessInitialDelaySeconds = 10"
definition readinessPeriodSeconds :: i32 where "readinessPeriodSeconds = 10"
definition readinessTimeoutSeconds :: i32 where "readinessTimeoutSeconds = 5"
definition readinessFailureThreshold :: i32 where "readinessFailureThreshold = 30"
definition livenessInitialDelaySeconds :: i32 where "livenessInitialDelaySeconds = 60"
definition livenessPeriodSeconds :: i32 where "livenessPeriodSeconds = 20"
definition livenessTimeoutSeconds :: i32 where "livenessTimeoutSeconds = 5"
definition livenessFailureThreshold :: i32 where "livenessFailureThreshold = 30"

definition workloadLabels :: "PaperlessInstance \<Rightarrow> (string \<rightharpoonup> string)" where
  "workloadLabels inst = commonLabels inst ''server''"

section \<open>Probes and host names\<close>

definition paperlessProbe :: "string \<Rightarrow> i32 \<Rightarrow> i32 \<Rightarrow> i32 \<Rightarrow> i32 \<Rightarrow> Probe" where
  "paperlessProbe host initialDelay period timeout failureThreshold =
     \<lparr>prHTTPGet = Some \<lparr>hgPath = ''/'', hgPort = FromInt32 paperlessPort,
                        hgHTTPHeaders = [(''Host'', host)]\<rparr>,
      prInitialDelaySeconds = initialDelay,
      prPeriodSeconds = period,
      prTimeoutSeconds = timeout,
      prFailureThreshold = failureThreshold\<rparr>"

definition serviceDNSNames :: "PaperlessInstance \<Rightarrow> string list" where
  "serviceDNSNames inst =
     [inst_name inst,
      inst_name inst @ ''.'' @ inst_ns inst @ ''.svc'',
      inst_name inst @ ''.'' @ inst_ns inst @ ''.svc.cluster.local'']"

text \<open>The slice \<open>hosts\<close> of \<open>allowedHosts\<close> before it is joined.\<close>

definition allowedHostsList :: "Lib \<Rightarrow> PaperlessInstance \<Rightarrow> string list" where
  "allowedHostsList L inst =
     (let hosts = serviceDNSNames inst @ [''localhost'', ''127.0.0.1''] in
      if spURL (piSpec inst) \<noteq> [] then
        (case libURLHostname L (spURL (piSpec inst)) of
           Inl e \<Rightarrow> hosts
         | Inr h \<Rightarrow> if h \<noteq> [] then hosts @ [h] else hosts)
      else hosts)"

definition allowedHosts :: "Lib \<Rightarrow> PaperlessInstance \<Rightarrow> string" where
  "allowedHosts L inst = Join (allowedHostsList L inst) '',''"

section \<open>Environment\<close>

definition secretKeyEnv :: "PaperlessInstance \<Rightarrow> EnvVar" where
  "secretKeyEnv inst =
     (case spSecretKeySecretRef (piSpec inst) of
        Some ref \<Rightarrow> secretEnvVar ''PAPERLESS_SECRET_KEY'' (skName ref) (skKey ref)
      | None \<Rightarrow> secretEnvVar ''PAPERLESS_SECRET_KEY'' (SecretKeyName inst) ''PAPERLESS_SECRET_KEY'')"

definition cacheEnv :: "PaperlessInstance \<Rightarrow> EnvVar" where
  "cacheEnv inst =
     (let cache = spCache (piSpec inst) in
      if IsManaged cache then
        env_value ''PAPERLESS_REDIS'' (''redis://'' @ ValkeyName inst @ '':'' @ Itoa (sint valkeyPort))
      else (case caURLSecretRef cache of
              Some ref \<Rightarrow> secretEnvVar ''PAPERLESS_REDIS'' (skName ref) (skKey ref)
            | None \<Rightarrow> env_value ''PAPERLESS_REDIS'' (caURL cache)))"

definition adminEnv :: "PaperlessInstance \<Rightarrow> EnvVar list" where
  "adminEnv inst =
     (let admin = spAdmin (piSpec inst) in
      if \<not> IsEnabled admin then []
      else
        let username = adUsername admin;
            username = (if username = [] then defaultAdminUsername else username);
            env = [env_value ''PAPERLESS_ADMIN_USER'' username];
            env = (if adEmail admin \<noteq> [] then env @ [env_value ''PAPERLESS_ADMIN_MAIL'' (adEmail admin)]
                   else env)
        in case adPasswordSecretRef admin of
             Some ref \<Rightarrow> env @ [secretEnvVar ''PAPERLESS_ADMIN_PASSWORD'' (skName ref) (skKey ref)]
           | None \<Rightarrow> env @ [secretEnvVar ''PAPERLESS_ADMIN_PASSWORD'' (AdminSecretName inst) ''password''])"

text \<open>The environment before \<open>dedupeEnv\<close>: what the operator computes, then the user's.\<close>

definition operatorEnv :: "Lib \<Rightarrow> PaperlessInstance \<Rightarrow> EnvVar list" where
  "operatorEnv L inst =
     (let tz = spTimezone (piSpec inst);
          tz = (if tz = [] then defaultTimezone else tz);
          ocrLang = Join (ocLanguages (spOCR (piSpec inst))) ''+'';
          ocrLang = (if ocrLang = [] then defaultOCRLanguage else ocrLang);
          env = [env_value ''PAPERLESS_ALLOWED_HOSTS'' (allowedHosts L inst),
                 env_value ''PAPERLESS_TIME_ZONE'' tz,
                 env_value ''PAPERLESS_OCR_LANGUAGE'' ocrLang];
          env = (if spURL (piSpec inst) \<noteq> []
                 then env @ [env_value ''PAPERLESS_URL'' (spURL (piSpec inst)),
                             env_value ''PAPERLESS_CSRF_TRUSTED_ORIGINS'' (spURL (piSpec inst))]
                 else env);
          env = env @ [secretKeyEnv inst, cacheEnv inst];
          env = env @ adminEnv inst
      in env @ DatabaseEnv inst)"

definition workloadEnv :: "Lib \<Rightarrow> PaperlessInstance \<Rightarrow> EnvVar list" where
  "workloadEnv L inst = dedupeEnv (operatorEnv L inst @ spEnv (piSpec inst))"

section \<open>Volumes\<close>

definition paperlessVolumeSpecs :: "PaperlessInstance \<Rightarrow> (string \<times> string \<times> string) list" where
  "paperlessVolumeSpecs inst =
     [(''data'', DataPVCName inst, ''/usr/src/paperless/data''),
      (''media'', MediaPVCName inst, ''/usr/src/paperless/media''),
      (''consume'', ConsumePVCName inst, ''/usr/src/paperless/consume''),
      (''export'', ExportPVCName inst, ''/usr/src/paperless/export'')]"

definition paperlessVolumes :: "PaperlessInstance \<Rightarrow> Volume list" where
  "paperlessVolumes inst =
     map (\<lambda>(name, claim, mountPath). \<lparr>volName = name, volClaimName = Some claim\<rparr>)
       (paperlessVolumeSpecs inst)"

definition paperlessVolumeMounts :: "PaperlessInstance \<Rightarrow> VolumeMount list" where
  "paperlessVolumeMounts inst =
     map (\<lambda>(name, claim, mountPath). \<lparr>vmName = name, vmMountPath = mountPath\<rparr>)
       (paperlessVolumeSpecs inst)"

section \<open>The Deployment and the Service\<close>

definition paperlessContainer :: "Lib \<Rightarrow> PaperlessInstance \<Rightarrow> Container" where
  "paperlessContainer L inst = \<lparr>
     ctName = ''paperless'',
     ctImage = Reference (spImage (piSpec inst)),
     ctImagePullPolicy = imPullPolicy (spImage (piSpec inst)),
     ctPorts = [\<lparr>cpName = ''http'', cpContainerPort = paperlessPort\<rparr>],
     ctEnv = workloadEnv L inst,
     ctEnvFrom = spEnvFrom (piSpec inst),
     ctResources = spResources (piSpec inst),
     ctVolumeMounts = paperlessVolumeMounts inst,
     ctReadinessProbe = Some (paperlessProbe (inst_name inst) readinessInitialDelaySeconds
       readinessPeriodSeconds readinessTimeoutSeconds readinessFailureThreshold),
     ctLivenessProbe = Some (paperlessProbe (inst_name inst) livenessInitialDelaySeconds
       livenessPeriodSeconds livenessTimeoutSeconds livenessFailureThreshold)\<rparr>"

definition PaperlessDeployment :: "Lib \<Rightarrow> PaperlessInstance \<Rightarrow> Deployment" where
  "PaperlessDeployment L inst =
     (let labels = workloadLabels inst in \<lparr>
        depMeta = new_meta (inst_name inst) (inst_ns inst) labels,
        depSpec = \<lparr>
          dsReplicas = Some paperlessReplicas,
          dsSelectorMatchLabels = labels,
          dsStrategyType = RecreateDeploymentStrategyType,
          dsTemplate = \<lparr>
            ptLabels = labels,
            ptSpec = \<lparr>
              psImagePullSecrets = imPullSecrets (spImage (piSpec inst)),
              psContainers = [paperlessContainer L inst],
              psVolumes = paperlessVolumes inst\<rparr>\<rparr>\<rparr>,
        depReadyReplicas = 0\<rparr>)"

definition PaperlessService :: "PaperlessInstance \<Rightarrow> Service" where
  "PaperlessService inst =
     (let labels = workloadLabels inst in \<lparr>
        svcMeta = new_meta (inst_name inst) (inst_ns inst) labels,
        svcSelector = labels,
        svcPorts = [\<lparr>spName = ''http'', spPort = paperlessPort,
                     spTargetPort = FromInt32 paperlessPort\<rparr>]\<rparr>)"

section \<open>Lemmas on the environment\<close>

lemma secretKeyEnv_name [simp]: "evName (secretKeyEnv inst) = ''PAPERLESS_SECRET_KEY''"
  by (simp add: secretKeyEnv_def split: option.split)

lemma cacheEnv_name [simp]: "evName (cacheEnv inst) = ''PAPERLESS_REDIS''"
  by (simp add: cacheEnv_def Let_def split: option.split)

definition admin_env_names :: "PaperlessInstance \<Rightarrow> string list" where
  "admin_env_names inst =
     (if IsEnabled (spAdmin (piSpec inst))
      then [''PAPERLESS_ADMIN_USER''] @
        (if adEmail (spAdmin (piSpec inst)) \<noteq> [] then [''PAPERLESS_ADMIN_MAIL''] else []) @
        [''PAPERLESS_ADMIN_PASSWORD'']
      else [])"

lemma adminEnv_names: "map evName (adminEnv inst) = admin_env_names inst"
  by (simp add: adminEnv_def admin_env_names_def Let_def split: option.split)

definition url_env_names :: "PaperlessInstance \<Rightarrow> string list" where
  "url_env_names inst =
     (if spURL (piSpec inst) \<noteq> [] then [''PAPERLESS_URL'', ''PAPERLESS_CSRF_TRUSTED_ORIGINS''] else [])"

definition operator_env_names :: "PaperlessInstance \<Rightarrow> string list" where
  "operator_env_names inst =
     [''PAPERLESS_ALLOWED_HOSTS'', ''PAPERLESS_TIME_ZONE'', ''PAPERLESS_OCR_LANGUAGE''] @
     url_env_names inst @ [''PAPERLESS_SECRET_KEY'', ''PAPERLESS_REDIS''] @
     admin_env_names inst @ database_env_names"

lemma operatorEnv_names: "map evName (operatorEnv L inst) = operator_env_names inst"
  by (simp add: operatorEnv_def operator_env_names_def url_env_names_def Let_def
      adminEnv_names DatabaseEnv_names)

lemma operator_env_names_distinct: "distinct (operator_env_names inst)"
  by (cases "spURL (piSpec inst) = []"; cases "IsEnabled (spAdmin (piSpec inst))";
      cases "adEmail (spAdmin (piSpec inst)) = []")
     (simp_all add: operator_env_names_def url_env_names_def admin_env_names_def
       database_env_names_def)

lemma operatorEnv_last: "last_entry (operatorEnv L inst) n = env_lookup (operatorEnv L inst) n"
  by (rule last_entry_distinct) (simp only: operatorEnv_names operator_env_names_distinct)

lemma workloadEnv_lookup:
  "env_lookup (workloadEnv L inst) n =
     (case last_entry (spEnv (piSpec inst)) n of Some e \<Rightarrow> Some e
      | None \<Rightarrow> env_lookup (operatorEnv L inst) n)"
  by (simp add: workloadEnv_def dedupe.lookup last_entry_append operatorEnv_last split: option.split)

lemma workloadEnv_operator:
  "n \<notin> set (map evName (spEnv (piSpec inst))) \<Longrightarrow>
   env_lookup (workloadEnv L inst) n = env_lookup (operatorEnv L inst) n"
  unfolding workloadEnv_def by (simp add: dedupe.base_kept operatorEnv_last)

text \<open>The entries of the operator's environment that other components rely on.\<close>

lemma operatorEnv_lookups:
  "env_lookup (operatorEnv L inst) ''PAPERLESS_ALLOWED_HOSTS'' =
     Some (env_value ''PAPERLESS_ALLOWED_HOSTS'' (allowedHosts L inst))"
  "env_lookup (operatorEnv L inst) ''PAPERLESS_SECRET_KEY'' = Some (secretKeyEnv inst)"
  "env_lookup (operatorEnv L inst) ''PAPERLESS_REDIS'' = Some (cacheEnv inst)"
  by (simp_all add: operatorEnv_def Let_def env_lookup_def)

lemma adminEnv_password:
  "IsEnabled (spAdmin (piSpec inst)) \<Longrightarrow> adPasswordSecretRef (spAdmin (piSpec inst)) = None \<Longrightarrow>
   env_lookup (operatorEnv L inst) ''PAPERLESS_ADMIN_PASSWORD'' =
     Some (secretEnvVar ''PAPERLESS_ADMIN_PASSWORD'' (AdminSecretName inst) ''password'')"
  by (simp add: operatorEnv_def adminEnv_def Let_def env_lookup_def)

section \<open>Services and the pods behind them\<close>

text \<open>
  A Service selects the pods that carry all its labels. A Service and a Deployment of the
  same component go together: the locale states what the builders guarantee, and that a
  Service then reaches the pods of its own instance and component only.
\<close>

definition selects :: "Service \<Rightarrow> Deployment \<Rightarrow> bool" where
  "selects s d \<longleftrightarrow> svcSelector s \<subseteq>\<^sub>m ptLabels (dsTemplate (depSpec d))"

lemma commonLabels_le: "commonLabels a c \<subseteq>\<^sub>m commonLabels b d \<longleftrightarrow> commonLabels a c = commonLabels b d"
proof
  assume "commonLabels a c \<subseteq>\<^sub>m commonLabels b d"
  moreover have "dom (commonLabels a c) = dom (commonLabels b d)"
    by (auto simp: commonLabels_def)
  ultimately show "commonLabels a c = commonLabels b d" by (metis map_le_antisym map_le_def)
qed simp

definition container_ports :: "Deployment \<Rightarrow> i32 list" where
  "container_ports d =
     map cpContainerPort (concat (map ctPorts (psContainers (ptSpec (dsTemplate (depSpec d))))))"

locale service_backend =
  fixes dep :: "PaperlessInstance \<Rightarrow> Deployment option"
    and svc :: "PaperlessInstance \<Rightarrow> Service option"
    and component :: string
  assumes together: "dep inst = None \<longleftrightarrow> svc inst = None"
    and pods: "dep inst = Some d \<Longrightarrow> ptLabels (dsTemplate (depSpec d)) = commonLabels inst component"
    and matched: "dep inst = Some d \<Longrightarrow>
      dsSelectorMatchLabels (depSpec d) = ptLabels (dsTemplate (depSpec d))"
    and selector: "svc inst = Some s \<Longrightarrow> svcSelector s = commonLabels inst component"
    and same_key: "dep inst = Some d \<Longrightarrow> svc inst = Some s \<Longrightarrow> svcMeta s = depMeta d"
    and ports: "dep inst = Some d \<Longrightarrow> svc inst = Some s \<Longrightarrow>
      map spTargetPort (svcPorts s) = map FromInt32 (container_ports d)"
begin

lemma selects_iff:
  "svc a = Some s \<Longrightarrow> dep b = Some d \<Longrightarrow> selects s d \<longleftrightarrow> inst_name a = inst_name b"
  by (simp add: selects_def selector pods commonLabels_le commonLabels_inj)

lemma foreign_pods:
  "svc a = Some s \<Longrightarrow> ptLabels (dsTemplate (depSpec d)) = commonLabels b c \<Longrightarrow> c \<noteq> component \<Longrightarrow>
   \<not> selects s d"
  by (simp add: selects_def selector commonLabels_le commonLabels_inj)

end

interpretation paperless: service_backend
    "\<lambda>inst. Some (PaperlessDeployment L inst)" "\<lambda>inst. Some (PaperlessService inst)" "''server''" for L
  by unfold_locales
     (auto simp: PaperlessDeployment_def PaperlessService_def workloadLabels_def Let_def
       container_ports_def paperlessContainer_def)

interpretation valkey: service_backend ValkeyDeployment ValkeyService "''cache''"
proof unfold_locales
  fix inst d s assume "ValkeyDeployment inst = Some d" "ValkeyService inst = Some s"
  then show "map spTargetPort (svcPorts s) = map FromInt32 (container_ports d)"
    and "svcMeta s = depMeta d"
    by (simp_all add: builder_simps container_ports_def concat_map_singleton)
qed (simp_all add: builder_simps valkeyLabels_def)

text \<open>The Service and the Deployment are built under the contract of a builder.\<close>

definition workload_objects :: "Lib \<Rightarrow> PaperlessInstance \<Rightarrow> kobject list" where
  "workload_objects L inst = [OService (PaperlessService inst), ODeployment (PaperlessDeployment L inst)]"

interpretation workloads: object_builder "workload_objects L" "[''server'']" for L
  by unfold_locales
     (auto simp: workload_objects_def PaperlessService_def PaperlessDeployment_def
       workloadLabels_def Let_def)

text \<open>
  The user name of the generated credentials is the one of the specification, that of the
  environment the one of the specification or the default: for an empty name they differ.
\<close>

lemma admin_username_differs:
  assumes "IsEnabled (spAdmin (piSpec inst))" and "adUsername (spAdmin (piSpec inst)) = []"
  shows "wp (AdminSecret L inst) (\<lambda>es x. case x of
      Value (Inr (Some s)) \<Rightarrow> secStringData s ''username'' = Some []
    | _ \<Rightarrow> True) \<and>
    env_lookup (adminEnv inst) ''PAPERLESS_ADMIN_USER'' = Some (env_value ''PAPERLESS_ADMIN_USER'' ''admin'')"
  using assms
  by (auto simp: AdminSecret_def Let_def wp_bind wp_simps adminEnv_def env_lookup_def
      defaultAdminUsername_def split: option.split)

section \<open>Properties of the workload\<close>

text \<open>
  The environment of the container never repeats a name. The user's last entry for a name
  wins over whatever the operator computes for it, and every name the user does not mention
  has the operator's entry.
\<close>

lemma user_env_wins:
  "distinct (map evName (workloadEnv L inst)) \<and>
   env_lookup (workloadEnv L inst) n =
     (case last_entry (spEnv (piSpec inst)) n of Some e \<Rightarrow> Some e
      | None \<Rightarrow> env_lookup (operatorEnv L inst) n)"
  using dedupe.distinct_names workloadEnv_lookup by (auto simp: workloadEnv_def)

text \<open>
  Every variable Paperless needs is present: the names of the environment are exactly the
  operator's, which include the host list, the time zone, the OCR language, the secret key,
  the cache and the six database variables, and the user's.
\<close>

lemma workload_env_complete:
  "set (map evName (workloadEnv L inst)) =
     set (operator_env_names inst) \<union> set (map evName (spEnv (piSpec inst))) \<and>
   set ([''PAPERLESS_ALLOWED_HOSTS'', ''PAPERLESS_TIME_ZONE'', ''PAPERLESS_OCR_LANGUAGE'',
     ''PAPERLESS_SECRET_KEY'', ''PAPERLESS_REDIS''] @ database_env_names)
     \<subseteq> set (operator_env_names inst)"
proof -
  have "set (map evName (operatorEnv L inst)) = set (operator_env_names inst)"
    by (simp only: operatorEnv_names)
  then show ?thesis
    using dedupe.same_names [of "operatorEnv L inst @ spEnv (piSpec inst)"]
    by (simp add: workloadEnv_def operator_env_names_def) blast
qed

text \<open>
  C31: The environment of the container never repeats a name. The user's last entry for a name
  wins over whatever the operator computes for it, and every name the user does not mention has
  the operator's entry. Every variable Paperless needs is present: the names are exactly the
  operator's, which include the host list, the time zone, the OCR language, the secret key, the
  cache and the six database variables, and the user's.
\<close>

theorem workload_env_correct:
  "distinct (map evName (workloadEnv L inst)) \<and>
   env_lookup (workloadEnv L inst) n =
     (case last_entry (spEnv (piSpec inst)) n of Some e \<Rightarrow> Some e
      | None \<Rightarrow> env_lookup (operatorEnv L inst) n) \<and>
   set (map evName (workloadEnv L inst)) =
     set (operator_env_names inst) \<union> set (map evName (spEnv (piSpec inst))) \<and>
   set ([''PAPERLESS_ALLOWED_HOSTS'', ''PAPERLESS_TIME_ZONE'', ''PAPERLESS_OCR_LANGUAGE'',
     ''PAPERLESS_SECRET_KEY'', ''PAPERLESS_REDIS''] @ database_env_names)
     \<subseteq> set (operator_env_names inst)"
  using user_env_wins [of L inst n] workload_env_complete [of L inst] by blast

text \<open>
  C33: Suppose neither the instance's name and namespace nor the host of its URL contain a comma,
  and the user does not override \<open>PAPERLESS_ALLOWED_HOSTS\<close>. Then Paperless reads back from that
  variable the very list of hosts the operator built; the readiness and the liveness probe are
  both there, ask for \<open>/\<close> on the container's port with exactly one header, a Host header, and its
  value is on that list; and so are the in-cluster names, the two names of a port forward and
  the host of the URL.
\<close>

theorem probe_host_allowed:
  assumes "CHR '','' \<notin> set (inst_name inst)" and "CHR '','' \<notin> set (inst_ns inst)"
    and "case libURLHostname L (spURL (piSpec inst)) of Inl e \<Rightarrow> True | Inr h \<Rightarrow> CHR '','' \<notin> set h"
    and "''PAPERLESS_ALLOWED_HOSTS'' \<notin> set (map evName (spEnv (piSpec inst)))"
  shows "\<exists>e. env_lookup (workloadEnv L inst) ''PAPERLESS_ALLOWED_HOSTS'' = Some e \<and>
    split_on (CHR '','') (evValue e) = allowedHostsList L inst \<and>
    list_all (\<lambda>p. \<exists>pr g host. p = Some pr \<and> prHTTPGet pr = Some g \<and>
        hgPath g = ''/'' \<and> hgPort g = FromInt32 paperlessPort \<and>
        hgHTTPHeaders g = [(''Host'', host)] \<and> host \<in> set (split_on (CHR '','') (evValue e)))
      [ctReadinessProbe (paperlessContainer L inst), ctLivenessProbe (paperlessContainer L inst)] \<and>
    set (serviceDNSNames inst @ [''localhost'', ''127.0.0.1'']) \<subseteq> set (allowedHostsList L inst) \<and>
    (\<forall>h. spURL (piSpec inst) \<noteq> [] \<and> libURLHostname L (spURL (piSpec inst)) = Inr h \<and> h \<noteq> [] \<longrightarrow>
       h \<in> set (allowedHostsList L inst))"
proof -
  have "split_on (CHR '','') (allowedHosts L inst) = allowedHostsList L inst"
    unfolding allowedHosts_def using assms(1-3)
    by (intro split_on_Join)
       (auto simp: allowedHostsList_def serviceDNSNames_def Let_def split: sum.splits)
  then show ?thesis
    using workloadEnv_operator [OF assms(4), of L]
    by (auto simp: operatorEnv_lookups paperlessContainer_def paperlessProbe_def
        allowedHostsList_def serviceDNSNames_def Let_def split: sum.splits)
qed

theorem probe_host_allowed_witness:
  "\<exists>e. env_lookup (workloadEnv ref_lib (bare_instance ''docs'' ''ns'' ''u''))
         ''PAPERLESS_ALLOWED_HOSTS'' = Some e \<and>
    split_on (CHR '','') (evValue e) =
      [''docs'', ''docs.ns.svc'', ''docs.ns.svc.cluster.local'', ''localhost'', ''127.0.0.1'']"
proof -
  let ?i = "bare_instance ''docs'' ''ns'' ''u''"
  have l: "allowedHostsList ref_lib ?i =
      [''docs'', ''docs.ns.svc'', ''docs.ns.svc.cluster.local'', ''localhost'', ''127.0.0.1'']"
    by (simp add: allowedHostsList_def serviceDNSNames_def bare_instance_def zero_spec_def)
  have "CHR '','' \<notin> set (inst_name ?i)" "CHR '','' \<notin> set (inst_ns ?i)"
    "case libURLHostname ref_lib (spURL (piSpec ?i)) of Inl e \<Rightarrow> True | Inr h \<Rightarrow> CHR '','' \<notin> set h"
    "''PAPERLESS_ALLOWED_HOSTS'' \<notin> set (map evName (spEnv (piSpec ?i)))"
    by (simp_all add: bare_instance_def zero_spec_def ref_hostname_def)
  from probe_host_allowed [OF this] l show ?thesis by auto
qed

text \<open>
  C30: Every reference of the environment to a generated secret resolves: whenever the builder of
  the secret key, or of the admin credentials, returns a secret, the container reads exactly
  that secret under a key the secret has, unless the user overrides the variable.
\<close>

theorem generated_secret_references_resolve:
  assumes "''PAPERLESS_SECRET_KEY'' \<notin> set (map evName (spEnv (piSpec inst)))"
    and "''PAPERLESS_ADMIN_PASSWORD'' \<notin> set (map evName (spEnv (piSpec inst)))"
  shows "wp (SecretKey L inst) (\<lambda>es x. case x of
      Value (Inr (Some s)) \<Rightarrow> (\<exists>k \<in> dom (secStringData s).
        Option.bind (env_lookup (workloadEnv L inst) ''PAPERLESS_SECRET_KEY'') secret_source =
          Some (omName (secMeta s), k))
    | _ \<Rightarrow> True) \<and>
    wp (AdminSecret L inst) (\<lambda>es x. case x of
      Value (Inr (Some s)) \<Rightarrow> (\<exists>k \<in> dom (secStringData s).
        Option.bind (env_lookup (workloadEnv L inst) ''PAPERLESS_ADMIN_PASSWORD'') secret_source =
          Some (omName (secMeta s), k))
    | _ \<Rightarrow> True)"
proof (rule conjI)
  show "wp (SecretKey L inst) (\<lambda>es x. case x of
      Value (Inr (Some s)) \<Rightarrow> (\<exists>k \<in> dom (secStringData s).
        Option.bind (env_lookup (workloadEnv L inst) ''PAPERLESS_SECRET_KEY'') secret_source =
          Some (omName (secMeta s), k))
    | _ \<Rightarrow> True)"
    by (auto simp: SecretKey_def Let_def wp_bind wp_simps workloadEnv_operator [OF assms(1)]
        operatorEnv_lookups secretKeyEnv_def split: option.split)
  show "wp (AdminSecret L inst) (\<lambda>es x. case x of
      Value (Inr (Some s)) \<Rightarrow> (\<exists>k \<in> dom (secStringData s).
        Option.bind (env_lookup (workloadEnv L inst) ''PAPERLESS_ADMIN_PASSWORD'') secret_source =
          Some (omName (secMeta s), k))
    | _ \<Rightarrow> True)"
    by (auto simp: AdminSecret_def Let_def wp_bind wp_simps workloadEnv_operator [OF assms(2)]
        adminEnv_password split: option.split)
qed

theorem generated_secret_references_resolve_witness:
  "wp (SecretKey ref_lib (bare_instance ''docs'' ''ns'' ''u'')) (\<lambda>es x. case x of
      Value (Inr (Some s)) \<Rightarrow> (\<exists>k \<in> dom (secStringData s).
        Option.bind (env_lookup (workloadEnv ref_lib (bare_instance ''docs'' ''ns'' ''u''))
          ''PAPERLESS_SECRET_KEY'') secret_source = Some (omName (secMeta s), k))
    | _ \<Rightarrow> True)"
proof -
  let ?i = "bare_instance ''docs'' ''ns'' ''u''"
  have "''PAPERLESS_SECRET_KEY'' \<notin> set (map evName (spEnv (piSpec ?i)))"
    "''PAPERLESS_ADMIN_PASSWORD'' \<notin> set (map evName (spEnv (piSpec ?i)))"
    by (simp_all add: bare_instance_def zero_spec_def)
  from generated_secret_references_resolve [OF this] show ?thesis by blast
qed

text \<open>
  C34: The volumes fit the claims. Building the claims never panics and gives four claims under
  four different names; each requests storage of a non-zero size, has at least one access mode
  and passes the storage class through untouched (unset stays unset, the empty name stays
  empty). The pod's volumes bind exactly these claims, in the same order, and the container
  mounts exactly the volumes of the pod, each under its own name and path.
\<close>

theorem volumes_bind_the_claims:
  assumes "quantity_laws L"
  shows "\<exists>ps. PVCs L inst = Value ps \<and>
    distinct (map (\<lambda>p. omName (pvcMeta p)) ps) \<and>
    list_all (\<lambda>p. pvcAccessModes p \<noteq> [] \<and>
      (\<exists>q. pvcRequests p = [ResourceStorage \<mapsto> q] \<and> \<not> libIsZero L q)) ps \<and>
    map pvcStorageClassName ps =
      map (\<lambda>f. vsStorageClassName (f (spStorage (piSpec inst)))) [stData, stMedia, stConsume, stExport] \<and>
    map (\<lambda>v. volClaimName v) (paperlessVolumes inst) = map (\<lambda>p. Some (omName (pvcMeta p))) ps \<and>
    map vmName (paperlessVolumeMounts inst) = map volName (paperlessVolumes inst) \<and>
    distinct (map vmName (paperlessVolumeMounts inst)) \<and>
    distinct (map vmMountPath (paperlessVolumeMounts inst))"
proof -
  obtain ps where ps: "PVCs L inst = Value ps" and w: "distinct (map (\<lambda>p. omName (pvcMeta p)) ps)"
    "list_all (\<lambda>p. pvcAccessModes p \<noteq> [] \<and> (\<exists>q. pvcRequests p = [ResourceStorage \<mapsto> q] \<and> \<not> libIsZero L q)) ps"
    "map pvcStorageClassName ps =
      map (\<lambda>f. vsStorageClassName (f (spStorage (piSpec inst)))) [stData, stMedia, stConsume, stExport]"
    using claims_wellformed [OF assms, of inst] by blast
  have "map (\<lambda>v. volClaimName v) (paperlessVolumes inst) = map (\<lambda>p. Some (omName (pvcMeta p))) ps"
    using PVCs_built [OF ps]
    by (auto simp: paperlessVolumes_def paperlessVolumeSpecs_def Let_def builder_simps)
  moreover have "map vmName (paperlessVolumeMounts inst) = map volName (paperlessVolumes inst)"
    "distinct (map vmName (paperlessVolumeMounts inst))" "distinct (map vmMountPath (paperlessVolumeMounts inst))"
    by (simp_all add: paperlessVolumes_def paperlessVolumeMounts_def paperlessVolumeSpecs_def)
  ultimately show ?thesis using ps w by blast
qed

theorem volumes_bind_the_claims_witness:
  "map (\<lambda>v. volClaimName v) (paperlessVolumes (bare_instance ''docs'' ''ns'' ''u'')) =
     [Some ''docs-data'', Some ''docs-media'', Some ''docs-consume'', Some ''docs-export'']"
proof -
  let ?i = "bare_instance ''docs'' ''ns'' ''u''"
  obtain ps where ps: "PVCs ref_lib ?i = Value ps"
    and v: "map (\<lambda>v. volClaimName v) (paperlessVolumes ?i) = map (\<lambda>p. Some (omName (pvcMeta p))) ps"
    using volumes_bind_the_claims [OF ref_quantity_laws, of ?i] by blast
  show ?thesis
    unfolding v using PVCs_built [OF ps]
    by (auto simp: Let_def builder_simps name_defs derivedName_def bare_instance_def)
qed

text \<open>
  C32: A Service reaches its own pods and no others: the Paperless Service of one instance
  selects the Paperless pods of another exactly when the instances have the same name, never
  selects a cache pod, and the cache's Service never selects a Paperless pod. Its ports lead
  to the ports the container opens.
\<close>

theorem services_reach_their_own_pods:
  "(selects (PaperlessService a) (PaperlessDeployment L b) \<longleftrightarrow> inst_name a = inst_name b) \<and>
   map spTargetPort (svcPorts (PaperlessService a)) =
     map FromInt32 (container_ports (PaperlessDeployment L a)) \<and>
   (case (ValkeyService a, ValkeyDeployment a, ValkeyDeployment b) of
      (Some s, Some d, Some d') \<Rightarrow>
        (selects s d' \<longleftrightarrow> inst_name a = inst_name b) \<and> \<not> selects (PaperlessService a) d' \<and>
        \<not> selects s (PaperlessDeployment L b) \<and>
        map spTargetPort (svcPorts s) = map FromInt32 (container_ports d)
    | _ \<Rightarrow> True)"
proof -
  have "\<not> selects (PaperlessService a) d" if "ValkeyDeployment b = Some d" for d
    using paperless.foreign_pods [of a "PaperlessService a" d b "''cache''"] valkey.pods [OF that]
    by simp
  moreover have "\<not> selects s (PaperlessDeployment L b)" if "ValkeyService a = Some s" for s
    using valkey.foreign_pods [OF that, of "PaperlessDeployment L b" b "''server''"] paperless.pods [of L b]
    by simp
  ultimately show ?thesis
    using paperless.selects_iff [of a _ L b] paperless.ports [of L a] valkey.selects_iff [of a _ b]
      valkey.ports [of a]
    by (auto split: option.splits)
qed

text \<open>
  C35: The cache the workload is told to use is the cache the operator runs: the address names the
  Service of the managed cache and the port it listens on, and the volume of the cache's pod
  binds the claim built for it. With an external cache none of the three objects is built.
\<close>

theorem cache_coherent:
  assumes "quantity_laws L"
  shows "if IsManaged (spCache (piSpec inst)) then
      \<exists>d s p. ValkeyDeployment inst = Some d \<and> ValkeyService inst = Some s \<and>
        ValkeyPVC L inst = Value (Some p) \<and>
        map (\<lambda>sp. env_value ''PAPERLESS_REDIS''
               (''redis://'' @ omName (svcMeta s) @ '':'' @ Itoa (sint (spPort sp)))) (svcPorts s)
          = [cacheEnv inst] \<and>
        map volClaimName (psVolumes (ptSpec (dsTemplate (depSpec d)))) = [Some (omName (pvcMeta p))]
    else ValkeyDeployment inst = None \<and> ValkeyService inst = None \<and> ValkeyPVC L inst = Value None \<and>
      (case caURLSecretRef (spCache (piSpec inst)) of
         Some ref \<Rightarrow> secret_source (cacheEnv inst) = Some (skName ref, skKey ref)
       | None \<Rightarrow> cacheEnv inst = env_value ''PAPERLESS_REDIS'' (caURL (spCache (piSpec inst))))"
proof (cases "IsManaged (spCache (piSpec inst))")
  case True
  then obtain d s where ds: "ValkeyDeployment inst = Some d" "ValkeyService inst = Some s"
    by (metis ValkeyDeployment_None ValkeyService_None not_None_eq)
  with True ValkeyPVC_value [OF assms, of inst] show ?thesis
    by (simp add: builder_simps cacheEnv_def)
next
  case False
  with ValkeyPVC_value [OF assms, of inst] show ?thesis
    by (simp add: cacheEnv_def split: option.split)
qed

theorem cache_coherent_witness:
  "\<exists>d s p. ValkeyDeployment (bare_instance ''docs'' ''ns'' ''u'') = Some d \<and>
     ValkeyService (bare_instance ''docs'' ''ns'' ''u'') = Some s \<and>
     ValkeyPVC ref_lib (bare_instance ''docs'' ''ns'' ''u'') = Value (Some p)"
proof -
  have "IsManaged (spCache (piSpec (bare_instance ''docs'' ''ns'' ''u'')))"
    by (simp add: IsManaged_def bare_instance_def zero_spec_def)
  then show ?thesis
    using cache_coherent [OF ref_quantity_laws, of "bare_instance ''docs'' ''ns'' ''u''"] by auto
qed

text \<open>
  Two instances of one namespace with different names can still claim the same objects: when
  the second is called after the cache of the first, the first's cache Deployment and Service
  and the second's Paperless Deployment and Service are pairwise the same objects of the
  cluster, although they run different pods.
\<close>

lemma instance_names_can_collide:
  assumes "inst_name b = ValkeyName a" and "inst_ns b = inst_ns a"
    and "ValkeyDeployment a = Some d" and "ValkeyService a = Some s"
  shows "inst_name a \<noteq> inst_name b \<and>
    omName (depMeta d) = omName (depMeta (PaperlessDeployment L b)) \<and>
    omNamespace (depMeta d) = omNamespace (depMeta (PaperlessDeployment L b)) \<and>
    omName (svcMeta s) = omName (svcMeta (PaperlessService b)) \<and>
    omNamespace (svcMeta s) = omNamespace (svcMeta (PaperlessService b)) \<and>
    depSpec d \<noteq> depSpec (PaperlessDeployment L b)"
proof -
  have "ptLabels (dsTemplate (depSpec d)) \<noteq> ptLabels (dsTemplate (depSpec (PaperlessDeployment L b)))"
    using valkey.pods [OF assms(3)] paperless.pods [of L b] by (simp add: commonLabels_inj)
  then have "depSpec d \<noteq> depSpec (PaperlessDeployment L b)" by auto
  with assms show ?thesis
    by (simp add: builder_simps PaperlessDeployment_def PaperlessService_def ValkeyName_def
        derivedName_def Let_def)
qed

end
