(* ===== verification/Controller_Steps.thy ===== *)
theory Controller_Steps
  imports Deletion_Policy Workload
begin

text \<open>
  \<open>internal/controller/paperlessinstance_controller.go\<close>, the five steps a reconciliation runs:
  secrets, storage, database, cache, workload. A step that sets a condition of the instance
  returns the instance with it; the pair of a bool and an error of Go is a sum, its error
  on the left.
\<close>

section \<open>Secrets\<close>

text \<open>\<open>if err := call; err != nil { return fmt.Errorf("<context>: %w", err) }\<close>\<close>

abbreviation wrapped :: "string \<Rightarrow> err prog \<Rightarrow> err prog \<Rightarrow> err prog" where
  "wrapped context call rest \<equiv> check call (\<lambda>e. Some (ErrorWrap context e)) rest"

text \<open>The error of a call whose object is not read again.\<close>

definition error_of :: "(gerror + 'a) prog \<Rightarrow> err prog" where
  "error_of p = bind p (\<lambda>r. case r of Inl e \<Rightarrow> Done (Some e) | Inr x \<Rightarrow> Done None)"

definition ensureGeneratedSecret ::
    "Lib \<Rightarrow> PaperlessInstance \<Rightarrow> string \<Rightarrow> (PaperlessInstance \<Rightarrow> (gerror + Secret option) prog) \<Rightarrow>
     err prog" where
  "ensureGeneratedSecret L inst name build =
     GetSecret \<lparr>okNamespace = inst_ns inst, okName = name\<rparr> (\<lambda>r. case r of
       Inr existing \<Rightarrow> reconcileSecretOwnership L inst existing
     | Inl err \<Rightarrow>
         if \<not> libIsNotFound L (Some err) then Done (Some (ErrorWrap (''getting secret '' @ name) err))
         else bind (build inst) (\<lambda>r. case r of
             Inl err \<Rightarrow> Done (Some err)
           | Inr None \<Rightarrow> Done None
           | Inr (Some secret) \<Rightarrow>
               (case (if DeletionPolicyOrDefault (piSpec inst) = DeletionPolicyDelete
                      then (case libSetControllerReference L inst (secMeta secret) of
                              Inl e \<Rightarrow> Inl (ErrorWrap ''setting owner reference'' e)
                            | Inr m \<Rightarrow> Inr (secret\<lparr>secMeta := m\<rparr>))
                      else Inr secret) of
                  Inl e \<Rightarrow> Done (Some e)
                | Inr secret \<Rightarrow> CreateSecret secret (\<lambda>r. case r of
                    Some e \<Rightarrow> Done (Some (ErrorWrap (''creating secret '' @ name) e))
                  | None \<Rightarrow> Done None))))"

definition reconcileSecrets :: "Lib \<Rightarrow> PaperlessInstance \<Rightarrow> err prog" where
  "reconcileSecrets L inst =
     wrapped ''ensuring secret key'' (ensureGeneratedSecret L inst (SecretKeyName inst) (SecretKey L))
    (wrapped ''ensuring admin secret'' (ensureGeneratedSecret L inst (AdminSecretName inst) (AdminSecret L))
    (Done None))"

section \<open>Storage\<close>

primrec applyPVCs :: "Lib \<Rightarrow> PaperlessInstance \<Rightarrow> PersistentVolumeClaim list \<Rightarrow> err prog" where
  "applyPVCs L inst [] = Done None"
| "applyPVCs L inst (pvc # pvcs) =
     wrapped (''applying PVC '' @ omName (pvcMeta pvc)) (error_of (applyStateful L inst (OPVC pvc)))
       (applyPVCs L inst pvcs)"

definition reconcileStorage :: "Lib \<Rightarrow> PaperlessInstance \<Rightarrow> err prog" where
  "reconcileStorage L inst = bind (lift_go (PVCs L inst)) (applyPVCs L inst)"

section \<open>Database\<close>

definition external_secret_key :: "PaperlessInstance \<Rightarrow> ExternalDatabase \<Rightarrow> ObjectKey" where
  "external_secret_key inst ext =
     \<lparr>okNamespace = inst_ns inst, okName = lrName (edCredentialsSecretRef ext)\<rparr>"

primrec requireKeys ::
    "Lib \<Rightarrow> PaperlessInstance \<Rightarrow> ExternalDatabase \<Rightarrow> Secret \<Rightarrow> string list \<Rightarrow>
     (PaperlessInstance \<times> (gerror + bool)) prog" where
  "requireKeys L inst ext secret [] =
     bind (SetCondition L inst ConditionDatabaseReady ConditionTrue
       ''ExternalDatabaseConfigured'' ''using the externally configured database'')
       (\<lambda>inst. Done (inst, Inr True))"
| "requireKeys L inst ext secret (key # keys) =
     (if secData secret key \<noteq> None then requireKeys L inst ext secret keys
      else bind (SetCondition L inst ConditionDatabaseReady ConditionFalse
        ''ExternalDatabaseSecretInvalid''
        (''secret '' @ Quote (lrName (edCredentialsSecretRef ext)) @ '' is missing required key '' @ Quote key))
        (\<lambda>inst. Done (inst, Inr False)))"

definition reconcileExternalDatabase ::
    "Lib \<Rightarrow> PaperlessInstance \<Rightarrow> ExternalDatabase \<Rightarrow> (PaperlessInstance \<times> (gerror + bool)) prog" where
  "reconcileExternalDatabase L inst ext =
     GetSecret (external_secret_key inst ext) (\<lambda>r.
       let err = (case r of Inl e \<Rightarrow> Some e | Inr secret \<Rightarrow> None) in
       if libIsNotFound L err
       then bind (SetCondition L inst ConditionDatabaseReady ConditionFalse
           ''ExternalDatabaseSecretMissing''
           (''secret '' @ Quote (lrName (edCredentialsSecretRef ext)) @
            '' referenced by spec.database.external.credentialsSecretRef does not exist''))
           (\<lambda>inst. Done (inst, Inr False))
       else (case r of
           Inl e \<Rightarrow> Done (inst, Inl (ErrorWrap ''getting external database secret'' e))
         | Inr secret \<Rightarrow> requireKeys L inst ext secret [''username'', ''password'']))"

definition cnpgCRDName :: string where
  "cnpgCRDName = ''clusters.postgresql.cnpg.io''"

definition cnpgInstalled :: "Lib \<Rightarrow> (gerror + bool) prog" where
  "cnpgInstalled L = GetCRD cnpgCRDName (\<lambda>err. case err of
       None \<Rightarrow> Done (Inr True)
     | Some e \<Rightarrow> if libIsNotFound L err then Done (Inr False) else Done (Inl e))"

definition reconcileManagedDatabase ::
    "Lib \<Rightarrow> PaperlessInstance \<Rightarrow> (PaperlessInstance \<times> (gerror + bool)) prog" where
  "reconcileManagedDatabase L inst = bind (cnpgInstalled L) (\<lambda>r. case r of
       Inl e \<Rightarrow> Done (inst, Inl (ErrorWrap ''checking for CloudNativePG'' e))
     | Inr False \<Rightarrow>
         bind (SetCondition L inst ConditionDatabaseReady ConditionFalse ''CloudNativePGMissing''
           (''install CloudNativePG (https://cloudnative-pg.io) to let the operator manage this instance's '' @
            ''database, or configure spec.database.external to use one already running''))
           (\<lambda>inst. Done (inst, Inr False))
     | Inr True \<Rightarrow> bind (lift_go (CNPGCluster L inst)) (\<lambda>r. case r of
           Inl e \<Rightarrow> Done (inst, Inl (ErrorWrap ''building CloudNativePG cluster'' e))
         | Inr cluster \<Rightarrow>
             bind (error_of (applyStateful L inst (OUnstructured cluster))) (\<lambda>r. case r of
               Some e \<Rightarrow> Done (inst, Inl (ErrorWrap ''applying CloudNativePG cluster'' e))
             | None \<Rightarrow>
                 bind (SetCondition L inst ConditionDatabaseReady ConditionTrue
                   ''CloudNativePGClusterApplied'' ''the managed CloudNativePG cluster has been applied'')
                   (\<lambda>inst. Done (inst, Inr True)))))"

definition reconcileDatabase ::
    "Lib \<Rightarrow> PaperlessInstance \<Rightarrow> (PaperlessInstance \<times> (gerror + bool)) prog" where
  "reconcileDatabase L inst =
     (case dbExternal (spDatabase (piSpec inst)) of
        Some ext \<Rightarrow> reconcileExternalDatabase L inst ext
      | None \<Rightarrow> reconcileManagedDatabase L inst)"

section \<open>Cache\<close>

definition reconcileCache :: "Lib \<Rightarrow> PaperlessInstance \<Rightarrow> err prog" where
  "reconcileCache L inst =
     wrapped ''applying valkey deployment''
       (case ValkeyDeployment inst of
          Some dep \<Rightarrow> error_of (applyOwned L inst (ODeployment dep)) | None \<Rightarrow> Done None)
    (wrapped ''applying valkey service''
       (case ValkeyService inst of
          Some svc \<Rightarrow> error_of (applyOwned L inst (OService svc)) | None \<Rightarrow> Done None)
    (bind (lift_go (ValkeyPVC L inst)) (\<lambda>pvc.
     wrapped ''applying valkey PVC''
       (case pvc of
          Some pvc \<Rightarrow> error_of (applyOwned L inst (OPVC pvc)) | None \<Rightarrow> Done None)
    (Done None))))"

section \<open>Workload\<close>

text \<open>
  The patch writes the server's response back into \<open>dep\<close>. A response of another kind, which
  the client's decoder does not produce, leaves it as it was.
\<close>

definition response_deployment :: "Deployment \<Rightarrow> kobject \<Rightarrow> Deployment" where
  "response_deployment dep obj = (case obj of ODeployment d \<Rightarrow> d | _ \<Rightarrow> dep)"

definition reconcileWorkload :: "Lib \<Rightarrow> PaperlessInstance \<Rightarrow> (PaperlessInstance \<times> err) prog" where
  "reconcileWorkload L inst =
     bind (error_of (applyOwned L inst (OService (PaperlessService inst)))) (\<lambda>r. case r of
       Some e \<Rightarrow> Done (inst, Some (ErrorWrap ''applying service'' e))
     | None \<Rightarrow>
         let dep = PaperlessDeployment L inst in
         bind (applyOwned L inst (ODeployment dep)) (\<lambda>r. case r of
           Inl e \<Rightarrow> Done (inst, Some (ErrorWrap ''applying deployment'' e))
         | Inr obj \<Rightarrow>
             let dep = response_deployment dep obj;
                 (status, reason, message) =
                   (if 1 \<le> sint (depReadyReplicas dep)
                    then (ConditionTrue, ''WorkloadReady'', ''the Deployment reports at least one ready replica'')
                    else (ConditionFalse, ''WorkloadNotReady'',
                          ''waiting for the Deployment to report a ready replica''))
             in bind (SetCondition L inst ConditionReady status reason message)
                  (\<lambda>inst. Done (inst, None))))"

end
