(* ===== verification/Step_Contract.thy ===== *)
theory Step_Contract
  imports Controller_Steps
begin

text \<open>
  What a step of the reconciliation promises. \<open>step_event\<close> is the abstract specification of
  the requests each step may issue: which objects, with which owners, in which way. The
  locale \<open>reconcile_step\<close> is the contract between a step and the reconciler that runs it; each
  of the five steps of \<open>Controller_Steps\<close> is an instance.
\<close>

section \<open>The laws of the libraries, together\<close>

definition lib_laws :: "Lib \<Rightarrow> bool" where
  "lib_laws L \<longleftrightarrow> quantity_laws L \<and> condition_laws L \<and> not_found_laws L \<and> owner_laws L \<and>
     json_laws L \<and> object_laws L \<and> unstructured_laws L"

lemma lib_lawsD:
  assumes "lib_laws L"
  shows "quantity_laws L" "condition_laws L" "not_found_laws L" "owner_laws L" "json_laws L"
    "object_laws L" "unstructured_laws L"
  using assms by (simp_all add: lib_laws_def)

lemma ref_lib_laws [simp]: "lib_laws ref_lib"
  by (simp add: lib_laws_def)

section \<open>The five steps, in their order\<close>

datatype step = StSecrets | StStorage | StDatabase | StCache | StWorkload

fun step_index :: "step \<Rightarrow> nat" where
  "step_index StSecrets = 0"
| "step_index StStorage = 1"
| "step_index StDatabase = 2"
| "step_index StCache = 3"
| "step_index StWorkload = 4"

lemma step_index_inj: "step_index a = step_index b \<Longrightarrow> a = b"
  by (cases a; cases b) simp_all

instantiation step :: linorder
begin

definition less_eq_step :: "step \<Rightarrow> step \<Rightarrow> bool" where
  "less_eq_step a b \<longleftrightarrow> step_index a \<le> step_index b"

definition less_step :: "step \<Rightarrow> step \<Rightarrow> bool" where
  "less_step a b \<longleftrightarrow> step_index a < step_index b"

instance
  by standard (auto simp: less_eq_step_def less_step_def intro: step_index_inj)

end

section \<open>What each step may request\<close>

text \<open>The objects a step applies, and the owner they are given.\<close>

fun step_objects :: "Lib \<Rightarrow> PaperlessInstance \<Rightarrow> step \<Rightarrow> kobject list" where
  "step_objects L inst StSecrets = []"
| "step_objects L inst StStorage = claim_objects L inst"
| "step_objects L inst StDatabase =
     (if IsExternal (spDatabase (piSpec inst)) then [] else cluster_objects L inst)"
| "step_objects L inst StCache = cache_objects L inst"
| "step_objects L inst StWorkload = workload_objects L inst"

fun step_owners :: "PaperlessInstance \<Rightarrow> step \<Rightarrow> OwnerReference list" where
  "step_owners inst StCache = [controller_ref inst]"
| "step_owners inst StWorkload = [controller_ref inst]"
| "step_owners inst s = stateful_owners inst"

definition generated_secret_names :: "PaperlessInstance \<Rightarrow> string list" where
  "generated_secret_names inst = [SecretKeyName inst, AdminSecretName inst]"

text \<open>
  A request is allowed to a step: reading the clock always; reading the two generated
  secrets, drawing randomness, creating a generated secret with the owners of the policy
  and patching a secret's owners, to those of the policy when it is in the instance's
  namespace, to the secrets step; the secret of an external database or
  the definition of the cluster kind to the database step; a forced apply of one of the
  step's objects, with the step's owners stated in the body, to the other steps.
\<close>

fun step_event :: "Lib \<Rightarrow> PaperlessInstance \<Rightarrow> step \<Rightarrow> event \<Rightarrow> bool" where
  "step_event L inst s (EvNow t) \<longleftrightarrow> True"
| "step_event L inst s (EvGetSecret k r) \<longleftrightarrow>
     s = StSecrets \<and> okNamespace k = inst_ns inst \<and> okName k \<in> set (generated_secret_names inst) \<or>
     s = StDatabase \<and> (\<exists>ext. dbExternal (spDatabase (piSpec inst)) = Some ext \<and> k = external_secret_key inst ext)"
| "step_event L inst s (EvGetCRD n r) \<longleftrightarrow>
     s = StDatabase \<and> dbExternal (spDatabase (piSpec inst)) = None \<and> n = cnpgCRDName"
| "step_event L inst s (EvReadRand n r) \<longleftrightarrow> s = StSecrets"
| "step_event L inst s (EvCreateSecret sec r) \<longleftrightarrow>
     s = StSecrets \<and> omName (secMeta sec) \<in> set (generated_secret_names inst) \<and>
     omNamespace (secMeta sec) = inst_ns inst \<and> omOwnerReferences (secMeta sec) = stateful_owners inst"
| "step_event L inst s (EvPatchMerge sec b o' r) \<longleftrightarrow>
     s = StSecrets \<and> o' = fieldOwner \<and>
     (\<exists>refs. libUnmarshalMap L b = Inr (Some (ownership_patch refs)) \<and>
        (omNamespace (secMeta sec) = inst_ns inst \<longrightarrow> refs = stateful_owners inst))"
| "step_event L inst s (EvPatchApply obj b o' fo r) \<longleftrightarrow>
     o' = fieldOwner \<and> fo \<and> body_ok L obj b \<and>
     (\<exists>x \<in> set (step_objects L inst s). obj = with_refs (step_owners inst s) x)"
| "step_event L inst s (EvGetInstance k r) \<longleftrightarrow> False"
| "step_event L inst s (EvPatchStatus i i' r) \<longleftrightarrow> False"

text \<open>Only the conditions of these types change, and nothing else of the instance.\<close>

definition frame :: "string set \<Rightarrow> PaperlessInstance \<Rightarrow> PaperlessInstance \<Rightarrow> bool" where
  "frame tys inst inst' \<longleftrightarrow>
     only_conditions inst inst' \<and> (\<forall>ty. ty \<in> tys \<or> cond inst' ty = cond inst ty)"

lemma frame_refl [simp]: "frame tys inst inst"
  by (simp add: frame_def)

lemma frame_trans: "frame tys a b \<Longrightarrow> frame tys' b c \<Longrightarrow> frame (tys \<union> tys') a c"
  unfolding frame_def by (metis UnCI only_conditions_trans)

lemma frame_mono: "frame tys a b \<Longrightarrow> tys \<subseteq> tys' \<Longrightarrow> frame tys' a b"
  unfolding frame_def by auto

lemma frame_only: "frame tys a b \<Longrightarrow> only_conditions a b"
  by (simp add: frame_def)

lemma frame_keeps: "frame tys a b \<Longrightarrow> piMeta b = piMeta a \<and> piSpec b = piSpec a"
  using only_conditions_sel [of a b] by (simp add: frame_def)

lemma frame_set_at: "condition_laws L \<Longrightarrow> ty \<in> tys \<Longrightarrow> frame tys inst (set_at L t inst ty st re m)"
  by (auto simp: frame_def cond_set_at)

section \<open>Builders do not look at the status\<close>

text \<open>Whatever is put in its place.\<close>

lemma status_sel:
  "piMeta (inst\<lparr>piStatus := st\<rparr>) = piMeta inst"
  "piSpec (inst\<lparr>piStatus := st\<rparr>) = piSpec inst"
  by simp_all

lemma names_any_status:
  "derivedName (inst\<lparr>piStatus := st\<rparr>) s = derivedName inst s"
  "SecretKeyName (inst\<lparr>piStatus := st\<rparr>) = SecretKeyName inst"
  "AdminSecretName (inst\<lparr>piStatus := st\<rparr>) = AdminSecretName inst"
  "commonLabels (inst\<lparr>piStatus := st\<rparr>) c = commonLabels inst c"
  "buildPVC (inst\<lparr>piStatus := st\<rparr>) = buildPVC inst"
  by (simp_all add: derivedName_def name_defs commonLabels_def buildPVC_def fun_eq_iff)

lemma owners_any_status:
  "controller_ref (inst\<lparr>piStatus := st\<rparr>) = controller_ref inst"
  "stateful_owners (inst\<lparr>piStatus := st\<rparr>) = stateful_owners inst"
  "external_secret_key (inst\<lparr>piStatus := st\<rparr>) ext = external_secret_key inst ext"
  "generated_secret_names (inst\<lparr>piStatus := st\<rparr>) = generated_secret_names inst"
  by (simp_all add: controller_ref_def stateful_owners_def external_secret_key_def
      generated_secret_names_def names_any_status)

lemma claims_any_status: "claim_objects L (inst\<lparr>piStatus := st\<rparr>) = claim_objects L inst"
  unfolding claim_objects_def PVCs_def volumePVC_def name_defs status_sel names_any_status by (rule refl)

lemma cluster_any_status: "cluster_objects L (inst\<lparr>piStatus := st\<rparr>) = cluster_objects L inst"
  unfolding cluster_objects_def CNPGCluster_def name_defs status_sel names_any_status by (rule refl)

lemma cache_any_status: "cache_objects L (inst\<lparr>piStatus := st\<rparr>) = cache_objects L inst"
  unfolding cache_objects_def ValkeyDeployment_def ValkeyService_def ValkeyPVC_def
      valkeyLabels_def name_defs status_sel names_any_status by (rule refl)

lemma env_any_status: "workloadEnv L (inst\<lparr>piStatus := st\<rparr>) = workloadEnv L inst"
  unfolding workloadEnv_def operatorEnv_def allowedHosts_def allowedHostsList_def
      serviceDNSNames_def secretKeyEnv_def cacheEnv_def adminEnv_def DatabaseEnv_def
      cnpgAppSecretName_def cnpgServiceName_def name_defs status_sel names_any_status by (rule refl)

lemma workload_any_status: "workload_objects L (inst\<lparr>piStatus := st\<rparr>) = workload_objects L inst"
  unfolding workload_objects_def PaperlessService_def PaperlessDeployment_def workloadLabels_def
      paperlessContainer_def paperlessVolumes_def paperlessVolumeMounts_def paperlessVolumeSpecs_def
      name_defs status_sel names_any_status env_any_status by (rule refl)

lemmas any_status = names_any_status owners_any_status claims_any_status cluster_any_status
  cache_any_status env_any_status workload_any_status

lemma ignore_conditions [simp]:
  "derivedName (PutConditions cs inst) s = derivedName inst s"
  "SecretKeyName (PutConditions cs inst) = SecretKeyName inst"
  "AdminSecretName (PutConditions cs inst) = AdminSecretName inst"
  "commonLabels (PutConditions cs inst) c = commonLabels inst c"
  "buildPVC (PutConditions cs inst) = buildPVC inst"
  "controller_ref (PutConditions cs inst) = controller_ref inst"
  "stateful_owners (PutConditions cs inst) = stateful_owners inst"
  "external_secret_key (PutConditions cs inst) ext = external_secret_key inst ext"
  "generated_secret_names (PutConditions cs inst) = generated_secret_names inst"
  "claim_objects L (PutConditions cs inst) = claim_objects L inst"
  "cluster_objects L (PutConditions cs inst) = cluster_objects L inst"
  "cache_objects L (PutConditions cs inst) = cache_objects L inst"
  "workloadEnv L (PutConditions cs inst) = workloadEnv L inst"
  "workload_objects L (PutConditions cs inst) = workload_objects L inst"
  by (simp_all only: PutConditions_def any_status)

lemma step_event_ignores_status:
  assumes "only_conditions inst inst'"
  shows "step_event L inst' = step_event L inst"
proof -
  from assms obtain cs where [simp]: "inst' = PutConditions cs inst"
    by (auto simp: only_conditions_def)
  have [simp]: "step_objects L (PutConditions cs inst) s = step_objects L inst s"
      "step_owners (PutConditions cs inst) s = step_owners inst s" for s
    by (cases s; simp)+
  show ?thesis
  proof (intro ext)
    fix s e show "step_event L inst' s e = step_event L inst s e"
      by (cases e) simp_all
  qed
qed

section \<open>The requests of each part\<close>

lemma step_objects_fresh:
  "x \<in> set (step_objects L inst s) \<Longrightarrow> fresh_for inst x"
  by (cases s)
     (auto simp: fresh_for_def claims.no_owner claims.own_namespace clusters.no_owner
       clusters.own_namespace caches.no_owner caches.own_namespace workloads.no_owner
       workloads.own_namespace split: if_splits)

lemma step_objects_typed: "x \<in> set (step_objects L inst s) \<Longrightarrow> typed_object x"
  by (cases s)
     (auto simp: claim_objects_def cluster_objects_def cache_objects_def workload_objects_def
       cnpgKind_def cnpgAPIVersion_def
       split: go.splits sum.splits option.splits if_splits dest!: CNPGCluster_meta [OF sym])

lemma safe_Apply:
  assumes L: "lib_laws L" and T: "typed_object obj"
    and P: "\<And>b r. body_ok L obj b \<Longrightarrow> P (EvPatchApply obj b fieldOwner True r)"
  shows "safe P (Apply L obj)"
proof -
  obtain b p where "body_ok L obj b" and eq: "Apply L obj = PatchApply obj b fieldOwner True
      (\<lambda>r. Done (case r of Inl e \<Rightarrow> Inl (ErrorWrap p e) | Inr obj' \<Rightarrow> Inr obj'))"
    using Apply_value [OF lib_lawsD(6) [OF L] lib_lawsD(5) [OF L] T] .
  then show ?thesis by (simp add: P)
qed

lemma safe_applyOwned:
  assumes "lib_laws L" and "x \<in> set (step_objects L inst s)" and "step_owners inst s = [controller_ref inst]"
  shows "safe (step_event L inst s) (applyOwned L inst x)"
  using assms step_objects_fresh [OF assms(2)] step_objects_typed [OF assms(2)]
  by (auto simp: applyOwned_fresh lib_lawsD(4) intro!: safe_Apply bexI [of _ x])

lemma safe_applyStateful:
  assumes "lib_laws L" and "x \<in> set (step_objects L inst s)" and "step_owners inst s = stateful_owners inst"
  shows "safe (step_event L inst s) (applyStateful L inst x)"
  using assms step_objects_fresh [OF assms(2)] step_objects_typed [OF assms(2)]
  by (auto simp: applyStateful_fresh lib_lawsD(4) intro!: safe_Apply bexI [of _ x])

lemma safe_error_of [emits_intros]: "safe P p \<Longrightarrow> safe P (error_of p)"
  unfolding error_of_def by (rule safe_bind) (auto split: sum.split)

lemma safe_SetCondition [simp]: "safe (step_event L inst s) (SetCondition L i ty st re m)"
  by (simp add: SetCondition_def)

lemma safe_mono: "safe P p \<Longrightarrow> (\<And>e. P e \<Longrightarrow> Q e) \<Longrightarrow> safe Q p"
  unfolding safe_def by (erule wp_mono) (auto simp: list_all_iff)

subsection \<open>Secrets\<close>

text \<open>A request that touches nothing of the secret but its owners.\<close>

definition only_owners_of :: "Lib \<Rightarrow> PaperlessInstance \<Rightarrow> Secret \<Rightarrow> event \<Rightarrow> bool" where
  "only_owners_of L inst s ev \<longleftrightarrow>
     (\<exists>b r refs. ev = EvPatchMerge s b fieldOwner r \<and>
        libUnmarshalMap L b = Inr (Some (ownership_patch refs)) \<and>
        (omNamespace (secMeta s) = inst_ns inst \<longrightarrow> refs = stateful_owners inst))"

text \<open>
  All that is done about a secret that exists: nothing when its owners match the policy, and
  one patch of its owners when they do not, whose error is the result's.
\<close>

definition ownership_log :: "Lib \<Rightarrow> PaperlessInstance \<Rightarrow> Secret \<Rightarrow> event list \<Rightarrow> err go \<Rightarrow> bool" where
  "ownership_log L inst s es x \<longleftrightarrow> length es \<le> 1 \<and> list_all (only_owners_of L inst s) es \<and>
     (if owns_matches L inst s then es = [] \<and> x = Value None
      else omNamespace (secMeta s) = inst_ns inst \<longrightarrow>
        (\<exists>b r. es = [EvPatchMerge s b fieldOwner r] \<and> (x = Value None) = (r = None)))"

lemma ownership_requests:
  assumes "lib_laws L"
  shows "wp (reconcileSecretOwnership L inst s) (\<lambda>es x. is_value x \<and> ownership_log L inst s es x)"
proof -
  consider (same) "owns_matches L inst s"
    | (here) "\<not> owns_matches L inst s" "omNamespace (secMeta s) = inst_ns inst"
    | (elsewhere) "\<not> owns_matches L inst s" "omNamespace (secMeta s) \<noteq> inst_ns inst" by blast
  then show ?thesis
  proof cases
    case same
    then show ?thesis by (simp add: ownership_matches_noop ownership_log_def)
  next
    case here
    obtain b p where "libUnmarshalMap L b = Inr (Some (ownership_patch (stateful_owners inst)))"
      and "reconcileSecretOwnership L inst s = PatchMerge s b fieldOwner
          (\<lambda>r. Done (case r of Some e \<Rightarrow> Some (ErrorWrap p e) | None \<Rightarrow> None))"
      using reconcileSecretOwnership_patch [OF lib_lawsD(5,4) [OF assms] here(2,1)] .
    then show ?thesis
      using here by (auto simp: ownership_log_def only_owners_of_def split: option.split)
  next
    case elsewhere
    have own: "ownerReferencesJSON L refs = Inr (map (\<lambda>r. JObj (owner_reference_map r)) refs)" for refs
      by (rule ownerReferencesJSON_value [OF lib_lawsD(5) [OF assms]])
    have "\<exists>b. libMarshalJSON L (JObj (ownership_patch refs)) = Inr b \<and>
        libUnmarshalMap L b = Inr (Some (ownership_patch refs))" for refs
      using marshal_map [OF lib_lawsD(5) [OF assms]] by metis
    then obtain body where body: "libMarshalJSON L (JObj (ownership_patch refs)) = Inr (body refs)"
        "libUnmarshalMap L (body refs) = Inr (Some (ownership_patch refs))" for refs
      by metis
    show ?thesis
      using elsewhere body body [of "[]"] unfolding reconcileSecretOwnership_def Let_def
      by (auto simp: own ownership_patch_def owners_json_def only_owners_of_def ownership_log_def
          split: sum.split option.split)
  qed
qed

lemma only_owners_step: "only_owners_of L inst s ev \<Longrightarrow> step_event L inst StSecrets ev"
  unfolding only_owners_of_def by (elim exE conjE) (simp, blast)

lemma safe_ownership:
  assumes "lib_laws L"
  shows "safe (step_event L inst StSecrets) (reconcileSecretOwnership L inst secret)"
  unfolding safe_def
  by (rule wp_mono [OF ownership_requests [OF assms]])
     (auto simp: ownership_log_def elim!: list.pred_mono_strong intro: only_owners_step)

context secret_builder
begin

lemma safe_ensure:
  assumes L: "lib_laws L" and n: "secret_name inst \<in> set (generated_secret_names inst)"
  shows "safe (step_event L inst StSecrets) (ensureGeneratedSecret L inst (secret_name inst) (build L))"
proof -
  have draw: "safe (step_event L inst StSecrets) (build L inst)"
    by (rule safe_mono [OF draws_only]) (auto simp: is_draw_def split: event.splits)
  have create: "safe (step_event L inst StSecrets) (case r of
             Inl err \<Rightarrow> Done (Some err)
           | Inr None \<Rightarrow> Done None
           | Inr (Some secret) \<Rightarrow>
               (case (if DeletionPolicyOrDefault (piSpec inst) = DeletionPolicyDelete
                      then (case libSetControllerReference L inst (secMeta secret) of
                              Inl e \<Rightarrow> Inl (ErrorWrap ''setting owner reference'' e)
                            | Inr m \<Rightarrow> Inr (secret\<lparr>secMeta := m\<rparr>))
                      else Inr secret) of
                  Inl e \<Rightarrow> Done (Some e)
                | Inr secret \<Rightarrow> CreateSecret secret (\<lambda>r. case r of
                    Some e \<Rightarrow> Done (Some (ErrorWrap (''creating secret '' @ secret_name inst) e))
                  | None \<Rightarrow> Done None)))"
    if "\<forall>s. r = Inr (Some s) \<longrightarrow> fresh_secret inst (secret_name inst) s" for r
    using that n lib_lawsD(4) [OF L]
    by (auto simp: fresh_secret_def owner_laws_def stateful_owners_def
        split: sum.split option.split)
  show ?thesis
    unfolding ensureGeneratedSecret_def
    using n create
    by (auto simp: safe_ownership [OF L] split: sum.split
        intro!: safe_result_bind [OF draw result_fresh])
qed

end

subsection \<open>Storage, database, cache and workload\<close>

lemma safe_applyPVCs:
  assumes "lib_laws L"
  shows "list_all (\<lambda>p. OPVC p \<in> set (claim_objects L inst)) ps \<Longrightarrow>
    safe (step_event L inst StStorage) (applyPVCs L inst ps)"
proof (induction ps)
  case (Cons p ps)
  then have "safe (step_event L inst StStorage) (applyStateful L inst (OPVC p))"
    by (intro safe_applyStateful [OF assms]) simp_all
  then show ?case using Cons by (auto intro: safe_check safe_error_of)
qed simp

lemma safe_reconcileStorage:
  assumes "lib_laws L"
  shows "safe (step_event L inst StStorage) (reconcileStorage L inst)"
proof -
  obtain ps where ps: "PVCs L inst = Value ps"
    using PVCs_value [OF lib_lawsD(1) [OF assms]] by blast
  then have "list_all (\<lambda>p. OPVC p \<in> set (claim_objects L inst)) ps"
    by (simp add: claim_objects_def list_all_iff)
  with ps show ?thesis by (simp add: reconcileStorage_def safe_applyPVCs [OF assms])
qed

lemma safe_requireKeys:
  "safe (step_event L inst s) (requireKeys L inst ext secret keys)"
  by (induction keys) (auto intro: safe_bind)

lemma safe_reconcileDatabase:
  assumes "lib_laws L"
  shows "safe (step_event L inst StDatabase) (reconcileDatabase L inst)"
proof (cases "dbExternal (spDatabase (piSpec inst))")
  case (Some ext)
  then show ?thesis
    by (auto simp: reconcileDatabase_def reconcileExternalDatabase_def Let_def
        intro!: safe_bind safe_requireKeys split: sum.split)
next
  case None
  obtain r where r: "CNPGCluster L inst = Value r"
    using CNPGCluster_valid [OF lib_lawsD(1) [OF assms] lib_lawsD(7) [OF assms]] CNPGCluster_invalid by metis
  have c: "safe (step_event L inst StDatabase) (applyStateful L inst (OUnstructured c))" if "r = Inr c" for c
    using None r that by (intro safe_applyStateful [OF assms]) (simp_all add: cluster_objects_def IsExternal_def)
  show ?thesis
    using None r
    by (auto simp: reconcileDatabase_def reconcileManagedDatabase_def cnpgInstalled_def
        intro!: safe_bind safe_error_of c split: sum.split option.split bool.split)
qed

lemma safe_reconcileCache:
  assumes "lib_laws L"
  shows "safe (step_event L inst StCache) (reconcileCache L inst)"
proof -
  note own = safe_applyOwned [OF assms, of _ inst StCache, simplified]
  note P = ValkeyPVC_value [OF lib_lawsD(1) [OF assms], of inst]
  show ?thesis
    unfolding reconcileCache_def P
    by (auto intro!: safe_check safe_error_of own simp: cache_objects_def P split: option.split)
qed

lemma safe_reconcileWorkload:
  assumes "lib_laws L"
  shows "safe (step_event L inst StWorkload) (reconcileWorkload L inst)"
proof -
  note own = safe_applyOwned [OF assms, of _ inst StWorkload, simplified]
  show ?thesis
    unfolding reconcileWorkload_def Let_def
    by (auto intro!: safe_bind safe_error_of own simp: workload_objects_def split: option.split sum.split)
qed

section \<open>The conditions each part sets\<close>

lemma bind_SetCondition:
  "bind (SetCondition L inst ty st re m) f = Now (\<lambda>t. f (set_at L t inst ty st re m))"
  by (simp add: SetCondition_def set_at_def)

lemma results_requireKeys:
  "condition_laws L \<Longrightarrow>
   results (\<lambda>x. frame {ConditionDatabaseReady} inst (fst x)) (requireKeys L inst ext secret keys)"
  by (induction keys) (auto simp: bind_SetCondition frame_set_at)

lemma results_reconcileDatabase:
  assumes "condition_laws L"
  shows "results (\<lambda>x. frame {ConditionDatabaseReady} inst (fst x)) (reconcileDatabase L inst)"
  unfolding reconcileDatabase_def reconcileExternalDatabase_def reconcileManagedDatabase_def Let_def
  using assms
  by (auto simp: bind_SetCondition frame_set_at results_requireKeys
      intro!: results_bind_any split: option.split sum.split bool.split)

lemma results_reconcileWorkload:
  assumes "condition_laws L"
  shows "results (\<lambda>x. frame {ConditionReady} inst (fst x)) (reconcileWorkload L inst)"
  unfolding reconcileWorkload_def Let_def
  using assms
  by (auto simp: bind_SetCondition frame_set_at
      intro!: results_bind_any split: option.split sum.split)

section \<open>The contract of a step\<close>

text \<open>
  A step gets the instance and returns it with the conditions it set, and an error, or
  whether the reconciliation may go on. Between the reconciler and its steps this is agreed:
  a step issues only the requests of \<open>step_event\<close> for its tag, does not panic, changes
  nothing of the instance but the conditions it is responsible for, and only a step that
  may wait for something stops the reconciliation without an error.
\<close>

locale reconcile_step =
  fixes L :: Lib and tag :: step
    and body :: "PaperlessInstance \<Rightarrow> (PaperlessInstance \<times> (gerror + bool)) prog"
    and touches :: "string set" and may_wait :: bool
  assumes requests: "lib_laws L \<Longrightarrow> safe (step_event L inst tag) (body inst)"
    and outcome: "lib_laws L \<Longrightarrow> results (\<lambda>x. frame touches inst (fst x)) (body inst)"
    and goes_on: "\<not> may_wait \<Longrightarrow> results (\<lambda>x. snd x \<noteq> Inr False) (body inst)"
begin

lemma contract:
  assumes "lib_laws L"
  shows "wp (body inst) (\<lambda>es x. list_all (step_event L inst tag) es \<and>
     (\<exists>inst' r. x = Value (inst', r) \<and> frame touches inst inst' \<and> (may_wait \<or> r \<noteq> Inr False)))"
proof -
  have "results (\<lambda>x. frame touches inst (fst x) \<and> (may_wait \<or> snd x \<noteq> Inr False)) (body inst)"
    using outcome [OF assms, of inst] goes_on [of inst] by (cases may_wait) (auto intro: results_conj)
  from safe_results [OF requests [OF assms] this] show ?thesis by (rule wp_mono) auto
qed

end

text \<open>The steps of the code in this form.\<close>

definition proceed :: "err \<Rightarrow> gerror + bool" where
  "proceed e = (case e of None \<Rightarrow> Inr True | Some e \<Rightarrow> Inl e)"

lemma proceed_simps [simp]:
  "proceed None = Inr True" "proceed (Some e) = Inl e" "proceed e' \<noteq> Inr False"
  by (cases e'; simp add: proceed_def)+

definition unconditional ::
    "(PaperlessInstance \<Rightarrow> err prog) \<Rightarrow> PaperlessInstance \<Rightarrow> (PaperlessInstance \<times> (gerror + bool)) prog" where
  "unconditional p inst = bind (p inst) (\<lambda>e. Done (inst, proceed e))"

definition workload_body :: "Lib \<Rightarrow> PaperlessInstance \<Rightarrow> (PaperlessInstance \<times> (gerror + bool)) prog" where
  "workload_body L inst = bind (reconcileWorkload L inst) (\<lambda>(inst, e). Done (inst, proceed e))"

lemma safe_reconcileSecrets:
  "lib_laws L \<Longrightarrow> safe (step_event L inst StSecrets) (reconcileSecrets L inst)"
  unfolding reconcileSecrets_def
  by (intro safe_check secret_key.safe_ensure admin_secret.safe_ensure)
     (simp_all add: generated_secret_names_def)

interpretation secrets_step: reconcile_step L StSecrets "unconditional (reconcileSecrets L)" "{}" False for L
  by unfold_locales
     (auto simp: unconditional_def intro!: safe_bind safe_reconcileSecrets results_bind_any)

interpretation storage_step: reconcile_step L StStorage "unconditional (reconcileStorage L)" "{}" False for L
  by unfold_locales
     (auto simp: unconditional_def intro!: safe_bind safe_reconcileStorage results_bind_any)

interpretation database_step: reconcile_step L StDatabase "reconcileDatabase L" "{ConditionDatabaseReady}" True for L
  by unfold_locales (simp_all add: safe_reconcileDatabase results_reconcileDatabase lib_lawsD)

interpretation cache_step: reconcile_step L StCache "unconditional (reconcileCache L)" "{}" False for L
  by unfold_locales
     (auto simp: unconditional_def intro!: safe_bind safe_reconcileCache results_bind_any)

interpretation workload_step: reconcile_step L StWorkload "workload_body L" "{ConditionReady}" False for L
proof unfold_locales
  fix inst assume L: "lib_laws L"
  show "safe (step_event L inst StWorkload) (workload_body L inst)"
    by (auto simp: workload_body_def intro!: safe_bind safe_reconcileWorkload L)
  show "results (\<lambda>x. frame {ConditionReady} inst (fst x)) (workload_body L inst)"
    unfolding workload_body_def
    by (rule results_bind [OF results_reconcileWorkload [OF lib_lawsD(2) [OF L]]]) auto
qed (auto simp: workload_body_def intro!: results_bind_any)

end
