(* ===== verification/Controller.thy ===== *)
theory Controller
  imports Step_Contract
begin

text \<open>
  \<open>internal/controller/paperlessinstance_controller.go\<close>: \<open>Reconcile\<close>, \<open>reconcileInstance\<close> and
  \<open>patchStatus\<close>, the reconciliation as a pipeline of stages under the contract of
  \<open>Step_Contract\<close>, and what a whole reconciliation promises.
\<close>

section \<open>The reconciler\<close>

text \<open>\<open>ctrl.Result\<close>; a \<open>time.Duration\<close> counts nanoseconds.\<close>

record Result =
  rsRequeueAfter :: i64

definition zero_result :: Result where
  "zero_result = \<lparr>rsRequeueAfter = 0\<rparr>"

definition notReadyRequeueInterval :: i64 where
  "notReadyRequeueInterval = 30 * 1000000000"

text \<open>A step has failed: \<open>Ready\<close> says which one, and the error goes up with its context.\<close>

definition step_failed ::
    "Lib \<Rightarrow> PaperlessInstance \<Rightarrow> string \<Rightarrow> string \<Rightarrow> gerror \<Rightarrow> (PaperlessInstance \<times> Result \<times> err) prog" where
  "step_failed L inst reason context e =
     bind (SetCondition L inst ConditionReady ConditionFalse reason (Error e))
       (\<lambda>inst. Done (inst, zero_result, Some (ErrorWrap context e)))"

definition database_not_ready ::
    "Lib \<Rightarrow> PaperlessInstance \<Rightarrow> (PaperlessInstance \<times> Result \<times> err) prog" where
  "database_not_ready L inst =
     bind (SetCondition L inst ConditionReady ConditionFalse ''DatabaseNotReady''
       ''the instance cannot become ready until its database is; see the DatabaseReady condition'')
       (\<lambda>inst. Done (inst, \<lparr>rsRequeueAfter = notReadyRequeueInterval\<rparr>, None))"

definition reconcileInstance ::
    "Lib \<Rightarrow> PaperlessInstance \<Rightarrow> (PaperlessInstance \<times> Result \<times> err) prog" where
  "reconcileInstance L inst =
     bind (reconcileSecrets L inst) (\<lambda>err. case err of
       Some e \<Rightarrow> step_failed L inst ''SecretsNotReady'' ''reconciling secrets'' e
     | None \<Rightarrow>
     bind (reconcileStorage L inst) (\<lambda>err. case err of
       Some e \<Rightarrow> step_failed L inst ''StorageNotReady'' ''reconciling storage'' e
     | None \<Rightarrow>
     bind (reconcileDatabase L inst) (\<lambda>(inst, dbReady). case dbReady of
       Inl e \<Rightarrow> step_failed L inst ''DatabaseNotReady'' ''reconciling database'' e
     | Inr False \<Rightarrow> database_not_ready L inst
     | Inr True \<Rightarrow>
     bind (reconcileCache L inst) (\<lambda>err. case err of
       Some e \<Rightarrow> step_failed L inst ''CacheNotReady'' ''reconciling cache'' e
     | None \<Rightarrow>
     bind (reconcileWorkload L inst) (\<lambda>(inst, err). case err of
       Some e \<Rightarrow> step_failed L inst ''WorkloadApplyFailed'' ''reconciling workload'' e
     | None \<Rightarrow> Done (inst, zero_result, None))))))"

definition patchStatus :: "PaperlessInstance \<Rightarrow> PaperlessInstance \<Rightarrow> err prog" where
  "patchStatus inst base =
     (let inst = inst\<lparr>piStatus := (piStatus inst)\<lparr>psObservedGeneration := omGeneration (piMeta inst)\<rparr>\<rparr> in
      PatchStatus inst base (\<lambda>r. case r of
        Some e \<Rightarrow> Done (Some (ErrorWrap ''patching status'' e))
      | None \<Rightarrow> Done None))"

definition Reconcile :: "Lib \<Rightarrow> ObjectKey \<Rightarrow> (Result \<times> err) prog" where
  "Reconcile L req = GetInstance req (\<lambda>r. case r of
       Inl err \<Rightarrow> Done (zero_result, libIgnoreNotFound L (Some err))
     | Inr inst \<Rightarrow>
         let base = inst in
         bind (SetCondition L inst ConditionReady ConditionFalse ''Reconciling''
                 ''the operator is reconciling this instance'') (\<lambda>inst.
         bind (reconcileInstance L inst) (\<lambda>(inst, res, reconcileErr).
         bind (patchStatus inst base) (\<lambda>r. case r of
           Some e \<Rightarrow> Done (zero_result, Some (ErrorWrap ''patching status'' e))
         | None \<Rightarrow> Done (res, reconcileErr)))))"

section \<open>The reconciliation as a pipeline\<close>

text \<open>
  A stage is a step with what the reconciler says of its failure. The pipeline runs the
  stages in order and stops at the first that fails or waits.
\<close>

record stage =
  sgTag :: step
  sgReason :: string
  sgContext :: string
  sgBody :: "PaperlessInstance \<Rightarrow> (PaperlessInstance \<times> (gerror + bool)) prog"
  sgTouches :: "string set"

fun after_stage ::
    "Lib \<Rightarrow> stage \<Rightarrow> (PaperlessInstance \<Rightarrow> (PaperlessInstance \<times> Result \<times> err) prog) \<Rightarrow>
     PaperlessInstance \<times> (gerror + bool) \<Rightarrow> (PaperlessInstance \<times> Result \<times> err) prog" where
  "after_stage L s rest (inst, Inl e) = step_failed L inst (sgReason s) (sgContext s) e"
| "after_stage L s rest (inst, Inr False) = database_not_ready L inst"
| "after_stage L s rest (inst, Inr True) = rest inst"

primrec run_stages ::
    "Lib \<Rightarrow> stage list \<Rightarrow> PaperlessInstance \<Rightarrow> (PaperlessInstance \<times> Result \<times> err) prog" where
  "run_stages L [] = (\<lambda>inst. Done (inst, zero_result, None))"
| "run_stages L (s # ss) = (\<lambda>inst. bind (sgBody s inst) (after_stage L s (run_stages L ss)))"

definition stages :: "Lib \<Rightarrow> stage list" where
  "stages L =
    [\<lparr>sgTag = StSecrets, sgReason = ''SecretsNotReady'', sgContext = ''reconciling secrets'',
      sgBody = unconditional (reconcileSecrets L), sgTouches = {}\<rparr>,
     \<lparr>sgTag = StStorage, sgReason = ''StorageNotReady'', sgContext = ''reconciling storage'',
      sgBody = unconditional (reconcileStorage L), sgTouches = {}\<rparr>,
     \<lparr>sgTag = StDatabase, sgReason = ''DatabaseNotReady'', sgContext = ''reconciling database'',
      sgBody = reconcileDatabase L, sgTouches = {ConditionDatabaseReady}\<rparr>,
     \<lparr>sgTag = StCache, sgReason = ''CacheNotReady'', sgContext = ''reconciling cache'',
      sgBody = unconditional (reconcileCache L), sgTouches = {}\<rparr>,
     \<lparr>sgTag = StWorkload, sgReason = ''WorkloadApplyFailed'', sgContext = ''reconciling workload'',
      sgBody = workload_body L, sgTouches = {ConditionReady}\<rparr>]"

lemma bind_cong_fun: "(\<And>x. f x = g x) \<Longrightarrow> bind p f = bind p g"
  by (rule arg_cong [where f = "bind p"]) (rule ext)

lemma reconcileInstance_stages: "reconcileInstance L inst = run_stages L (stages L) inst"
  unfolding reconcileInstance_def stages_def
  by (auto simp: unconditional_def workload_body_def bind_assoc
      intro!: bind_cong_fun split: option.split sum.split bool.split)

definition stage_ok :: "Lib \<Rightarrow> stage \<Rightarrow> bool" where
  "stage_ok L s \<longleftrightarrow> reconcile_step L (sgTag s) (sgBody s) (sgTouches s) (sgTag s = StDatabase) \<and>
     sgTouches s \<subseteq> {ConditionReady, ConditionDatabaseReady}"

lemma stages_ok: "list_all (stage_ok L) (stages L)"
  using secrets_step.reconcile_step_axioms storage_step.reconcile_step_axioms
    database_step.reconcile_step_axioms cache_step.reconcile_step_axioms
    workload_step.reconcile_step_axioms
  by (simp add: stages_def stage_ok_def)

lemma stages_sorted: "sorted (map sgTag (stages L))"
  by (simp add: stages_def less_eq_step_def)

section \<open>How a pipeline ends\<close>

text \<open>
  The outcome of the stages \<open>ss\<close> from \<open>inst\<close>: every request has the tag of a stage, in the
  order of the stages; and either a stage failed, or the database is not ready, or all
  stages passed and what the last one guarantees (\<open>K\<close>) holds. Nothing was requested after
  the stage that stopped.
\<close>

definition ended ::
    "stage list \<Rightarrow> (event list \<Rightarrow> PaperlessInstance \<Rightarrow> bool) \<Rightarrow> step list \<Rightarrow> event list \<Rightarrow>
     PaperlessInstance \<Rightarrow> Result \<Rightarrow> err \<Rightarrow> bool" where
  "ended ss K tags es inst' res e \<longleftrightarrow>
     (\<exists>s \<in> set ss. \<exists>e'. e = Some (ErrorWrap (sgContext s) e') \<and> res = zero_result \<and>
        says inst' ConditionReady ConditionFalse (sgReason s) \<and> list_all (\<lambda>t. t \<le> sgTag s) tags) \<or>
     (e = None \<and> res = \<lparr>rsRequeueAfter = notReadyRequeueInterval\<rparr> \<and>
        says inst' ConditionReady ConditionFalse ''DatabaseNotReady'' \<and>
        StDatabase \<in> set (map sgTag ss) \<and> list_all (\<lambda>t. t \<le> StDatabase) tags) \<or>
     (e = None \<and> res = zero_result \<and> (\<exists>es1 es2. es = es1 @ es2 \<and> K es2 inst'))"

definition pipeline_outcome ::
    "Lib \<Rightarrow> stage list \<Rightarrow> (event list \<Rightarrow> PaperlessInstance \<Rightarrow> bool) \<Rightarrow> PaperlessInstance \<Rightarrow>
     event list \<Rightarrow> (PaperlessInstance \<times> Result \<times> err) go \<Rightarrow> bool" where
  "pipeline_outcome L ss K inst es x \<longleftrightarrow>
     (\<exists>tags inst' res e. x = Value (inst', res, e) \<and>
        list_all2 (step_event L inst) tags es \<and> sorted tags \<and> set tags \<subseteq> set (map sgTag ss) \<and>
        frame {ConditionReady, ConditionDatabaseReady} inst inst' \<and> ended ss K tags es inst' res e)"

lemma tags_of_one:
  "list_all (step_event L inst t) es \<Longrightarrow> list_all2 (step_event L inst) (replicate (length es) t) es"
  by (induction es) auto

lemma says_last_set:
  "condition_laws L \<Longrightarrow> says (set_at L t inst ty st re m) ty st re"
  by (simp add: says_set_at)

lemma frame_then_ready:
  assumes "lib_laws L" and "frame tys inst inst'" and "tys \<subseteq> {ConditionReady, ConditionDatabaseReady}"
  shows "frame {ConditionReady, ConditionDatabaseReady} inst (set_at L t inst' ConditionReady st r m)"
  using frame_trans [OF frame_mono [OF assms(2,3)]
    frame_set_at [OF lib_lawsD(2) [OF assms(1)], of ConditionReady "{ConditionReady}" inst' t st r m]]
  by (rule frame_mono) auto

text \<open>A stage that stops the pipeline.\<close>

lemma outcome_failed:
  assumes L: "lib_laws L" and es: "list_all (step_event L inst (sgTag s)) es"
    and fr: "frame (sgTouches s) inst inst'" and tc: "sgTouches s \<subseteq> {ConditionReady, ConditionDatabaseReady}"
    and s: "s \<in> set ss"
  shows "wp (step_failed L inst' (sgReason s) (sgContext s) e)
    (\<lambda>es'. pipeline_outcome L ss K inst (es @ es'))"
proof -
  note fr' = frame_then_ready [OF L fr tc]
  have "list_all2 (step_event L inst) (replicate (Suc (length es)) (sgTag s)) (es @ [EvNow t])" for t
    using tags_of_one [of L inst "sgTag s" "es @ [EvNow t]"] es by simp
  then show ?thesis
    using s fr' unfolding step_failed_def bind_SetCondition
    by (auto simp: pipeline_outcome_def ended_def says_last_set lib_lawsD(2) [OF L]
        intro!: exI [of _ "replicate (Suc (length es)) (sgTag s)"] simp del: replicate.simps
        simp: list_all_iff)
qed

lemma outcome_waiting:
  assumes L: "lib_laws L" and es: "list_all (step_event L inst (sgTag s)) es"
    and fr: "frame (sgTouches s) inst inst'" and tc: "sgTouches s \<subseteq> {ConditionReady, ConditionDatabaseReady}"
    and s: "s \<in> set ss" and db: "sgTag s = StDatabase"
  shows "wp (database_not_ready L inst') (\<lambda>es'. pipeline_outcome L ss K inst (es @ es'))"
proof -
  note fr' = frame_then_ready [OF L fr tc]
  have "list_all2 (step_event L inst) (replicate (Suc (length es)) (sgTag s)) (es @ [EvNow t])" for t
    using tags_of_one [of L inst "sgTag s" "es @ [EvNow t]"] es by simp
  moreover have "sgTag s \<in> sgTag ` set ss" using s by simp
  ultimately show ?thesis
    using fr' unfolding database_not_ready_def bind_SetCondition
    by (auto simp: pipeline_outcome_def ended_def says_last_set lib_lawsD(2) [OF L] db
        intro!: exI [of _ "replicate (Suc (length es)) (sgTag s)"] simp del: replicate.simps
        simp: list_all_iff)
qed

text \<open>A stage that lets the rest run.\<close>

lemma ended_Cons:
  assumes "ended ss K tags es' inst' res e" and le: "\<And>t. t \<in> set (map sgTag ss) \<Longrightarrow> sgTag s \<le> t"
  shows "ended (s # ss) K (replicate n (sgTag s) @ tags) (es @ es') inst' res e"
proof -
  have K: "\<exists>es1 es2. es @ es' = es1 @ es2 \<and> K es2 inst'" if "\<exists>es1 es2. es' = es1 @ es2 \<and> K es2 inst'"
  proof -
    from that obtain es1 es2 where "es' = es1 @ es2" "K es2 inst'" by blast
    then show ?thesis by (intro exI [of _ "es @ es1"] exI [of _ es2]) simp
  qed
  have le': "s' \<in> set ss \<Longrightarrow> sgTag s \<le> sgTag s'" for s'
    using le by auto
  from assms(1) consider
      (failed) s' e' where "s' \<in> set ss" "e = Some (ErrorWrap (sgContext s') e')" "res = zero_result"
        "says inst' ConditionReady ConditionFalse (sgReason s')" "list_all (\<lambda>t. t \<le> sgTag s') tags"
    | (waiting) "e = None" "res = \<lparr>rsRequeueAfter = notReadyRequeueInterval\<rparr>"
        "says inst' ConditionReady ConditionFalse ''DatabaseNotReady''"
        "StDatabase \<in> set (map sgTag ss)" "list_all (\<lambda>t. t \<le> StDatabase) tags"
    | (passed) "e = None" "res = zero_result" "\<exists>es1 es2. es' = es1 @ es2 \<and> K es2 inst'"
    unfolding ended_def by blast
  then show ?thesis
  proof cases
    case failed
    then show ?thesis using le' [OF failed(1)] unfolding ended_def by (auto simp: list_all_iff)
  next
    case waiting
    then show ?thesis using le [OF waiting(4)] unfolding ended_def by (auto simp: list_all_iff)
  next
    case passed
    then show ?thesis using K unfolding ended_def by simp
  qed
qed

lemma outcome_passed:
  assumes es: "list_all (step_event L inst (sgTag s)) es"
    and fr: "frame (sgTouches s) inst inst'" and tc: "sgTouches s \<subseteq> {ConditionReady, ConditionDatabaseReady}"
    and so: "list_all (\<lambda>t. sgTag s \<le> t) (map sgTag ss)"
    and rest: "pipeline_outcome L ss K inst' es' x"
  shows "pipeline_outcome L (s # ss) K inst (es @ es') x"
proof -
  from rest obtain tags inst2 res e where x: "x = Value (inst2, res, e)"
    and t: "list_all2 (step_event L inst') tags es'" "sorted tags" "set tags \<subseteq> set (map sgTag ss)"
    and f: "frame {ConditionReady, ConditionDatabaseReady} inst' inst2"
    and en: "ended ss K tags es' inst2 res e"
    unfolding pipeline_outcome_def by blast
  have "list_all2 (step_event L inst) tags es'"
    using t(1) step_event_ignores_status [OF frame_only [OF fr], of L] by simp
  then have "list_all2 (step_event L inst) (replicate (length es) (sgTag s) @ tags) (es @ es')"
    using tags_of_one [OF es] by (intro list_all2_appendI)
  moreover have le: "sgTag s \<le> t'" if "t' \<in> set (map sgTag ss)" for t'
    using that so by (auto simp: list_all_iff)
  moreover have "sorted (replicate (length es) (sgTag s) @ tags)"
    using t(2,3) le by (auto simp: sorted_append sorted_replicate)
  moreover have "frame {ConditionReady, ConditionDatabaseReady} inst inst2"
    using frame_trans [OF frame_mono [OF fr tc] f] by simp
  moreover have "ended (s # ss) K (replicate (length es) (sgTag s) @ tags) (es @ es') inst2 res e"
    using en le by (rule ended_Cons)
  ultimately show ?thesis
    using t(3) unfolding pipeline_outcome_def x
    by (auto intro!: exI [of _ "replicate (length es) (sgTag s) @ tags"])
qed

text \<open>One stage, whatever follows it.\<close>

lemma stage_step:
  assumes L: "lib_laws L" and ok: "stage_ok L s" and s: "s \<in> set ss"
    and K: "wp (sgBody s inst) (\<lambda>es x. \<forall>i. x = Value (i, Inr True) \<longrightarrow> K es i)"
    and rest: "\<And>es inst'. list_all (step_event L inst (sgTag s)) es \<Longrightarrow> frame (sgTouches s) inst inst' \<Longrightarrow>
      K es inst' \<Longrightarrow> wp (rest inst') (\<lambda>es'. pipeline_outcome L ss G inst (es @ es'))"
  shows "wp (bind (sgBody s inst) (after_stage L s rest)) (pipeline_outcome L ss G inst)"
proof -
  from ok have tc: "sgTouches s \<subseteq> {ConditionReady, ConditionDatabaseReady}"
    and step: "reconcile_step L (sgTag s) (sgBody s) (sgTouches s) (sgTag s = StDatabase)"
    by (simp_all add: stage_ok_def)
  from reconcile_step.contract [OF step L, of inst] K
  have "wp (sgBody s inst) (\<lambda>es x. (list_all (step_event L inst (sgTag s)) es \<and>
     (\<exists>inst' r. x = Value (inst', r) \<and> frame (sgTouches s) inst inst' \<and>
        (sgTag s = StDatabase \<or> r \<noteq> Inr False))) \<and> (\<forall>i. x = Value (i, Inr True) \<longrightarrow> K es i))"
    by (simp only: wp_conj simp_thms)
  then show ?thesis
  proof (rule wp_bindI)
    fix es and y :: "PaperlessInstance \<times> (gerror + bool)"
    assume A: "(list_all (step_event L inst (sgTag s)) es \<and>
     (\<exists>inst' r. Value y = Value (inst', r) \<and> frame (sgTouches s) inst inst' \<and>
        (sgTag s = StDatabase \<or> r \<noteq> Inr False))) \<and> (\<forall>i. Value y = Value (i, Inr True) \<longrightarrow> K es i)"
    then obtain inst' r where y: "y = (inst', r)" and fr: "frame (sgTouches s) inst inst'"
      and w: "sgTag s = StDatabase \<or> r \<noteq> Inr False" by blast
    from A have es: "list_all (step_event L inst (sgTag s)) es" by (rule conjunct1 [OF conjunct1])
    consider (err) e where "r = Inl e" | (wait) "r = Inr False" | (go) "r = Inr True"
      by (metis (full_types) old.sum.exhaust)
    then show "wp (after_stage L s rest y) (\<lambda>es'. pipeline_outcome L ss G inst (es @ es'))"
    proof cases
      case err
      then show ?thesis using outcome_failed [OF L es fr tc s] y by simp
    next
      case wait
      then show ?thesis using outcome_waiting [OF L es fr tc s] w y by simp
    next
      case go
      then show ?thesis using rest [OF es fr] A y by simp
    qed
  qed auto
qed

lemma run_stages_outcome:
  assumes L: "lib_laws L"
    and stat: "\<And>a b. only_conditions a b \<Longrightarrow> K b = K a"
    and ne: "ss \<noteq> []"
  shows "list_all (stage_ok L) ss \<Longrightarrow> sorted (map sgTag ss) \<Longrightarrow>
    (\<And>inst. wp (sgBody (last ss) inst) (\<lambda>es x. \<forall>i. x = Value (i, Inr True) \<longrightarrow> K inst es i)) \<Longrightarrow>
    wp (run_stages L ss inst) (pipeline_outcome L ss (K inst) inst)"
  using ne
proof (induction ss arbitrary: inst rule: list_nonempty_induct)
  case (single s)
  then have ok: "stage_ok L s" and K: "wp (sgBody s inst) (\<lambda>es x. \<forall>i. x = Value (i, Inr True) \<longrightarrow> K inst es i)"
    by simp_all
  have "pipeline_outcome L [s] (K inst) inst es (Value (inst', zero_result, None))"
    if "list_all (step_event L inst (sgTag s)) es" "frame (sgTouches s) inst inst'" "K inst es inst'"
    for es inst'
  proof -
    have "es = [] @ es" by simp
    with that(3) have "ended [s] (K inst) (replicate (length es) (sgTag s)) es inst' zero_result None"
      unfolding ended_def by blast
    moreover have "frame {ConditionReady, ConditionDatabaseReady} inst inst'"
      using ok by (intro frame_mono [OF that(2)]) (simp add: stage_ok_def)
    ultimately show ?thesis
      using tags_of_one [OF that(1)]
      by (auto simp: pipeline_outcome_def intro!: exI [of _ "replicate (length es) (sgTag s)"])
  qed
  then show ?case
    using stage_step [OF L ok _ K, of "[s]" "\<lambda>inst. Done (inst, zero_result, None)" "K inst"] by simp
next
  case (cons s ss)
  then have ok: "stage_ok L s" and tc: "sgTouches s \<subseteq> {ConditionReady, ConditionDatabaseReady}"
    and so: "list_all (\<lambda>t. sgTag s \<le> t) (map sgTag ss)"
    by (simp_all add: stage_ok_def list_all_iff)
  have "wp (run_stages L ss inst') (\<lambda>es'. pipeline_outcome L (s # ss) (K inst) inst (es @ es'))"
    if es: "list_all (step_event L inst (sgTag s)) es" and fr: "frame (sgTouches s) inst inst'" for es inst'
  proof -
    have "K inst' = K inst" by (rule stat [OF frame_only [OF fr]])
    then have "wp (run_stages L ss inst') (pipeline_outcome L ss (K inst) inst')"
      using cons.IH [of inst'] cons.prems cons.hyps by simp
    then show ?thesis
      by (rule wp_mono) (rule outcome_passed [OF es fr tc so])
  qed
  then show ?case
    using stage_step [OF L ok, of "s # ss" inst "\<lambda>es i. True" "run_stages L ss" "K inst"] by simp
qed

section \<open>The last stage\<close>

text \<open>
  What a response says of the workload: the Deployment, as the server returned it, has at
  least one ready replica.
\<close>

definition reports_ready :: "kobject \<Rightarrow> bool" where
  "reports_ready obj \<longleftrightarrow> (case obj of ODeployment d \<Rightarrow> 1 \<le> sint (depReadyReplicas d) | _ \<Rightarrow> False)"

definition workload_done :: "Lib \<Rightarrow> PaperlessInstance \<Rightarrow> event list \<Rightarrow> PaperlessInstance \<Rightarrow> bool" where
  "workload_done L inst es inst' \<longleftrightarrow>
     (\<exists>pre b resp t. es = pre @
        [EvPatchApply (with_refs [controller_ref inst] (ODeployment (PaperlessDeployment L inst)))
           b fieldOwner True (Inr resp), EvNow t] \<and>
        (if reports_ready resp then says inst' ConditionReady ConditionTrue ''WorkloadReady''
         else says inst' ConditionReady ConditionFalse ''WorkloadNotReady''))"

lemma response_ready:
  "1 \<le> sint (depReadyReplicas (response_deployment (PaperlessDeployment L inst) obj)) \<longleftrightarrow> reports_ready obj"
  by (cases obj) (simp_all add: response_deployment_def reports_ready_def PaperlessDeployment_def Let_def)

lemma workload_done_ignores_status:
  "only_conditions a b \<Longrightarrow> workload_done L b = workload_done L a"
proof -
  assume "only_conditions a b"
  then obtain cs where b: "b = PutConditions cs a" by (auto simp: only_conditions_def)
  have "workload_objects L b = workload_objects L a" by (simp add: b)
  then have d: "PaperlessDeployment L b = PaperlessDeployment L a" by (simp add: workload_objects_def)
  show ?thesis unfolding workload_done_def d by (simp add: b)
qed

lemma applyOwned_value:
  assumes L: "lib_laws L" and "fresh_for inst x" and "typed_object x"
  obtains b p where "applyOwned L inst x = PatchApply (with_refs [controller_ref inst] x) b fieldOwner True
      (\<lambda>r. Done (case r of Inl e \<Rightarrow> Inl (ErrorWrap p e) | Inr obj' \<Rightarrow> Inr obj'))"
proof -
  have "typed_object (with_refs [controller_ref inst] x)" using assms(3) by simp
  from Apply_value [OF lib_lawsD(6) [OF L] lib_lawsD(5) [OF L] this]
  show thesis using that assms(2) by (metis applyOwned_fresh lib_lawsD(4) [OF L])
qed

lemma workload_body_done:
  assumes L: "lib_laws L"
  shows "wp (workload_body L inst) (\<lambda>es x. \<forall>i. x = Value (i, Inr True) \<longrightarrow> workload_done L inst es i)"
proof -
  have fresh: "fresh_for inst (OService (PaperlessService inst))"
      "fresh_for inst (ODeployment (PaperlessDeployment L inst))"
    using step_objects_fresh [of _ L inst StWorkload] by (simp_all add: workload_objects_def)
  obtain b p where svc: "applyOwned L inst (OService (PaperlessService inst)) =
      PatchApply (with_refs [controller_ref inst] (OService (PaperlessService inst))) b fieldOwner True
      (\<lambda>r. Done (case r of Inl e \<Rightarrow> Inl (ErrorWrap p e) | Inr obj' \<Rightarrow> Inr obj'))"
    using applyOwned_value [OF L fresh(1)] by auto
  obtain b' p' where dep: "applyOwned L inst (ODeployment (PaperlessDeployment L inst)) =
      PatchApply (with_refs [controller_ref inst] (ODeployment (PaperlessDeployment L inst))) b' fieldOwner True
      (\<lambda>r. Done (case r of Inl e \<Rightarrow> Inl (ErrorWrap p' e) | Inr obj' \<Rightarrow> Inr obj'))"
    using applyOwned_value [OF L fresh(2)] by auto
  show ?thesis
    unfolding workload_body_def reconcileWorkload_def Let_def error_of_def
    by (auto simp: svc dep bind_SetCondition response_ready workload_done_def says_last_set
        lib_lawsD(2) [OF L] split: sum.split)
qed

section \<open>A whole reconciliation\<close>

definition observed :: "PaperlessInstance \<Rightarrow> PaperlessInstance" where
  "observed inst = inst\<lparr>piStatus := (piStatus inst)\<lparr>psObservedGeneration := omGeneration (piMeta inst)\<rparr>\<rparr>"

lemma patchStatus_eq:
  "patchStatus inst base = PatchStatus (observed inst) base
     (\<lambda>r. Done (case r of Some e \<Rightarrow> Some (ErrorWrap ''patching status'' e) | None \<Rightarrow> None))"
  by (auto simp: patchStatus_def observed_def Let_def fun_eq_iff split: option.split)

text \<open>
  What every run of \<open>Reconcile\<close> looks like: reading the instance; then, if that succeeds, the
  requests of the stages, in order; then one status patch against the instance as read.
\<close>

definition missing_run :: "Lib \<Rightarrow> ObjectKey \<Rightarrow> event list \<Rightarrow> (Result \<times> err) go \<Rightarrow> bool" where
  "missing_run L req es x \<longleftrightarrow> (\<exists>e. es = [EvGetInstance req (Inl e)] \<and>
     x = Value (zero_result, if libIsNotFound L (Some e) then None else Some e))"

definition full_run ::
    "Lib \<Rightarrow> ObjectKey \<Rightarrow> PaperlessInstance \<Rightarrow> step list \<Rightarrow> event list \<Rightarrow> PaperlessInstance \<Rightarrow> err \<Rightarrow>
     Result \<Rightarrow> err \<Rightarrow> event list \<Rightarrow> (Result \<times> err) go \<Rightarrow> bool" where
  "full_run L req inst tags mid inst' r res e es x \<longleftrightarrow>
     es = EvGetInstance req (Inr inst) # mid @ [EvPatchStatus (observed inst') inst r] \<and>
     list_all2 (step_event L inst) tags mid \<and> sorted tags \<and>
     frame {ConditionReady, ConditionDatabaseReady} inst inst' \<and>
     ended (stages L) (workload_done L inst) tags mid inst' res e \<and>
     x = Value (case r of None \<Rightarrow> (res, e)
       | Some e' \<Rightarrow> (zero_result, Some (ErrorWrap ''patching status'' (ErrorWrap ''patching status'' e'))))"

text \<open>The pipeline after the seed condition, with the clock reading that set it.\<close>

lemma seeded_outcome:
  assumes L: "lib_laws L"
    and o1: "pipeline_outcome L (stages L) (workload_done L inst)
      (set_at L t inst ConditionReady ConditionFalse c m) es x"
  shows "\<exists>tags inst' res e. x = Value (inst', res, e) \<and>
    list_all2 (step_event L inst) tags (EvNow t # es) \<and> sorted tags \<and>
    frame {ConditionReady, ConditionDatabaseReady} inst inst' \<and>
    ended (stages L) (workload_done L inst) tags (EvNow t # es) inst' res e"
proof -
  let ?s = "\<lparr>sgTag = StSecrets, sgReason = ''SecretsNotReady'', sgContext = ''reconciling secrets'',
      sgBody = unconditional (reconcileSecrets L), sgTouches = {ConditionReady}\<rparr>"
  have "pipeline_outcome L (?s # stages L) (workload_done L inst) inst ([EvNow t] @ es) x"
    by (rule outcome_passed [OF _ _ _ _ o1])
       (simp_all add: frame_set_at lib_lawsD(2) [OF L] stages_def less_eq_step_def)
  moreover have "ended (?s # stages L) K tags es' i r e \<Longrightarrow> ended (stages L) K tags es' i r e" for K tags es' i r e
    unfolding ended_def by (auto simp: stages_def)
  ultimately show ?thesis unfolding pipeline_outcome_def append.simps by blast
qed

lemma Reconcile_runs:
  assumes L: "lib_laws L"
  shows "wp (Reconcile L req) (\<lambda>es x. missing_run L req es x \<or>
    (\<exists>inst tags mid inst' r res e. full_run L req inst tags mid inst' r res e es x))"
proof -
  have run: "wp (bind (reconcileInstance L (set_at L t inst ConditionReady ConditionFalse c m))
      (\<lambda>(inst', res, e). bind (patchStatus inst' inst) (\<lambda>r. case r of
          Some e \<Rightarrow> Done (zero_result, Some (ErrorWrap ''patching status'' e)) | None \<Rightarrow> Done (res, e))))
      (\<lambda>es x. \<exists>tags mid inst' r res e.
         full_run L req inst tags mid inst' r res e (EvGetInstance req (Inr inst) # EvNow t # es) x)"
    (is "wp (bind (reconcileInstance L ?i) _) _") for t inst c m
  proof (rule wp_bindI)
    show "wp (reconcileInstance L ?i) (pipeline_outcome L (stages L) (workload_done L inst) ?i)"
      unfolding reconcileInstance_stages
      using run_stages_outcome [where K = "workload_done L", OF L workload_done_ignores_status
          _ stages_ok stages_sorted, of ?i]
        workload_body_done [OF L] workload_done_ignores_status [of inst ?i L]
      by (simp add: stages_def)
  next
    fix es y assume "pipeline_outcome L (stages L) (workload_done L inst) ?i es (Value y)"
    from seeded_outcome [OF L this] obtain tags inst' res e where "y = (inst', res, e)"
      and "list_all2 (step_event L inst) tags (EvNow t # es)" "sorted tags"
        "frame {ConditionReady, ConditionDatabaseReady} inst inst'"
        "ended (stages L) (workload_done L inst) tags (EvNow t # es) inst' res e"
      by auto
    then show "wp (case y of (inst', res, e) \<Rightarrow> bind (patchStatus inst' inst) (\<lambda>r. case r of
          Some e \<Rightarrow> Done (zero_result, Some (ErrorWrap ''patching status'' e)) | None \<Rightarrow> Done (res, e)))
      (\<lambda>es'. \<lambda>x. \<exists>tags mid inst' r res e.
         full_run L req inst tags mid inst' r res e (EvGetInstance req (Inr inst) # EvNow t # es @ es') x)"
      unfolding full_run_def by (fastforce simp: patchStatus_eq split: option.split)
  qed (auto simp: pipeline_outcome_def)
  have "wp (bind (reconcileInstance L (set_at L t inst ConditionReady ConditionFalse c m))
      (\<lambda>(inst', res, e). bind (patchStatus inst' inst) (\<lambda>r. case r of
          Some e \<Rightarrow> Done (zero_result, Some (ErrorWrap ''patching status'' e)) | None \<Rightarrow> Done (res, e))))
      (\<lambda>es x. \<exists>inst0 tags mid inst' r res e.
         full_run L req inst0 tags mid inst' r res e (EvGetInstance req (Inr inst) # EvNow t # es) x)"
    for t inst c m
    by (rule wp_mono [OF run]) blast
  then show ?thesis
    by (auto simp: Reconcile_def Let_def bind_SetCondition missing_run_def
        ignore_not_found [OF lib_lawsD(3) [OF L]] split: sum.split)
qed

end
