(* ===== verification/Reconciliation.thy ===== *)
theory Reconciliation
  imports Controller
begin

text \<open>
  From the shape of a run (\<open>Controller.Reconcile_runs\<close>) to what can be read off its log: which
  component an object belongs to, whose owners it gets, and what the last request says.
\<close>

section \<open>Components of objects\<close>

definition component_of :: "kobject \<Rightarrow> string option" where
  "component_of obj = omLabels (obj_meta obj) ''app.kubernetes.io/component''"

fun step_components :: "step \<Rightarrow> string list" where
  "step_components StSecrets = []"
| "step_components StStorage = [''data'', ''media'', ''consume'', ''export'']"
| "step_components StDatabase = [''database'']"
| "step_components StCache = [''cache'']"
| "step_components StWorkload = [''server'']"

lemma component_of_with_refs [simp]: "component_of (with_refs refs obj) = component_of obj"
  by (simp add: component_of_def)

lemma built_for_component: "built_for inst c (obj_meta obj) \<Longrightarrow> component_of obj = Some c"
proof -
  assume "built_for inst c (obj_meta obj)"
  then have "omLabels (obj_meta obj) = commonLabels inst c"
    unfolding built_for_def by (metis new_meta_sel(3))
  then show ?thesis by (simp add: component_of_def commonLabels_def)
qed

lemma step_objects_component:
  "x \<in> set (step_objects L inst s) \<Longrightarrow> \<exists>c \<in> set (step_components s). component_of x = Some c"
  using claims.built [of x L inst] clusters.built [of x L inst] caches.built [of x L inst]
    workloads.built [of x L inst]
  by (cases s) (auto simp: claim_components_def dest!: built_for_component split: if_splits)

text \<open>The objects the deletion policy governs, and the owners each class gets.\<close>

definition stateful_components :: "string list" where
  "stateful_components = [''data'', ''media'', ''consume'', ''export'', ''database'']"

definition wanted_owners :: "PaperlessInstance \<Rightarrow> kobject \<Rightarrow> OwnerReference list" where
  "wanted_owners inst obj =
     (if component_of obj \<in> Some ` set stateful_components \<and> spDeletionPolicy (piSpec inst) \<noteq> ''Delete''
      then [] else [controller_ref inst])"

lemma stateful_owners_policy:
  "stateful_owners inst = (if spDeletionPolicy (piSpec inst) = ''Delete'' then [controller_ref inst] else [])"
  by (simp add: stateful_owners_def DeletionPolicyOrDefault_def DeletionPolicyDelete_def
      DeletionPolicyRetain_def)

lemma wanted_step_owners:
  "x \<in> set (step_objects L inst s) \<Longrightarrow> step_owners inst s = wanted_owners inst x"
  using step_objects_component [of x L inst s]
  by (cases s) (auto simp: wanted_owners_def stateful_components_def stateful_owners_policy)

section \<open>Reading the log of a run\<close>

definition is_status_patch :: "event \<Rightarrow> bool" where
  "is_status_patch e \<longleftrightarrow> (case e of EvPatchStatus i i' r \<Rightarrow> True | _ \<Rightarrow> False)"

lemma step_event_no_status: "step_event L inst s e \<Longrightarrow> \<not> is_status_patch e"
  by (cases e) (auto simp: is_status_patch_def)

lemma tagged_all:
  "list_all2 (step_event L inst) tags es \<Longrightarrow>
   (\<And>t e. t \<in> set tags \<Longrightarrow> step_event L inst t e \<Longrightarrow> P e) \<Longrightarrow> list_all P es"
  by (induction rule: list_all2_induct) auto

lemma says_observed [simp]:
  "says (observed inst) ty st re = says inst ty st re"
  "cond (observed inst) ty = cond inst ty"
  "piMeta (observed inst) = piMeta inst"
  "piSpec (observed inst) = piSpec inst"
  "psObservedGeneration (piStatus (observed inst)) = omGeneration (piMeta inst)"
  "psURL (piStatus (observed inst)) = psURL (piStatus inst)"
  "psVersion (piStatus (observed inst)) = psVersion (piStatus inst)"
  by (simp_all add: says_def cond_def GetConditions_def observed_def)

lemma frame_keeps_status:
  "frame tys a b \<Longrightarrow>
   psURL (piStatus b) = psURL (piStatus a) \<and> psVersion (piStatus b) = psVersion (piStatus a)"
  by (auto simp: frame_def only_conditions_def PutConditions_def)

text \<open>However the stages end, \<open>Ready\<close> has been computed from the current generation.\<close>

lemma ended_says_ready:
  "ended ss (workload_done L inst) tags es inst' res e \<Longrightarrow>
   \<exists>st re. says inst' ConditionReady st re"
  unfolding ended_def workload_done_def by (auto split: if_splits)

section \<open>What holds of every request of a run\<close>

lemma reconcile_all_requests:
  assumes L: "lib_laws L"
    and "\<And>inst s ev. step_event L inst s ev \<Longrightarrow> P inst ev"
    and "\<And>inst i i' r. P inst (EvPatchStatus i i' r)"
  shows "wp (Reconcile L req) (\<lambda>es x.
    case es of EvGetInstance k (Inr inst) # rest \<Rightarrow> list_all (P inst) rest | _ \<Rightarrow> True)"
  by (rule wp_mono [OF Reconcile_runs [OF L]])
     (auto simp: missing_run_def full_run_def assms(3) elim!: tagged_all intro: assms(2))

text \<open>An applied object, and a created or patched secret, gets the owners the deletion policy wants.\<close>

fun owned_by_policy :: "Lib \<Rightarrow> PaperlessInstance \<Rightarrow> event \<Rightarrow> bool" where
  "owned_by_policy L inst (EvPatchApply obj b o' fo r) \<longleftrightarrow>
     obj_owners obj = wanted_owners inst obj \<and> states_owners L b (wanted_owners inst obj)"
| "owned_by_policy L inst (EvCreateSecret s r) \<longleftrightarrow> omOwnerReferences (secMeta s) =
     (if spDeletionPolicy (piSpec inst) = ''Delete'' then [controller_ref inst] else [])"
| "owned_by_policy L inst (EvPatchMerge s b o' r) \<longleftrightarrow>
     (omNamespace (secMeta s) = inst_ns inst \<longrightarrow> libUnmarshalMap L b = Inr (Some (ownership_patch
        (if spDeletionPolicy (piSpec inst) = ''Delete'' then [controller_ref inst] else []))))"
| "owned_by_policy L inst ev \<longleftrightarrow> True"

lemma owned_step_event:
  assumes "step_event L inst s ev"
  shows "owned_by_policy L inst ev"
proof (cases ev)
  case (EvPatchApply obj b o' fo r)
  with assms obtain x where x: "x \<in> set (step_objects L inst s)" "obj = with_refs (step_owners inst s) x"
    and b: "body_ok L obj b" by auto
  then have "step_owners inst s = wanted_owners inst obj"
    using wanted_step_owners [OF x(1)] by (simp add: wanted_owners_def)
  then show ?thesis using x b EvPatchApply by (simp add: body_ok_def)
qed (use assms stateful_owners_policy in auto)

text \<open>A request belongs to the application: it applies an object of the cache or the server.\<close>

definition brings_up :: "event \<Rightarrow> bool" where
  "brings_up ev \<longleftrightarrow> (case ev of EvPatchApply obj b o' fo r \<Rightarrow>
     component_of obj \<in> {Some ''cache'', Some ''server''} | _ \<Rightarrow> False)"

lemma early_steps_do_not_bring_up:
  "step_event L inst s ev \<Longrightarrow> s \<le> StDatabase \<Longrightarrow> \<not> brings_up ev"
proof (cases ev)
  case (EvPatchApply obj b o' fo r)
  assume "step_event L inst s ev" "s \<le> StDatabase"
  with EvPatchApply obtain x where x: "x \<in> set (step_objects L inst s)" "obj = with_refs (step_owners inst s) x"
    by auto
  then show ?thesis
    using step_objects_component [OF x(1)] EvPatchApply \<open>s \<le> StDatabase\<close>
    by (cases s) (auto simp: brings_up_def less_eq_step_def)
qed (auto simp: brings_up_def)

text \<open>The server's answer to the apply of the instance's own Deployment reports a ready replica.\<close>

definition reports_replica :: "PaperlessInstance \<Rightarrow> event \<Rightarrow> bool" where
  "reports_replica inst ev \<longleftrightarrow> (case ev of EvPatchApply (ODeployment d) b o' fo (Inr (ODeployment d')) \<Rightarrow>
     omName (depMeta d) = inst_name inst \<and> omNamespace (depMeta d) = inst_ns inst \<and>
     1 \<le> sint (depReadyReplicas d') | _ \<Rightarrow> False)"

lemma workload_done_replica:
  assumes "workload_done L inst es inst'" and "says inst' ConditionReady ConditionTrue re"
  shows "list_ex (reports_replica inst) es"
proof -
  from assms(1) obtain pre b resp t where es: "es = pre @
      [EvPatchApply (with_refs [controller_ref inst] (ODeployment (PaperlessDeployment L inst)))
         b fieldOwner True (Inr resp), EvNow t]"
    and r: "reports_ready resp \<or> says inst' ConditionReady ConditionFalse ''WorkloadNotReady''"
    unfolding workload_done_def by (auto split: if_splits)
  from r assms(2) have "reports_ready resp" by (auto simp: says_def)
  then show ?thesis
    by (cases resp)
       (simp_all add: es reports_ready_def reports_replica_def with_refs_def PaperlessDeployment_def Let_def)
qed

end
