(* ===== verification/Step_Properties.thy ===== *)
theory Step_Properties
  imports Controller
begin

text \<open>
  What the single steps of the reconciliation do, on every branch: the life of a generated
  secret, the claims, the two databases and the cache.
\<close>

section \<open>The life of a generated secret\<close>

text \<open>The log of \<open>ensureGeneratedSecret\<close> for a secret of the given name.\<close>

definition secret_life ::
    "Lib \<Rightarrow> PaperlessInstance \<Rightarrow> string \<Rightarrow> bool \<Rightarrow> event list \<Rightarrow> err go \<Rightarrow> bool" where
  "secret_life L inst name supplied es x \<longleftrightarrow>
     (\<exists>r rest. es = EvGetSecret \<lparr>okNamespace = inst_ns inst, okName = name\<rparr> r # rest \<and> is_value x \<and>
       (case r of
          Inr s \<Rightarrow> ownership_log L inst s rest x
        | Inl e \<Rightarrow>
            if \<not> libIsNotFound L (Some e)
            then rest = [] \<and> x = Value (Some (ErrorWrap (''getting secret '' @ name) e))
            else if supplied then rest = [] \<and> x = Value None
            else (\<exists>draws. list_all is_draw draws \<and> length draws \<le> 1 \<and>
              (rest = draws \<and> x \<noteq> Value None \<or>
               (\<exists>s r'. rest = draws @ [EvCreateSecret s r'] \<and> omName (secMeta s) = name \<and>
                  omNamespace (secMeta s) = inst_ns inst \<and>
                  omOwnerReferences (secMeta s) = stateful_owners inst \<and>
                  (x = Value None) = (r' = None))))))"

lemma secret_life_cases:
  assumes "secret_life L inst name supplied es x"
  obtains (found) s rest where "es = EvGetSecret \<lparr>okNamespace = inst_ns inst, okName = name\<rparr> (Inr s) # rest"
      "ownership_log L inst s rest x"
  | (unreadable) e where "es = [EvGetSecret \<lparr>okNamespace = inst_ns inst, okName = name\<rparr> (Inl e)]"
      "x \<noteq> Value None"
  | (supplied) e where "es = [EvGetSecret \<lparr>okNamespace = inst_ns inst, okName = name\<rparr> (Inl e)]" "supplied"
  | (undrawn) e draws where "es = EvGetSecret \<lparr>okNamespace = inst_ns inst, okName = name\<rparr> (Inl e) # draws"
      "list_all is_draw draws" "x \<noteq> Value None"
  | (created) e draws s r where
      "es = EvGetSecret \<lparr>okNamespace = inst_ns inst, okName = name\<rparr> (Inl e) # draws @ [EvCreateSecret s r]"
      "list_all is_draw draws" "omName (secMeta s) = name" "omNamespace (secMeta s) = inst_ns inst"
      "(x = Value None) = (r = None)"
proof -
  from assms obtain r rest where es: "es = EvGetSecret \<lparr>okNamespace = inst_ns inst, okName = name\<rparr> r # rest"
    and c: "case r of
          Inr s \<Rightarrow> ownership_log L inst s rest x
        | Inl e \<Rightarrow>
            if \<not> libIsNotFound L (Some e)
            then rest = [] \<and> x = Value (Some (ErrorWrap (''getting secret '' @ name) e))
            else if supplied then rest = [] \<and> x = Value None
            else (\<exists>draws. list_all is_draw draws \<and> length draws \<le> 1 \<and>
              (rest = draws \<and> x \<noteq> Value None \<or>
               (\<exists>s r'. rest = draws @ [EvCreateSecret s r'] \<and> omName (secMeta s) = name \<and>
                  omNamespace (secMeta s) = inst_ns inst \<and>
                  omOwnerReferences (secMeta s) = stateful_owners inst \<and>
                  (x = Value None) = (r' = None))))"
    unfolding secret_life_def by blast
  show thesis
  proof (cases r)
    case (Inr s)
    then show thesis using c es by (intro found) auto
  next
    case (Inl e)
    note c = c [unfolded Inl sum.case] and es = es [unfolded Inl]
    show thesis
    proof (cases "libIsNotFound L (Some e) \<and> \<not> supplied")
      case False
      then show thesis using c es unreadable supplied by (cases "libIsNotFound L (Some e)") auto
    next
      case True
      then show thesis using c es undrawn created by auto
    qed
  qed
qed

context secret_builder
begin

lemma life:
  assumes L: "lib_laws L"
  shows "wp (ensureGeneratedSecret L inst (secret_name inst) (build L))
    (secret_life L inst (secret_name inst) (supplied inst))"
proof -
  have found: "wp (reconcileSecretOwnership L inst s) (\<lambda>es x.
      secret_life L inst (secret_name inst) (supplied inst)
        (EvGetSecret \<lparr>okNamespace = inst_ns inst, okName = secret_name inst\<rparr> (Inr s) # es) x)" for s
    by (rule wp_mono [OF ownership_requests [OF L]]) (auto simp: secret_life_def)
  have owner: "libSetControllerReference L inst (secMeta s) =
      Inr ((secMeta s)\<lparr>omOwnerReferences := [controller_ref inst]\<rparr>)"
    if "fresh_secret inst (secret_name inst) s" for s
    using that lib_lawsD(4) [OF L] by (simp add: fresh_secret_def owner_laws_def)
  show ?thesis
  proof (cases "supplied inst")
    case True
    have "wp (case r of
         Inr existing \<Rightarrow> reconcileSecretOwnership L inst existing
       | Inl err \<Rightarrow>
           if \<not> libIsNotFound L (Some err)
           then Done (Some (ErrorWrap (''getting secret '' @ secret_name inst) err)) else Done None)
       (\<lambda>es x. secret_life L inst (secret_name inst) (supplied inst)
          (EvGetSecret \<lparr>okNamespace = inst_ns inst, okName = secret_name inst\<rparr> r # es) x)" for r
      by (cases r) (auto simp: found, auto simp: secret_life_def True)
    then show ?thesis
      by (simp add: ensureGeneratedSecret_def user_value True cong: if_cong sum.case_cong)
  next
    case False
    have absent: "wp (build L inst) (\<lambda>es x. \<exists>r. x = Value r \<and> list_all is_draw es \<and> length es \<le> 1 \<and>
        (\<forall>s. r = Inr (Some s) \<longrightarrow> fresh_secret inst (secret_name inst) s) \<and> r \<noteq> Inr None)"
    proof (rule wp_mono [OF builds])
      fix es x assume "\<exists>r. x = Value r \<and> list_all is_draw es \<and> length es \<le> 1 \<and>
        (case r of Inl e \<Rightarrow> True | Inr None \<Rightarrow> supplied inst
         | Inr (Some s) \<Rightarrow> fresh_secret inst (secret_name inst) s)"
      then obtain r where "x = Value r" "list_all is_draw es" "length es \<le> 1"
        "case r of Inl e \<Rightarrow> True | Inr None \<Rightarrow> supplied inst
         | Inr (Some s) \<Rightarrow> fresh_secret inst (secret_name inst) s" by blast
      then show "\<exists>r. x = Value r \<and> list_all is_draw es \<and> length es \<le> 1 \<and>
        (\<forall>s. r = Inr (Some s) \<longrightarrow> fresh_secret inst (secret_name inst) s) \<and> r \<noteq> Inr None"
        by (intro exI [of _ r]) (auto simp: False)
    qed
    have found': "wp (reconcileSecretOwnership L inst s) (\<lambda>es.
        secret_life L inst (secret_name inst) False
          (EvGetSecret \<lparr>okNamespace = inst_ns inst, okName = secret_name inst\<rparr> (Inr s) # es))" for s
      using found [of s] False by simp
    have create: "wp (case r of
             Inl err \<Rightarrow> Done (Some err)
           | Inr None \<Rightarrow> Done None
           | Inr (Some secret) \<Rightarrow>
               (case (if DeletionPolicyOrDefault (piSpec inst) = DeletionPolicyDelete
                      then (case libSetControllerReference L inst (secMeta secret) of
                              Inl e \<Rightarrow> Inl (ErrorWrap ''setting owner reference'' e)
                            | Inr m \<Rightarrow> Inr (secret\<lparr>secMeta := m\<rparr>))
                      else Inr secret) of
                  Inl e \<Rightarrow> Done (Some e)
                | Inr secret \<Rightarrow> CreateSecret secret (\<lambda>r. case r of
                    Some e \<Rightarrow> Done (Some (ErrorWrap (''creating secret '' @ secret_name inst) e))
                  | None \<Rightarrow> Done None)))
        (\<lambda>es'. secret_life L inst (secret_name inst) False
          (EvGetSecret \<lparr>okNamespace = inst_ns inst, okName = secret_name inst\<rparr> (Inl e) # es @ es'))"
      if "libIsNotFound L (Some e)" "list_all is_draw es" "length es \<le> 1" "r \<noteq> Inr None"
        "\<forall>s. r = Inr (Some s) \<longrightarrow> fresh_secret inst (secret_name inst) s" for e es r
      using that
      by (auto simp: secret_life_def owner fresh_secret_def stateful_owners_def
          split: sum.split option.split)
    show ?thesis
      unfolding ensureGeneratedSecret_def
      by (auto simp: found' False create intro!: wp_bindI [OF absent] split: sum.split)
         (auto simp: secret_life_def)
  qed
qed

end
text \<open>
  The life of the generated secret key. Its step reads it first. If it exists, nothing but
  its owner references is ever patched, at most once: its value is neither read back nor
  rewritten, so it never rotates. If reading fails otherwise, nothing more happens. Only if
  it is confirmed absent, and the user supplies no key of their own, is a key drawn, at most
  once, and a secret created with exactly the owners the deletion policy wants; the error of
  the creation is returned. The step never panics.
\<close>

lemma secret_key_created_once:
  assumes "lib_laws L"
  shows "wp (ensureGeneratedSecret L inst (SecretKeyName inst) (SecretKey L))
    (secret_life L inst (SecretKeyName inst) (spSecretKeySecretRef (piSpec inst) \<noteq> None))"
  by (rule secret_key.life [OF assms])

lemma secret_key_created_once_witness:
  "wp (ensureGeneratedSecret ref_lib (bare_instance ''docs'' ''ns'' ''u'') ''docs-secret-key'' (SecretKey ref_lib))
     (\<lambda>es x. es \<noteq> [] \<and> is_value x)"
  using wp_mono [OF secret_key_created_once [OF ref_lib_laws, of "bare_instance ''docs'' ''ns'' ''u''"],
      of "\<lambda>es x. es \<noteq> [] \<and> is_value x"]
  by (auto simp: secret_life_def name_defs derivedName_def bare_instance_def)

text \<open>
  The same for the admin credentials: created at most once, only when confirmed absent, and
  never when the admin account is disabled or its password comes from a secret of the user.
\<close>

lemma admin_secret_created_once:
  assumes "lib_laws L"
  shows "wp (ensureGeneratedSecret L inst (AdminSecretName inst) (AdminSecret L))
    (secret_life L inst (AdminSecretName inst) (admin_supplied inst))"
  by (rule admin_secret.life [OF assms])

lemma admin_secret_created_once_witness:
  "wp (ensureGeneratedSecret ref_lib (bare_instance ''docs'' ''ns'' ''u'') ''docs-admin'' (AdminSecret ref_lib))
     (\<lambda>es x. es \<noteq> [] \<and> is_value x)"
  using wp_mono [OF admin_secret_created_once [OF ref_lib_laws, of "bare_instance ''docs'' ''ns'' ''u''"],
      of "\<lambda>es x. es \<noteq> [] \<and> is_value x"]
  by (auto simp: secret_life_def name_defs derivedName_def bare_instance_def)

text \<open>
  C17: The two generated secrets are created at most once, and never overwritten: the step
  reads the secret by its generated name; only when the read confirms it is absent, and the
  user does not supply the secret (or has disabled the admin account), it draws a value and
  creates it; one that exists gets at most its ownership adjusted.
\<close>

theorem generated_secrets_created_once:
  assumes "lib_laws L"
  shows "wp (ensureGeneratedSecret L inst (SecretKeyName inst) (SecretKey L))
      (secret_life L inst (SecretKeyName inst) (spSecretKeySecretRef (piSpec inst) \<noteq> None)) \<and>
    wp (ensureGeneratedSecret L inst (AdminSecretName inst) (AdminSecret L))
      (secret_life L inst (AdminSecretName inst) (admin_supplied inst))"
  using secret_key_created_once [OF assms] admin_secret_created_once [OF assms] by simp

theorem generated_secrets_created_once_witness:
  "wp (ensureGeneratedSecret ref_lib (bare_instance ''docs'' ''ns'' ''u'') ''docs-admin'' (AdminSecret ref_lib))
     (\<lambda>es x. es \<noteq> [] \<and> is_value x)"
  using wp_mono [OF conjunct2 [OF generated_secrets_created_once
        [OF ref_lib_laws, of "bare_instance ''docs'' ''ns'' ''u''"]],
      of "\<lambda>es x. es \<noteq> [] \<and> is_value x"]
  by (auto simp: secret_life_def name_defs derivedName_def bare_instance_def)

text \<open>
  The read goes by the generated name whatever the user supplies: a secret of the user under
  that very name is patched under \<open>Delete\<close>, in some execution.
\<close>

definition supplying_instance :: PaperlessInstance where
  "supplying_instance = (deleting (bare_instance ''docs'' ''ns'' ''u''))
     \<lparr>piSpec := (piSpec (deleting (bare_instance ''docs'' ''ns'' ''u'')))
       \<lparr>spSecretKeySecretRef := Some \<lparr>skName = ''docs-secret-key'', skKey = ''key'', skOptional = None\<rparr>\<rparr>\<rparr>"

definition user_secret :: Secret where
  "user_secret = \<lparr>secMeta = new_meta ''docs-secret-key'' ''ns'' Map.empty,
     secData = [''key'' \<mapsto> ''s3cret''], secStringData = Map.empty\<rparr>"

lemma user_secret_gets_an_owner:
  "\<exists>b. exec (ensureGeneratedSecret ref_lib supplying_instance
        (SecretKeyName supplying_instance) (SecretKey ref_lib))
      [EvGetSecret \<lparr>okNamespace = ''ns'', okName = ''docs-secret-key''\<rparr> (Inr user_secret),
       EvPatchMerge user_secret b fieldOwner None] (Value None) \<and>
     libUnmarshalMap ref_lib b = Inr (Some (ownership_patch [controller_ref supplying_instance]))"
proof -
  have diff: "\<not> owns_matches ref_lib supplying_instance user_secret"
    and ns: "omNamespace (secMeta user_secret) = inst_ns supplying_instance"
    and ow: "stateful_owners supplying_instance = [controller_ref supplying_instance]"
    by (simp_all add: owns_matches_def isControlledBy_def ref_controller_of_def user_secret_def
        supplying_instance_def deleting_def bare_instance_def DeletionPolicyOrDefault_def stateful_owners_def)
  obtain b p where b: "libUnmarshalMap ref_lib b = Inr (Some (ownership_patch (stateful_owners supplying_instance)))"
    and eq: "reconcileSecretOwnership ref_lib supplying_instance user_secret = PatchMerge user_secret b fieldOwner
          (\<lambda>r. Done (case r of Some e \<Rightarrow> Some (ErrorWrap p e) | None \<Rightarrow> None))"
    using reconcileSecretOwnership_patch [OF ref_json_laws ref_owner_laws ns diff] .
  have "SecretKeyName supplying_instance = ''docs-secret-key''" "inst_ns supplying_instance = ''ns''"
    by (simp_all add: supplying_instance_def deleting_def bare_instance_def SecretKeyName_def derivedName_def)
  then show ?thesis
    using b by (intro exI [of _ b]) (simp add: ensureGeneratedSecret_def eq ow)
qed

section \<open>Databases\<close>

definition is_clock :: "event \<Rightarrow> bool" where
  "is_clock e \<longleftrightarrow> (case e of EvNow t \<Rightarrow> True | _ \<Rightarrow> False)"

lemma is_clock_simps [simp]: "is_clock (EvNow t)"
  by (simp add: is_clock_def)

text \<open>
  C20: An external database is declared ready, and the reconciliation goes on, exactly when the
  referenced secret was read and carries both keys the container's environment takes from
  it. A missing secret and a missing key wait instead, with a reason of their own on
  \<open>DatabaseReady\<close>; any other failure to read is an error and leaves the conditions alone.
  The one request is the read: nothing is written for an external database.
\<close>

theorem external_database_gate:
  assumes "lib_laws L" and "dbExternal (spDatabase (piSpec inst)) = Some ext"
  shows "wp (reconcileDatabase L inst) (\<lambda>es x. \<exists>r rest inst' v.
    es = EvGetSecret \<lparr>okNamespace = inst_ns inst, okName = lrName (edCredentialsSecretRef ext)\<rparr> r # rest \<and>
    x = Value (inst', v) \<and> list_all is_clock rest \<and>
    (case r of
       Inl e \<Rightarrow>
         if libIsNotFound L (Some e)
         then v = Inr False \<and> says inst' ConditionDatabaseReady ConditionFalse ''ExternalDatabaseSecretMissing''
         else rest = [] \<and> v = Inl (ErrorWrap ''getting external database secret'' e) \<and> inst' = inst
     | Inr s \<Rightarrow>
         if secData s ''username'' \<noteq> None \<and> secData s ''password'' \<noteq> None
         then v = Inr True \<and> says inst' ConditionDatabaseReady ConditionTrue ''ExternalDatabaseConfigured''
         else v = Inr False \<and> says inst' ConditionDatabaseReady ConditionFalse ''ExternalDatabaseSecretInvalid''))"
  using lib_lawsD(2,3) [OF assms(1)]
  by (auto simp: reconcileDatabase_def assms(2) reconcileExternalDatabase_def external_secret_key_def
      bind_SetCondition says_set_at not_found_laws_def Let_def split: sum.split)

theorem external_database_gate_witness:
  "wp (reconcileDatabase ref_lib external_instance) (\<lambda>es x. \<exists>r rest. es = EvGetSecret
     \<lparr>okNamespace = ''paperless'', okName = ''db-credentials''\<rparr> r # rest)"
  by (rule wp_mono [OF external_database_gate [OF ref_lib_laws,
        of external_instance "the (dbExternal (spDatabase (piSpec external_instance)))"]])
     (auto simp: external_instance_def bare_instance_def)

text \<open>The request an apply of a fresh object makes, and what it returns.\<close>

lemma applied_value:
  assumes L: "lib_laws L" and T: "typed_object x"
  obtains b p where "states_owners L b owners"
    and "Apply L (with_refs owners x) = PatchApply (with_refs owners x) b fieldOwner True
      (\<lambda>r. Done (case r of Inl e \<Rightarrow> Inl (ErrorWrap p e) | Inr obj' \<Rightarrow> Inr obj'))"
proof -
  have "typed_object (with_refs owners x)" using T by simp
  from Apply_value [OF lib_lawsD(6) [OF L] lib_lawsD(5) [OF L] this]
  obtain b p where "body_ok L (with_refs owners x) b"
    and "Apply L (with_refs owners x) = PatchApply (with_refs owners x) b fieldOwner True
      (\<lambda>r. Done (case r of Inl e \<Rightarrow> Inl (ErrorWrap p e) | Inr obj' \<Rightarrow> Inr obj'))" .
  then show thesis using that by (simp add: body_ok_def)
qed

text \<open>
  The log of applying the objects \<open>objs\<close> in order with the owners \<open>owners\<close>: one forced apply
  per object, with the owners stated in its body, up to the first that fails, whose error is
  the result; no error when all succeed.
\<close>

fun apply_log ::
    "Lib \<Rightarrow> OwnerReference list \<Rightarrow> kobject list \<Rightarrow> event list \<Rightarrow> err go \<Rightarrow> bool" where
  "apply_log L owners [] es x \<longleftrightarrow> es = [] \<and> x = Value None"
| "apply_log L owners (ob # obs) es x \<longleftrightarrow>
     (\<exists>b r es'. es = EvPatchApply (with_refs owners ob) b fieldOwner True r # es' \<and>
        states_owners L b owners \<and>
        (case r of
           Inl e \<Rightarrow> es' = [] \<and> (\<exists>p p'. x = Value (Some (ErrorWrap p (ErrorWrap p' e))))
         | Inr a \<Rightarrow> apply_log L owners obs es' x))"

lemma apply_log_length:
  "apply_log L owners objs es x \<Longrightarrow> if x = Value None then length es = length objs else es \<noteq> []"
proof (induction objs arbitrary: es)
  case (Cons ob objs)
  then obtain b r es' where es: "es = EvPatchApply (with_refs owners ob) b fieldOwner True r # es'"
    and r: "case r of Inl e \<Rightarrow> es' = [] \<and> (\<exists>p p'. x = Value (Some (ErrorWrap p (ErrorWrap p' e))))
         | Inr a \<Rightarrow> apply_log L owners objs es' x" by auto
  show ?case using es r Cons.IH by (cases r) (auto split: if_splits)
qed simp

lemma wp_apply_then:
  assumes L: "lib_laws L" and T: "typed_object x"
    and rest: "wp rest (apply_log L owners obs)"
  shows "wp (wrapped context (error_of (Apply L (with_refs owners x))) rest) (apply_log L owners (x # obs))"
proof -
  obtain b p where b: "states_owners L b owners"
    and eq: "Apply L (with_refs owners x) = PatchApply (with_refs owners x) b fieldOwner True
      (\<lambda>r. Done (case r of Inl e \<Rightarrow> Inl (ErrorWrap p e) | Inr obj' \<Rightarrow> Inr obj'))"
    using applied_value [OF L T, of owners] by blast
  have "wp rest (\<lambda>es. apply_log L owners (x # obs)
      (EvPatchApply (with_refs owners x) b fieldOwner True (Inr a) # es))" for a
    by (rule wp_mono [OF rest]) (simp add: b)
  then show ?thesis
    by (auto simp: eq b error_of_def check_def split: sum.split)
qed

lemma applyPVCs_log:
  assumes L: "lib_laws L"
  shows "list_all (\<lambda>p. OPVC p \<in> set (claim_objects L inst)) ps \<Longrightarrow>
    wp (applyPVCs L inst ps) (apply_log L (stateful_owners inst) (map OPVC ps))"
proof (induction ps)
  case (Cons p ps)
  then have fresh: "fresh_for inst (OPVC p)"
    using step_objects_fresh [of "OPVC p" L inst StStorage] by simp
  show ?case
    unfolding applyPVCs.simps list.map applyStateful_fresh [OF lib_lawsD(4) [OF L] fresh]
    by (rule wp_apply_then [OF L]) (use Cons in simp_all)
qed simp

lemma claim_objects_names:
  "quantity_laws L \<Longrightarrow> map obj_name (claim_objects L inst) =
     [DataPVCName inst, MediaPVCName inst, ConsumePVCName inst, ExportPVCName inst]"
  by (simp add: PVCs_value claim_objects_def volume_claim_def builder_simps)

text \<open>
  Storage is applied claim by claim. The step makes one forced apply per claim, in the
  order data, media, consume, export, each with the owners of the deletion policy stated
  explicitly; it stops at the first claim that fails and returns that failure, wrapped; it
  returns no error only after all four succeeded.
\<close>

lemma storage_applied_in_order:
  assumes "lib_laws L"
  shows "wp (reconcileStorage L inst) (apply_log L (stateful_owners inst) (claim_objects L inst)) \<and>
    map obj_name (claim_objects L inst) =
      [DataPVCName inst, MediaPVCName inst, ConsumePVCName inst, ExportPVCName inst]"
proof
  obtain ps where ps: "PVCs L inst = Value ps"
    using PVCs_value [OF lib_lawsD(1) [OF assms]] by blast
  then have "claim_objects L inst = map OPVC ps" by (simp add: claim_objects_def)
  moreover from this have "list_all (\<lambda>p. OPVC p \<in> set (claim_objects L inst)) ps"
    by (simp add: list_all_iff)
  ultimately show "wp (reconcileStorage L inst) (apply_log L (stateful_owners inst) (claim_objects L inst))"
    using applyPVCs_log [OF assms, of inst ps] ps by (simp add: reconcileStorage_def)
qed (rule claim_objects_names [OF lib_lawsD(1) [OF assms]])

lemma storage_applied_in_order_witness:
  "wp (reconcileStorage ref_lib (bare_instance ''docs'' ''ns'' ''u''))
     (\<lambda>es x. if x = Value None then length es = 4 else es \<noteq> [])"
  by (rule wp_mono [OF conjunct1 [OF storage_applied_in_order [OF ref_lib_laws]]])
     (drule apply_log_length, simp add: claim_objects_def PVCs_value)

text \<open>
  With an external cache the cache step requests nothing and cannot fail. With the managed
  one it applies the Valkey Deployment, Service and claim, in that order and always owned
  by the instance, up to the first failure.
\<close>

lemma cache_applied_in_order:
  assumes "lib_laws L"
  shows "wp (reconcileCache L inst) (apply_log L [controller_ref inst] (cache_objects L inst)) \<and>
    map (\<lambda>x. (kind_of x, obj_name x)) (cache_objects L inst) =
      (if IsManaged (spCache (piSpec inst))
       then [(KDeployment, ValkeyName inst), (KService, ValkeyName inst), (KPVC, ValkeyName inst)]
       else [])"
proof (cases "IsManaged (spCache (piSpec inst))")
  case False
  then show ?thesis
    using ValkeyPVC_value [OF lib_lawsD(1) [OF assms], of inst]
    by (simp add: reconcileCache_def cache_objects_def ValkeyDeployment_def ValkeyService_def check_def)
next
  case True
  then obtain d s where d: "ValkeyDeployment inst = Some d" and s: "ValkeyService inst = Some s"
    by (cases "ValkeyDeployment inst"; cases "ValkeyService inst"; simp)
  let ?p = "buildPVC inst (ValkeyName inst) ''cache'' ''1Gi'' [] None"
  have p: "ValkeyPVC L inst = Value (Some ?p)"
    using True ValkeyPVC_value [OF lib_lawsD(1) [OF assms]] by simp
  have objs: "cache_objects L inst = [ODeployment d, OService s, OPVC ?p]"
    by (simp add: cache_objects_def d s p)
  then have fresh: "fresh_for inst (ODeployment d)" "fresh_for inst (OService s)" "fresh_for inst (OPVC ?p)"
    using step_objects_fresh [of _ L inst StCache] by simp_all
  note own = fresh [THEN applyOwned_fresh [OF lib_lawsD(4) [OF assms]]]
  have "wp (reconcileCache L inst) (apply_log L [controller_ref inst] (cache_objects L inst))"
    unfolding reconcileCache_def objs d s p option.case lift_go.simps bind.simps own
    by (intro wp_apply_then [OF assms]) simp_all
  then show ?thesis
    using True by (simp add: objs builder_simps d [THEN ValkeyDeployment_sel(1)] s [THEN ValkeyService_sel(1)])
qed

lemma cache_applied_in_order_witness:
  "wp (reconcileCache ref_lib (bare_instance ''docs'' ''ns'' ''u''))
     (\<lambda>es x. if x = Value None then length es = 3 else es \<noteq> [])"
proof -
  let ?i = "bare_instance ''docs'' ''ns'' ''u''"
  have "map (\<lambda>x. (kind_of x, obj_name x)) (cache_objects ref_lib ?i) =
      [(KDeployment, ''docs-valkey''), (KService, ''docs-valkey''), (KPVC, ''docs-valkey'')]"
    using conjunct2 [OF cache_applied_in_order [OF ref_lib_laws, of ?i]]
    by (simp add: bare_instance_def zero_spec_def IsManaged_def name_defs derivedName_def)
  then obtain x y z where "cache_objects ref_lib ?i = [x, y, z]" by (auto simp: map_eq_Cons_conv)
  then show ?thesis
    by (intro wp_mono [OF conjunct1 [OF cache_applied_in_order [OF ref_lib_laws, of ?i]]])
       (drule apply_log_length, simp)
qed

text \<open>
  C21: A managed database is only applied once CloudNativePG's cluster kind is known to the API
  server. While it is missing the step waits, with a reason on \<open>DatabaseReady\<close>, and applies
  nothing; any other failure of the look-up is an error. When it is there, an invalid
  cluster name is an error before anything is sent; otherwise the cluster is applied once,
  with the owners of the deletion policy, and only a successful apply marks the database
  ready and lets the reconciliation go on.
\<close>

theorem managed_database_gate:
  assumes "lib_laws L" and "dbExternal (spDatabase (piSpec inst)) = None"
  shows "wp (reconcileDatabase L inst) (\<lambda>es x. \<exists>r rest inst' v.
    es = EvGetCRD ''clusters.postgresql.cnpg.io'' r # rest \<and> x = Value (inst', v) \<and>
    (case r of
       Some e \<Rightarrow>
         if libIsNotFound L (Some e)
         then v = Inr False \<and> list_all is_clock rest \<and>
           says inst' ConditionDatabaseReady ConditionFalse ''CloudNativePGMissing''
         else rest = [] \<and> inst' = inst \<and> v = Inl (ErrorWrap ''checking for CloudNativePG'' e)
     | None \<Rightarrow>
         if libIsDNS1123Subdomain L (DBName inst) \<noteq> []
         then rest = [] \<and> inst' = inst \<and> (\<exists>e. v = Inl e)
         else (\<exists>c b r' rest'. cluster_objects L inst = [c] \<and>
           rest = EvPatchApply (with_refs (stateful_owners inst) c) b fieldOwner True r' # rest' \<and>
           states_owners L b (stateful_owners inst) \<and> list_all is_clock rest' \<and>
           (case r' of
              Inl e \<Rightarrow> inst' = inst \<and> (\<exists>p p'. v = Inl (ErrorWrap p (ErrorWrap p' e)))
            | Inr a \<Rightarrow> v = Inr True \<and>
                says inst' ConditionDatabaseReady ConditionTrue ''CloudNativePGClusterApplied''))))"
proof (cases "libIsDNS1123Subdomain L (DBName inst) = []")
  case False
  then obtain e where "CNPGCluster L inst = Value (Inl (ErrorMsg e))"
    using CNPGCluster_invalid by blast
  then show ?thesis
    using assms(2) False lib_lawsD(2) [OF assms(1)]
    by (auto simp: reconcileDatabase_def reconcileManagedDatabase_def cnpgInstalled_def cnpgCRDName_def
        bind_SetCondition says_set_at split: option.split)
next
  case True
  then obtain c where c: "CNPGCluster L inst = Value (Inr c)"
    using CNPGCluster_valid [OF lib_lawsD(1) [OF assms(1)] lib_lawsD(7) [OF assms(1)]] by blast
  then have objs: "cluster_objects L inst = [OUnstructured c]" by (simp add: cluster_objects_def)
  then have "OUnstructured c \<in> set (step_objects L inst StDatabase)"
    using assms(2) by (simp add: IsExternal_def)
  then have fresh: "fresh_for inst (OUnstructured c)" and T: "typed_object (OUnstructured c)"
    using step_objects_fresh step_objects_typed by blast+
  obtain b p where b: "states_owners L b (stateful_owners inst)"
    and eq: "applyStateful L inst (OUnstructured c) =
      PatchApply (with_refs (stateful_owners inst) (OUnstructured c)) b fieldOwner True
      (\<lambda>r. Done (case r of Inl e \<Rightarrow> Inl (ErrorWrap p e) | Inr obj' \<Rightarrow> Inr obj'))"
    using applied_value [OF assms(1) T, of "stateful_owners inst"]
    unfolding applyStateful_fresh [OF lib_lawsD(4) [OF assms(1)] fresh] by blast
  show ?thesis
    using assms(2) True lib_lawsD(2) [OF assms(1)]
    by (auto simp: reconcileDatabase_def reconcileManagedDatabase_def cnpgInstalled_def cnpgCRDName_def
        bind_SetCondition says_set_at c objs b eq error_of_def split: option.split sum.split)
qed

theorem managed_database_gate_witness:
  "wp (reconcileDatabase ref_lib (bare_instance ''docs'' ''ns'' ''u'')) (\<lambda>es x. \<exists>r rest.
     es = EvGetCRD ''clusters.postgresql.cnpg.io'' r # rest \<and> is_value x)"
  by (rule wp_mono [OF managed_database_gate [OF ref_lib_laws]])
     (auto simp: bare_instance_def zero_spec_def)

section \<open>Workload\<close>

text \<open>
  C22: The workload step applies the Service, then the Deployment, both owned by the instance,
  and stops at the first failure with the conditions untouched. When both succeed, \<open>Ready\<close> is
  set from the Deployment the server returned for this very apply: true exactly when it
  reports at least one ready replica, as a signed number.
\<close>

theorem workload_reports_replicas:
  assumes "lib_laws L"
  shows "wp (reconcileWorkload L inst) (\<lambda>es x. \<exists>b r rest inst' e.
    es = EvPatchApply (with_refs [controller_ref inst] (OService (PaperlessService inst))) b fieldOwner True r # rest \<and>
    states_owners L b [controller_ref inst] \<and> x = Value (inst', e) \<and>
    (case r of
       Inl err \<Rightarrow> rest = [] \<and> inst' = inst \<and> e \<noteq> None
     | Inr svc \<Rightarrow> (\<exists>b' r' rest'. states_owners L b' [controller_ref inst] \<and>
         rest = EvPatchApply (with_refs [controller_ref inst] (ODeployment (PaperlessDeployment L inst)))
           b' fieldOwner True r' # rest' \<and>
         (case r' of
            Inl err \<Rightarrow> rest' = [] \<and> inst' = inst \<and> e \<noteq> None
          | Inr resp \<Rightarrow> list_all is_clock rest' \<and> e = None \<and>
              (if (case resp of ODeployment d \<Rightarrow> 1 \<le> sint (depReadyReplicas d) | _ \<Rightarrow> False)
               then says inst' ConditionReady ConditionTrue ''WorkloadReady''
               else says inst' ConditionReady ConditionFalse ''WorkloadNotReady'')))))"
proof -
  have objs: "set (step_objects L inst StWorkload) =
      {OService (PaperlessService inst), ODeployment (PaperlessDeployment L inst)}"
    by (simp add: workload_objects_def)
  then have fresh: "fresh_for inst (OService (PaperlessService inst))"
      "fresh_for inst (ODeployment (PaperlessDeployment L inst))"
    using step_objects_fresh [of _ L inst StWorkload] by simp_all
  note own = fresh [THEN applyOwned_fresh [OF lib_lawsD(4) [OF assms]]]
  obtain b p where svc: "states_owners L b [controller_ref inst]"
    "applyOwned L inst (OService (PaperlessService inst)) =
      PatchApply (with_refs [controller_ref inst] (OService (PaperlessService inst))) b fieldOwner True
      (\<lambda>r. Done (case r of Inl e \<Rightarrow> Inl (ErrorWrap p e) | Inr obj' \<Rightarrow> Inr obj'))"
    using applied_value [OF assms, of "OService (PaperlessService inst)" "[controller_ref inst]"]
    unfolding own by auto
  obtain b' p' where dep: "states_owners L b' [controller_ref inst]"
    "applyOwned L inst (ODeployment (PaperlessDeployment L inst)) =
      PatchApply (with_refs [controller_ref inst] (ODeployment (PaperlessDeployment L inst))) b' fieldOwner True
      (\<lambda>r. Done (case r of Inl e \<Rightarrow> Inl (ErrorWrap p' e) | Inr obj' \<Rightarrow> Inr obj'))"
    using applied_value [OF assms, of "ODeployment (PaperlessDeployment L inst)" "[controller_ref inst]"]
    unfolding own by auto
  show ?thesis
    unfolding reconcileWorkload_def Let_def error_of_def
    by (auto simp: svc dep bind_SetCondition response_ready [unfolded reports_ready_def]
        says_set_at lib_lawsD(2) [OF assms] split: sum.split)
qed

theorem workload_reports_replicas_witness:
  "wp (reconcileWorkload ref_lib (bare_instance ''docs'' ''ns'' ''u'')) (\<lambda>es x. es \<noteq> [] \<and> is_value x)"
  by (rule wp_mono [OF workload_reports_replicas [OF ref_lib_laws]]) auto

end
