(* ===== verification/Manager.thy ===== *)
theory Manager
  imports Controller
begin

text \<open>
  \<open>internal/manager/options.go\<close>, \<open>internal/version/version.go\<close>, the default configuration of \<open>cmd/main.go\<close>,
  the registration of the API types (\<open>api/v1alpha1/groupversion_info.go\<close>), and the
  permissions and watches the controller declares
  (\<open>internal/controller/paperlessinstance_controller.go\<close>).
\<close>

section \<open>Version\<close>

definition version_String :: "string \<Rightarrow> string \<Rightarrow> string" where
  "version_String Version Commit =
     (let v = (if Version = [] then ''dev'' else Version);
          c = (if Commit = [] then ''unknown'' else Commit)
      in v @ '' ('' @ c @ '')'')"

section \<open>Scheme and options\<close>

text \<open>
  The scheme is of a library type \<open>'s\<close>: \<open>runtime.NewScheme\<close>, the registration of client-go's
  types, a scheme's \<open>AddKnownTypes\<close>, \<open>metav1.AddToGroupVersion\<close> and the \<open>AddToScheme\<close> of a
  \<open>runtime.SchemeBuilder\<close> are parameters. A registration returns an error next to the scheme
  it has changed.
\<close>

type_synonym 's registration = "'s \<Rightarrow> err \<times> 's"

record 's scheme_lib =
  slNewScheme :: 's
  slClientgoAddToScheme :: "'s registration"
  slAddKnownTypes :: "string \<times> string \<Rightarrow> string list \<Rightarrow> 's \<Rightarrow> 's"
  slAddToGroupVersion :: "string \<times> string \<Rightarrow> 's \<Rightarrow> 's"
  slBuilderAddToScheme :: "'s registration list \<Rightarrow> 's registration"

definition addKnownTypes :: "'s scheme_lib \<Rightarrow> 's registration" where
  "addKnownTypes S scheme =
     (let scheme = slAddKnownTypes S GroupVersion [''PaperlessInstance'', ''PaperlessInstanceList''] scheme;
          scheme = slAddToGroupVersion S GroupVersion scheme
      in (None, scheme))"

definition SchemeBuilder :: "'s scheme_lib \<Rightarrow> 's registration list" where
  "SchemeBuilder S = [addKnownTypes S]"

definition AddToScheme :: "'s scheme_lib \<Rightarrow> 's registration" where
  "AddToScheme S = slBuilderAddToScheme S (SchemeBuilder S)"

definition LeaderElectionID :: string where
  "LeaderElectionID = ''paperless-ngx-operator.paperless.p3l1.de''"

record Config =
  cfMetricsAddress :: string
  cfProbeAddress :: string
  cfLeaderElection :: bool

record 's Options =
  opScheme :: 's
  opCacheDisableFor :: "kind list"
  opMetricsBindAddress :: string
  opHealthProbeBindAddress :: string
  opLeaderElection :: bool
  opLeaderElectionID :: string

text \<open>\<open>utilruntime.Must\<close> panics with an error.\<close>

fun Must :: "err \<times> 's \<Rightarrow> 's go" where
  "Must (None, scheme) = Value scheme"
| "Must (Some e, scheme) = Panic (Error e)"

definition ControllerOptions :: "'s scheme_lib \<Rightarrow> Config \<Rightarrow> 's Options go" where
  "ControllerOptions S c =
     go_bind (Must (slClientgoAddToScheme S (slNewScheme S))) (\<lambda>scheme.
     go_bind (Must (AddToScheme S scheme)) (\<lambda>scheme.
     Value \<lparr>
       opScheme = scheme,
       opCacheDisableFor = [KSecret],
       opMetricsBindAddress = cfMetricsAddress c,
       opHealthProbeBindAddress = cfProbeAddress c,
       opLeaderElection = cfLeaderElection c,
       opLeaderElectionID = LeaderElectionID\<rparr>))"

text \<open>
  A builder's \<open>AddToScheme\<close> applies its functions to the scheme, in their order, and returns
  the error of the first that fails.
\<close>

fun register_all :: "'s registration list \<Rightarrow> 's registration" where
  "register_all [] scheme = (None, scheme)"
| "register_all (f # fs) scheme = (case f scheme of
     (Some e, scheme') \<Rightarrow> (Some e, scheme')
   | (None, scheme') \<Rightarrow> register_all fs scheme')"

definition scheme_laws :: "'s scheme_lib \<Rightarrow> bool" where
  "scheme_laws S \<longleftrightarrow> (\<forall>fs scheme. slBuilderAddToScheme S fs scheme = register_all fs scheme)"

text \<open>The scheme with everything registered, when client-go's types could be.\<close>

definition full_scheme :: "'s scheme_lib \<Rightarrow> 's \<Rightarrow> 's" where
  "full_scheme S scheme = slAddToGroupVersion S GroupVersion
     (slAddKnownTypes S GroupVersion [''PaperlessInstance'', ''PaperlessInstanceList''] scheme)"

lemma ControllerOptions_value:
  assumes "scheme_laws S"
  shows "ControllerOptions S c = (case slClientgoAddToScheme S (slNewScheme S) of
     (Some e, scheme) \<Rightarrow> Panic (Error e)
   | (None, scheme) \<Rightarrow> Value \<lparr>opScheme = full_scheme S scheme, opCacheDisableFor = [KSecret],
       opMetricsBindAddress = cfMetricsAddress c, opHealthProbeBindAddress = cfProbeAddress c,
       opLeaderElection = cfLeaderElection c, opLeaderElectionID = LeaderElectionID\<rparr>)"
  using assms
  by (auto simp: ControllerOptions_def AddToScheme_def SchemeBuilder_def addKnownTypes_def scheme_laws_def
      full_scheme_def Let_def split: prod.split option.split)

text \<open>The configuration when no flag is given.\<close>

definition default_config :: Config where
  "default_config = \<lparr>cfMetricsAddress = '':8080'', cfProbeAddress = '':8081'', cfLeaderElection = False\<rparr>"

section \<open>Permissions\<close>

text \<open>The \<open>kubebuilder:rbac\<close> markers, in the order of the source.\<close>

record rule =
  ruGroup :: string
  ruResources :: "string list"
  ruVerbs :: "string list"

definition all_verbs :: "string list" where
  "all_verbs = [''get'', ''list'', ''watch'', ''create'', ''update'', ''patch'', ''delete'']"

definition rbac_rules :: "rule list" where
  "rbac_rules =
    [\<lparr>ruGroup = ''paperless.p3l1.de'', ruResources = [''paperlessinstances''], ruVerbs = all_verbs\<rparr>,
     \<lparr>ruGroup = ''paperless.p3l1.de'', ruResources = [''paperlessinstances/status''],
      ruVerbs = [''get'', ''update'', ''patch'']\<rparr>,
     \<lparr>ruGroup = ''paperless.p3l1.de'', ruResources = [''paperlessinstances/finalizers''],
      ruVerbs = [''update'']\<rparr>,
     \<lparr>ruGroup = ''apps'', ruResources = [''deployments''], ruVerbs = all_verbs\<rparr>,
     \<lparr>ruGroup = [], ruResources = [''services'', ''persistentvolumeclaims''], ruVerbs = all_verbs\<rparr>,
     \<lparr>ruGroup = [], ruResources = [''secrets''],
      ruVerbs = [''get'', ''create'', ''update'', ''patch'', ''delete'']\<rparr>,
     \<lparr>ruGroup = [], ruResources = [''events''], ruVerbs = [''create'', ''patch'']\<rparr>,
     \<lparr>ruGroup = ''postgresql.cnpg.io'', ruResources = [''clusters''], ruVerbs = all_verbs\<rparr>,
     \<lparr>ruGroup = ''apiextensions.k8s.io'', ruResources = [''customresourcedefinitions''],
      ruVerbs = [''get'', ''list'', ''watch'']\<rparr>]"

definition permitted :: "string \<times> string \<Rightarrow> string \<Rightarrow> bool" where
  "permitted res verb \<longleftrightarrow>
     list_ex (\<lambda>r. ruGroup r = fst res \<and> snd res \<in> set (ruResources r) \<and> verb \<in> set (ruVerbs r)) rbac_rules"

text \<open>\<open>SetupWithManager\<close>: the kinds that are watched, the first through \<open>For\<close>.\<close>

definition watched :: "(string \<times> string) list" where
  "watched = [(''paperless.p3l1.de'', ''paperlessinstances''), (''apps'', ''deployments''),
     ([], ''services''), ([], ''persistentvolumeclaims'')]"

section \<open>What a request needs\<close>

text \<open>The resource of an object; an unstructured one has the group of its API version.\<close>

fun resource_of :: "kobject \<Rightarrow> string \<times> string" where
  "resource_of (ODeployment d) = (''apps'', ''deployments'')"
| "resource_of (OService s) = ([], ''services'')"
| "resource_of (OPVC p) = ([], ''persistentvolumeclaims'')"
| "resource_of (OSecret s) = ([], ''secrets'')"
| "resource_of (OUnstructured u) = (takeWhile (\<lambda>c. c \<noteq> CHR ''/'') (unAPIVersion u),
     if unKind u = ''Cluster'' then ''clusters'' else unKind u)"

text \<open>
  Reading a cached kind lists and watches it; a kind whose cache is disabled is only got, and
  so is an unstructured object. An apply creates what is not there.
\<close>

fun needs :: "kind list \<Rightarrow> event \<Rightarrow> (string \<times> string) \<times> string list" where
  "needs uncached (EvGetInstance k r) = ((''paperless.p3l1.de'', ''paperlessinstances''), [''get'', ''list'', ''watch''])"
| "needs uncached (EvGetSecret k r) =
     (([], ''secrets''), if KSecret \<in> set uncached then [''get''] else [''get'', ''list'', ''watch''])"
| "needs uncached (EvGetCRD n r) = ((''apiextensions.k8s.io'', ''customresourcedefinitions''), [''get''])"
| "needs uncached (EvCreateSecret s r) = (([], ''secrets''), [''create''])"
| "needs uncached (EvPatchApply x b o' fo r) = (resource_of x, [''create'', ''patch''])"
| "needs uncached (EvPatchMerge s b o' r) = (([], ''secrets''), [''patch''])"
| "needs uncached (EvPatchStatus i i' r) = ((''paperless.p3l1.de'', ''paperlessinstances/status''), [''patch''])"
| "needs uncached (EvReadRand n r) = (([], []), [])"
| "needs uncached (EvNow t) = (([], []), [])"

definition allowed :: "kind list \<Rightarrow> event \<Rightarrow> bool" where
  "allowed uncached e \<longleftrightarrow> (case needs uncached e of (res, verbs) \<Rightarrow> list_all (permitted res) verbs)"

section \<open>Lemmas\<close>

lemma allowed_simps [simp]:
  "allowed u (EvGetInstance k r0)" "allowed [KSecret] (EvGetSecret k r1)" "allowed u (EvGetCRD n r2)"
  "allowed u (EvCreateSecret s r3)" "allowed u (EvPatchMerge s b o' r4)" "allowed u (EvPatchStatus i i' r5)"
  "allowed u (EvReadRand j r6)" "allowed u (EvNow t)"
  by (simp_all add: allowed_def permitted_def rbac_rules_def all_verbs_def)

lemma allowed_apply [simp]:
  "allowed u (EvPatchApply (ODeployment d) b0 o0 f0 r0)"
  "allowed u (EvPatchApply (OService s) b1 o1 f1 r1)"
  "allowed u (EvPatchApply (OPVC p) b2 o2 f2 r2)"
  "unAPIVersion c = cnpgAPIVersion \<Longrightarrow> unKind c = cnpgKind \<Longrightarrow> allowed u (EvPatchApply (OUnstructured c) b3 o3 f3 r3)"
  by (simp_all add: allowed_def permitted_def rbac_rules_def all_verbs_def cnpgAPIVersion_def cnpgKind_def)

lemma emits_error_of [emits_intros]: "emits P p \<Longrightarrow> emits P (error_of p)"
  unfolding error_of_def by (rule emits_bind) (auto split: sum.split)

lemma emits_RandomKey: "(\<And>n r. P (EvReadRand n r)) \<Longrightarrow> emits P (RandomKey n)"
  by (auto simp: RandomKey_def split: sum.split)

lemma emits_ensure:
  "emits (allowed [KSecret]) (build inst) \<Longrightarrow> emits (allowed [KSecret]) (ensureGeneratedSecret L inst name build)"
  unfolding ensureGeneratedSecret_def
  by (auto intro!: emits_bind reconcileSecretOwnership_emits split: sum.split option.split)

lemma emits_secret_builders:
  "emits (allowed u) (SecretKey L inst)" "emits (allowed u) (AdminSecret L inst)"
  by (auto simp: SecretKey_def AdminSecret_def Let_def intro!: emits_bind emits_RandomKey
      split: option.split sum.split)

lemma emits_secrets: "emits (allowed [KSecret]) (reconcileSecrets L inst)"
  unfolding reconcileSecrets_def
  by (intro emits_check emits_ensure emits_secret_builders) simp

lemma emits_storage: "emits (allowed u) (reconcileStorage L inst)"
proof -
  have "emits (allowed u) (applyPVCs L inst ps)" for ps
    by (induction ps) (auto intro!: emits_check emits_error_of applyStateful_emits)
  then show ?thesis by (auto simp: reconcileStorage_def intro: emits_bind)
qed

lemma emits_database: "emits (allowed [KSecret]) (reconcileDatabase L inst)"
proof -
  have keys: "emits (allowed [KSecret]) (requireKeys L inst ext secret ks)" for ext secret ks
    by (induction ks) (auto simp: bind_SetCondition)
  have cluster: "emits (allowed [KSecret]) (applyStateful L inst (OUnstructured c))"
    if "CNPGCluster L inst = Value (Inr c)" for c
    using CNPGCluster_meta [OF that] by (auto intro!: applyStateful_emits)
  have "emits (allowed [KSecret]) (reconcileManagedDatabase L inst)"
    unfolding reconcileManagedDatabase_def cnpgInstalled_def
    by (cases "CNPGCluster L inst")
       (auto simp: bind_SetCondition intro!: emits_bind emits_error_of cluster
         split: option.split sum.split bool.split)
  then show ?thesis
    by (auto simp: reconcileDatabase_def reconcileExternalDatabase_def keys bind_SetCondition Let_def
        split: option.split sum.split)
qed

lemma emits_cache: "emits (allowed u) (reconcileCache L inst)"
  unfolding reconcileCache_def
  by (auto intro!: emits_check emits_bind emits_error_of applyOwned_emits split: option.split)

lemma emits_workload: "emits (allowed u) (reconcileWorkload L inst)"
  unfolding reconcileWorkload_def
  by (auto simp: bind_SetCondition Let_def intro!: emits_bind emits_error_of applyOwned_emits
      split: option.split sum.split)

lemma emits_step_failed: "emits (allowed u) (step_failed L inst re c e)"
  by (simp add: step_failed_def bind_SetCondition)

lemma emits_reconcileInstance: "emits (allowed [KSecret]) (reconcileInstance L inst)"
  unfolding reconcileInstance_def
  by (auto intro!: emits_bind emits_secrets emits_storage emits_database emits_cache emits_workload
      simp: emits_step_failed database_not_ready_def bind_SetCondition
      split: option.split sum.split bool.split)

section \<open>Properties\<close>

text \<open>
  C23: The declared permissions are enough. Whatever the API server and the libraries answer,
  every request a reconciliation makes is permitted by the RBAC markers, with the options
  the manager is built with (secrets are not cached, so reading one needs no list or watch),
  and so are the watches the controller registers. If there are no options, it is because
  registering the types failed, and the program panics before it makes a request.
\<close>

theorem rbac_permits_every_request:
  "(case ControllerOptions S c of
      Value opts \<Rightarrow> emits (allowed (opCacheDisableFor opts)) (Reconcile L req)
    | Panic m \<Rightarrow> (let (e1, scheme) = slClientgoAddToScheme S (slNewScheme S); (e2, scheme') = AddToScheme S scheme
        in \<exists>e. m = Error e \<and> Some e \<in> {e1, e2})) \<and>
   list_all (\<lambda>res. permitted res ''list'' \<and> permitted res ''watch'') watched"
proof
  have r: "emits (allowed [KSecret]) (Reconcile L req)"
    by (auto simp: Reconcile_def Let_def bind_SetCondition patchStatus_eq
        intro!: emits_bind emits_reconcileInstance split: sum.split option.split)
  obtain e1 s1 where s1: "slClientgoAddToScheme S (slNewScheme S) = (e1, s1)" by fastforce
  obtain e2 s2 where s2: "AddToScheme S s1 = (e2, s2)" by fastforce
  show "case ControllerOptions S c of
      Value opts \<Rightarrow> emits (allowed (opCacheDisableFor opts)) (Reconcile L req)
    | Panic m \<Rightarrow> (let (e1, scheme) = slClientgoAddToScheme S (slNewScheme S); (e2, scheme') = AddToScheme S scheme
        in \<exists>e. m = Error e \<and> Some e \<in> {e1, e2})"
    by (cases e1; cases e2) (auto simp: ControllerOptions_def s1 s2 r)
  show "list_all (\<lambda>res. permitted res ''list'' \<and> permitted res ''watch'') watched"
    by (simp add: watched_def permitted_def rbac_rules_def all_verbs_def)
qed

end
