(* ===== verification/Go_Memory.thy ===== *)
theory Go_Memory
  imports Op_Prelude "HOL-Library.Sublist" "HOL-Library.Monad_Syntax"
begin

text \<open>
  A small model of Go's memory, for the code whose point is what two values share: the deep
  copies of \<open>api/v1alpha1/zz_generated.deepcopy.go\<close>. A store is the list of the cells allocated
  so far, and an address is a position in it, so an allocation never reuses an address; a nil
  pointer or a nil slice is \<open>None\<close>; a slice is a window of an array cell. Dereferencing an
  address that is not allocated, or that holds a cell of another type, has no value: Go's type
  system excludes it, and the theorems about well-typed values say that it does not happen.

  The interface \<open>deep_copier\<close> states what a deep copy of one type promises: a value equal in
  content, made only of fresh cells, with no cell that existed before changed. The combinators
  for pointers, slices and struct fields keep it, so that the struct copies inherit it.
\<close>

type_synonym addr = nat
type_synonym 'm store = "'m list"

definition lookup :: "'m store \<Rightarrow> addr \<Rightarrow> 'm option" where
  "lookup s a = (if a < length s then Some (s ! a) else None)"

definition alloc :: "'m store \<Rightarrow> 'm \<Rightarrow> addr \<times> 'm store" where
  "alloc s m = (length s, s @ [m])"

definition load :: "('m \<Rightarrow> 'a option) \<Rightarrow> 'm store \<Rightarrow> addr \<Rightarrow> 'a option" where
  "load prj s a = Option.bind (lookup s a) prj"

text \<open>Two stores agree on a set of addresses.\<close>

definition same_on :: "addr set \<Rightarrow> 'm store \<Rightarrow> 'm store \<Rightarrow> bool" where
  "same_on A s t \<longleftrightarrow> (\<forall>a\<in>A. lookup s a = lookup t a)"

definition below :: "nat \<Rightarrow> addr set" where
  "below n = {..<n}"

definition between :: "nat \<Rightarrow> nat \<Rightarrow> addr set" where
  "between m n = {m..<n}"

lemma in_below [simp]: "a \<in> below n \<longleftrightarrow> a < n"
  by (simp add: below_def)

lemma in_between [simp]: "a \<in> between m n \<longleftrightarrow> m \<le> a \<and> a < n"
  by (simp add: between_def)

lemma lookup_append: "a < length s \<Longrightarrow> lookup (s @ t) a = lookup s a"
  by (simp add: lookup_def nth_append)

lemma lookup_update: "lookup (s[a := m]) b = (if b = a \<and> a < length s then Some m else lookup s b)"
  by (auto simp: lookup_def)

lemma lookup_Some_less: "lookup s a = Some m \<Longrightarrow> a < length s"
  by (simp add: lookup_def split: if_splits)

lemma load_Some_less: "load prj s a = Some x \<Longrightarrow> a < length s"
  by (auto simp: load_def lookup_def bind_eq_Some_conv split: if_splits)

lemma prefix_same_on: "prefix s t \<Longrightarrow> A \<subseteq> below (length s) \<Longrightarrow> same_on A s t"
  by (auto simp: same_on_def lookup_def nth_append elim!: prefixE)

lemma prefix_update_new: "prefix s t \<Longrightarrow> length s \<le> a \<Longrightarrow> prefix s (t[a := m])"
  by (auto simp: list_update_append elim!: prefixE)

lemma prefix_len: "prefix s t \<Longrightarrow> length s \<le> length t"
  by (rule prefix_length_le)

lemma same_on_mono: "same_on B s t \<Longrightarrow> A \<subseteq> B \<Longrightarrow> same_on A s t"
  by (auto simp: same_on_def)

lemma same_on_Un [simp]: "same_on (A \<union> B) s t \<longleftrightarrow> same_on A s t \<and> same_on B s t"
  by (auto simp: same_on_def)

lemma same_on_insert [simp]:
  "same_on (insert a A) s t \<longleftrightarrow> lookup s a = lookup t a \<and> same_on A s t"
  by (auto simp: same_on_def)

lemma same_on_empty [simp]: "same_on {} s t"
  by (simp add: same_on_def)

lemma same_on_update: "a \<notin> A \<Longrightarrow> same_on A s (s[a := m])"
  by (auto simp: same_on_def lookup_update)

section \<open>The contract of a deep copy\<close>

text \<open>
  \<open>view\<close> reads the content of a value out of the store, and has no result on a value that is not
  well typed there; \<open>reach\<close> is the set of mutable cells the value gives access to.
\<close>

locale deep_copier =
  fixes copy :: "'m store \<Rightarrow> 'h \<Rightarrow> ('h \<times> 'm store) option"
    and view :: "'m store \<Rightarrow> 'h \<Rightarrow> 'c option"
    and reach :: "'m store \<Rightarrow> 'h \<Rightarrow> addr set"
  assumes copies: "view s v = Some c \<Longrightarrow>
      \<exists>v' s'. copy s v = Some (v', s') \<and> view s' v' = Some c \<and> prefix s s' \<and>
              reach s' v' \<subseteq> between (length s) (length s')"
    and frame: "view s v = Some c \<Longrightarrow> same_on (reach s v) s t \<Longrightarrow>
      view t v = Some c \<and> reach t v = reach s v"
    and allocated: "view s v = Some c \<Longrightarrow> reach s v \<subseteq> below (length s)"
begin

lemma view_prefix:
  assumes v: "view s v = Some c" and p: "prefix s t"
  shows "view t v = Some c \<and> reach t v = reach s v"
  by (rule frame [OF v prefix_same_on [OF p allocated [OF v]]])

lemma view_update:
  assumes v: "view s v = Some c" and a: "a \<notin> reach s v"
  shows "view (s[a := m]) v = Some c \<and> reach (s[a := m]) v = reach s v"
  by (rule frame [OF v same_on_update [OF a]])

text \<open>
  After the copy the two values live in disjoint cells: whatever is written to cells that one of
  them does not reach leaves its content as it was.
\<close>

lemma independent:
  assumes v: "view s v = Some c"
  obtains v' s' where "copy s v = Some (v', s')" "view s' v' = Some c" "view s' v = Some c"
    "reach s' v \<inter> reach s' v' = {}" "prefix s s'"
    "\<And>t. same_on (reach s' v) s' t \<Longrightarrow> view t v = Some c"
    "\<And>t. same_on (reach s' v') s' t \<Longrightarrow> view t v' = Some c"
proof -
  obtain v' s' where c: "copy s v = Some (v', s')" "view s' v' = Some c" "prefix s s'"
      "reach s' v' \<subseteq> between (length s) (length s')"
    using copies [OF v] by blast
  have old: "view s' v = Some c" "reach s' v = reach s v"
    using view_prefix [OF v c(3)] by simp_all
  have "reach s' v \<inter> reach s' v' = {}"
    using allocated [OF v] c(4) old(2) by fastforce
  then show thesis
    using that [OF c(1,2) old(1) _ c(3)] frame [OF old(1)] frame [OF c(2)] by blast
qed

end

text \<open>A value without pointers is copied by the assignment itself.\<close>

definition keep :: "'m store \<Rightarrow> 'h \<Rightarrow> ('h \<times> 'm store) option" where
  "keep s v = Some (v, s)"

definition keep_view :: "'m store \<Rightarrow> 'h \<Rightarrow> 'h option" where
  "keep_view s v = Some v"

definition keep_reach :: "'m store \<Rightarrow> 'h \<Rightarrow> addr set" where
  "keep_reach s v = {}"

lemmas keep_defs = keep_def keep_view_def keep_reach_def

interpretation flat: deep_copier keep keep_view keep_reach
  by unfold_locales (auto simp: keep_defs)

section \<open>References\<close>

text \<open>
  Copying through a reference: the cell it names is read, a new cell is allocated, the content
  is copied into it, and the result refers to the new cell. Pointers and slices are its two
  instances: \<open>adr\<close> is the cell a reference names, \<open>win\<close> the part of the cell it shows, and
  \<open>new\<close> the reference to all of a cell.
\<close>

definition load_ref ::
    "('r \<Rightarrow> addr) \<Rightarrow> ('r \<Rightarrow> 'h \<Rightarrow> 'h option) \<Rightarrow> ('m \<Rightarrow> 'h option) \<Rightarrow> 'm store \<Rightarrow> 'r \<Rightarrow> 'h option" where
  "load_ref adr win prj s r = Option.bind (load prj s (adr r)) (win r)"

definition copy_ref ::
    "('r \<Rightarrow> addr) \<Rightarrow> ('r \<Rightarrow> 'h \<Rightarrow> 'h option) \<Rightarrow> (addr \<Rightarrow> 'h \<Rightarrow> 'r) \<Rightarrow> ('h \<Rightarrow> 'm) \<Rightarrow> ('m \<Rightarrow> 'h option) \<Rightarrow>
     ('m store \<Rightarrow> 'h \<Rightarrow> ('h \<times> 'm store) option) \<Rightarrow>
     'm store \<Rightarrow> 'r option \<Rightarrow> ('r option \<times> 'm store) option" where
  "copy_ref adr win new mk prj copy s p =
     (case p of
        None \<Rightarrow> Some (None, s)
      | Some r \<Rightarrow> do {
          x \<leftarrow> load_ref adr win prj s r;
          let (b, s1) = alloc s (mk x);
          (y, s2) \<leftarrow> copy s1 x;
          Some (Some (new b y), s2[b := mk y])
        })"

definition view_ref ::
    "('r \<Rightarrow> addr) \<Rightarrow> ('r \<Rightarrow> 'h \<Rightarrow> 'h option) \<Rightarrow> ('m \<Rightarrow> 'h option) \<Rightarrow>
     ('m store \<Rightarrow> 'h \<Rightarrow> 'c option) \<Rightarrow> 'm store \<Rightarrow> 'r option \<Rightarrow> 'c option option" where
  "view_ref adr win prj view s p =
     (case p of
        None \<Rightarrow> Some None
      | Some r \<Rightarrow> map_option Some (Option.bind (load_ref adr win prj s r) (view s)))"

definition reach_ref ::
    "('r \<Rightarrow> addr) \<Rightarrow> ('r \<Rightarrow> 'h \<Rightarrow> 'h option) \<Rightarrow> ('m \<Rightarrow> 'h option) \<Rightarrow>
     ('m store \<Rightarrow> 'h \<Rightarrow> addr set) \<Rightarrow> 'm store \<Rightarrow> 'r option \<Rightarrow> addr set" where
  "reach_ref adr win prj reach s p =
     (case p of
        None \<Rightarrow> {}
      | Some r \<Rightarrow> insert (adr r)
          (case load_ref adr win prj s r of None \<Rightarrow> {} | Some x \<Rightarrow> reach s x))"

lemma view_ref_Some:
  "view_ref adr win prj view s (Some r) = Some c \<longleftrightarrow>
     (\<exists>x d. load_ref adr win prj s r = Some x \<and> view s x = Some d \<and> c = Some d)"
  by (auto simp: view_ref_def bind_eq_Some_conv)

lemma load_ref_less: "load_ref adr win prj s r = Some x \<Longrightarrow> adr r < length s"
  by (auto simp: load_ref_def bind_eq_Some_conv dest: load_Some_less)

lemma ref_copies:
  assumes D: "deep_copier copy view reach" and P: "\<And>x. prj (mk x) = Some x"
    and N: "\<And>b x. adr (new b x) = b" "\<And>b x. win (new b x) x = Some x"
    and x: "load_ref adr win prj s r = Some x" "view s x = Some d"
  shows "\<exists>q t. copy_ref adr win new mk prj copy s (Some r) = Some (q, t) \<and>
      view_ref adr win prj view t q = Some (Some d) \<and> prefix s t \<and>
      reach_ref adr win prj reach t q \<subseteq> between (length s) (length t)"
proof -
  let ?b = "length s" and ?s1 = "s @ [mk x]"
  have x1: "view ?s1 x = Some d"
    using deep_copier.view_prefix [OF D x(2)] by (simp add: prefix_def)
  obtain y s2 where y: "copy ?s1 x = Some (y, s2)" "view s2 y = Some d" "prefix ?s1 s2"
      "reach s2 y \<subseteq> between (length ?s1) (length s2)"
    using deep_copier.copies [OF D x1] by blast
  let ?t = "s2[?b := mk y]"
  have "?b \<notin> reach s2 y" using y(4) by auto
  then have t: "view ?t y = Some d" "reach ?t y = reach s2 y"
    using deep_copier.view_update [OF D y(2)] by simp_all
  have len: "?b < length s2" using prefix_len [OF y(3)] by simp
  have ld: "load_ref adr win prj ?t (new ?b y) = Some y"
    using len by (simp add: load_ref_def load_def lookup_update P N)
  have "prefix s s2" using y(3) prefix_order.trans [of s ?s1 s2] by (simp add: prefix_def)
  then have "prefix s ?t" by (rule prefix_update_new) simp
  moreover have "reach_ref adr win prj reach ?t (Some (new ?b y)) \<subseteq> between (length s) (length ?t)"
    using y(4) len by (auto simp: reach_ref_def ld t(2) N)
  moreover have "copy_ref adr win new mk prj copy s (Some r) = Some (Some (new ?b y), ?t)"
    by (simp add: copy_ref_def x(1) alloc_def y(1))
  ultimately show ?thesis by (auto simp: view_ref_Some ld t(1))
qed

lemma deep_copier_ref:
  assumes D: "deep_copier copy view reach" and P: "\<And>x. prj (mk x) = Some x"
    and N: "\<And>b x. adr (new b x) = b" "\<And>b x. win (new b x) x = Some x"
  shows "deep_copier (copy_ref adr win new mk prj copy) (view_ref adr win prj view)
      (reach_ref adr win prj reach)"
proof
  fix s p c
  assume v: "view_ref adr win prj view s p = Some c"
  show "\<exists>q t. copy_ref adr win new mk prj copy s p = Some (q, t) \<and>
      view_ref adr win prj view t q = Some c \<and> prefix s t \<and>
      reach_ref adr win prj reach t q \<subseteq> between (length s) (length t)"
  proof (cases p)
    case None
    then show ?thesis using v by (simp add: copy_ref_def view_ref_def reach_ref_def)
  next
    case (Some r)
    then obtain x d where x: "load_ref adr win prj s r = Some x" "view s x = Some d" "c = Some d"
      using v by (auto simp: view_ref_Some)
    show ?thesis
      using ref_copies [where mk = mk and new = new and prj = prj and adr = adr and win = win,
          OF D P N x(1,2)] Some x(3) by simp
  qed
next
  fix s p c t
  assume v: "view_ref adr win prj view s p = Some c"
    and same: "same_on (reach_ref adr win prj reach s p) s t"
  show "view_ref adr win prj view t p = Some c \<and>
      reach_ref adr win prj reach t p = reach_ref adr win prj reach s p"
  proof (cases p)
    case None
    then show ?thesis using v by (simp add: view_ref_def reach_ref_def)
  next
    case (Some r)
    then obtain x d where x: "load_ref adr win prj s r = Some x" "view s x = Some d" "c = Some d"
      using v by (auto simp: view_ref_Some)
    have s: "lookup s (adr r) = lookup t (adr r)" "same_on (reach s x) s t"
      using same by (simp_all add: Some reach_ref_def x(1))
    have "load_ref adr win prj t r = Some x"
      using x(1) s(1) by (simp add: load_ref_def load_def)
    then show ?thesis
      using deep_copier.frame [OF D x(2) s(2)] x by (simp add: Some view_ref_Some reach_ref_def)
  qed
next
  fix s p c
  assume v: "view_ref adr win prj view s p = Some c"
  show "reach_ref adr win prj reach s p \<subseteq> below (length s)"
  proof (cases p)
    case None
    then show ?thesis by (simp add: reach_ref_def)
  next
    case (Some r)
    then obtain x d where x: "load_ref adr win prj s r = Some x" "view s x = Some d"
      using v by (auto simp: view_ref_Some)
    then show ?thesis
      using deep_copier.allocated [OF D x(2)] load_ref_less [OF x(1)]
      by (simp add: Some reach_ref_def)
  qed
qed

section \<open>Pointers\<close>

text \<open>
  The generated idiom for a pointer field, and the body of every \<open>DeepCopy\<close>: nil stays nil,
  otherwise a new cell of the type is allocated and the pointee is copied into it. A cell of the
  type is made by \<open>mk\<close> and read by \<open>prj\<close>.
\<close>

definition copy_ptr ::
    "('h \<Rightarrow> 'm) \<Rightarrow> ('m \<Rightarrow> 'h option) \<Rightarrow> ('m store \<Rightarrow> 'h \<Rightarrow> ('h \<times> 'm store) option) \<Rightarrow>
     'm store \<Rightarrow> addr option \<Rightarrow> (addr option \<times> 'm store) option" where
  "copy_ptr mk prj copy s p =
     (case p of
        None \<Rightarrow> Some (None, s)
      | Some a \<Rightarrow> do {
          x \<leftarrow> load prj s a;
          let (b, s1) = alloc s (mk x);
          (y, s2) \<leftarrow> copy s1 x;
          Some (Some b, s2[b := mk y])
        })"

abbreviation view_ptr ::
    "('m \<Rightarrow> 'h option) \<Rightarrow> ('m store \<Rightarrow> 'h \<Rightarrow> 'c option) \<Rightarrow>
     'm store \<Rightarrow> addr option \<Rightarrow> 'c option option" where
  "view_ptr \<equiv> view_ref (\<lambda>a. a) (\<lambda>_. Some)"

abbreviation reach_ptr ::
    "('m \<Rightarrow> 'h option) \<Rightarrow> ('m store \<Rightarrow> 'h \<Rightarrow> addr set) \<Rightarrow> 'm store \<Rightarrow> addr option \<Rightarrow> addr set" where
  "reach_ptr \<equiv> reach_ref (\<lambda>a. a) (\<lambda>_. Some)"

lemma deep_copier_ptr:
  assumes D: "deep_copier copy view reach" and P: "\<And>x. prj (mk x) = Some x"
  shows "deep_copier (copy_ptr mk prj copy) (view_ptr prj view) (reach_ptr prj reach)"
proof -
  have "copy_ptr mk prj copy = copy_ref (\<lambda>a. a) (\<lambda>_. Some) (\<lambda>b _. b) mk prj copy"
    by (intro ext) (simp add: copy_ptr_def copy_ref_def load_ref_def split: option.split)
  then show ?thesis
    using deep_copier_ref [where adr = "\<lambda>a. a" and win = "\<lambda>_. Some" and new = "\<lambda>b _. b"
        and mk = mk and prj = prj, OF D] P
    by simp
qed

section \<open>Slices\<close>

text \<open>A slice that is not nil: \<open>slLen\<close> elements of an array cell from the index \<open>slOff\<close>.\<close>

record slice =
  slArr :: addr
  slOff :: nat
  slLen :: nat

definition window :: "slice \<Rightarrow> 'a list \<Rightarrow> 'a list option" where
  "window sl xs =
     (if slOff sl + slLen sl \<le> length xs then Some (take (slLen sl) (drop (slOff sl) xs)) else None)"

definition whole :: "addr \<Rightarrow> 'a list \<Rightarrow> slice" where
  "whole b xs = \<lparr>slArr = b, slOff = 0, slLen = length xs\<rparr>"

lemma window_whole [simp]: "slArr (whole b xs) = b" "window (whole b xs) xs = Some xs"
  by (simp_all add: whole_def window_def)

text \<open>The loop over the elements of a slice.\<close>

fun copy_elems ::
    "('m store \<Rightarrow> 'h \<Rightarrow> ('h \<times> 'm store) option) \<Rightarrow> 'm store \<Rightarrow> 'h list \<Rightarrow> ('h list \<times> 'm store) option" where
  "copy_elems copy s [] = Some ([], s)"
| "copy_elems copy s (x # xs) = do {
     (y, s1) \<leftarrow> copy s x;
     (ys, s2) \<leftarrow> copy_elems copy s1 xs;
     Some (y # ys, s2)
   }"

fun view_elems :: "('m store \<Rightarrow> 'h \<Rightarrow> 'c option) \<Rightarrow> 'm store \<Rightarrow> 'h list \<Rightarrow> 'c list option" where
  "view_elems view s [] = Some []"
| "view_elems view s (x # xs) = do { c \<leftarrow> view s x; cs \<leftarrow> view_elems view s xs; Some (c # cs) }"

fun reach_elems :: "('m store \<Rightarrow> 'h \<Rightarrow> addr set) \<Rightarrow> 'm store \<Rightarrow> 'h list \<Rightarrow> addr set" where
  "reach_elems reach s [] = {}"
| "reach_elems reach s (x # xs) = reach s x \<union> reach_elems reach s xs"

lemma view_elems_Cons:
  "view_elems view s (x # xs) = Some cs \<longleftrightarrow>
     (\<exists>c cs'. view s x = Some c \<and> view_elems view s xs = Some cs' \<and> cs = c # cs')"
  by (auto simp: bind_eq_Some_conv)

lemma elems_frame:
  assumes D: "deep_copier copy view reach"
  shows "view_elems view s xs = Some cs \<Longrightarrow> same_on (reach_elems reach s xs) s t \<Longrightarrow>
    view_elems view t xs = Some cs \<and> reach_elems reach t xs = reach_elems reach s xs"
proof (induction xs arbitrary: cs)
  case (Cons x xs)
  obtain c cs' where c: "view s x = Some c" "view_elems view s xs = Some cs'" "cs = c # cs'"
    using Cons.prems(1) by (auto simp only: view_elems_Cons)
  have same: "same_on (reach s x) s t" "same_on (reach_elems reach s xs) s t"
    using Cons.prems(2) by simp_all
  show ?case
    using deep_copier.frame [OF D c(1) same(1)] Cons.IH [OF c(2) same(2)] c(3) by simp
qed simp

lemma elems_allocated:
  assumes D: "deep_copier copy view reach"
  shows "view_elems view s xs = Some cs \<Longrightarrow> reach_elems reach s xs \<subseteq> below (length s)"
proof (induction xs arbitrary: cs)
  case (Cons x xs)
  obtain c cs' where c: "view s x = Some c" "view_elems view s xs = Some cs'"
    using Cons.prems by (auto simp only: view_elems_Cons)
  show ?case using deep_copier.allocated [OF D c(1)] Cons.IH [OF c(2)] by simp
qed simp

lemma elems_copies:
  assumes D: "deep_copier copy view reach"
  shows "view_elems view s xs = Some cs \<Longrightarrow>
    \<exists>ys t. copy_elems copy s xs = Some (ys, t) \<and> view_elems view t ys = Some cs \<and> prefix s t \<and>
      reach_elems reach t ys \<subseteq> between (length s) (length t)"
proof (induction xs arbitrary: s cs)
  case (Cons x xs)
  obtain c cs' where c: "view s x = Some c" "view_elems view s xs = Some cs'" "cs = c # cs'"
    using Cons.prems by (auto simp only: view_elems_Cons)
  obtain y s1 where y: "copy s x = Some (y, s1)" "view s1 y = Some c" "prefix s s1"
      "reach s1 y \<subseteq> between (length s) (length s1)"
    using deep_copier.copies [OF D c(1)] by blast
  have "view_elems view s1 xs = Some cs'"
    using elems_frame [OF D c(2) prefix_same_on [OF y(3) elems_allocated [OF D c(2)]]] by simp
  then obtain ys t where ys: "copy_elems copy s1 xs = Some (ys, t)" "view_elems view t ys = Some cs'"
      "prefix s1 t" "reach_elems reach t ys \<subseteq> between (length s1) (length t)"
    using Cons.IH by blast
  have t: "view t y = Some c" "reach t y = reach s1 y"
    using deep_copier.view_prefix [OF D y(2) ys(3)] by simp_all
  have "prefix s t" using y(3) ys(3) by (rule prefix_order.trans)
  moreover have "reach_elems reach t (y # ys) \<subseteq> between (length s) (length t)"
    using y(4) ys(4) prefix_len [OF y(3)] prefix_len [OF ys(3)] by (fastforce simp: t(2))
  ultimately show ?case using c(3) by (simp add: y(1) ys(1,2) t(1))
qed simp

lemma deep_copier_elems:
  assumes D: "deep_copier copy view reach"
  shows "deep_copier (copy_elems copy) (view_elems view) (reach_elems reach)"
  by unfold_locales (fact elems_copies [OF D] elems_frame [OF D] elems_allocated [OF D])+

text \<open>
  The generated idiom for a slice field: nil stays nil, otherwise a new array of the slice's
  length is made and the elements are copied into it one by one.
\<close>

definition copy_slice ::
    "('h list \<Rightarrow> 'm) \<Rightarrow> ('m \<Rightarrow> 'h list option) \<Rightarrow> ('m store \<Rightarrow> 'h \<Rightarrow> ('h \<times> 'm store) option) \<Rightarrow>
     'm store \<Rightarrow> slice option \<Rightarrow> (slice option \<times> 'm store) option" where
  "copy_slice mk prj copy s p =
     (case p of
        None \<Rightarrow> Some (None, s)
      | Some sl \<Rightarrow> do {
          array \<leftarrow> load prj s (slArr sl);
          xs \<leftarrow> window sl array;
          let (b, s1) = alloc s (mk xs);
          (ys, s2) \<leftarrow> copy_elems copy s1 xs;
          Some (Some (whole b ys), s2[b := mk ys])
        })"

abbreviation view_slice ::
    "('m \<Rightarrow> 'h list option) \<Rightarrow> ('m store \<Rightarrow> 'h \<Rightarrow> 'c option) \<Rightarrow>
     'm store \<Rightarrow> slice option \<Rightarrow> 'c list option option" where
  "view_slice prj view \<equiv> view_ref slArr window prj (view_elems view)"

abbreviation reach_slice ::
    "('m \<Rightarrow> 'h list option) \<Rightarrow> ('m store \<Rightarrow> 'h \<Rightarrow> addr set) \<Rightarrow> 'm store \<Rightarrow> slice option \<Rightarrow> addr set" where
  "reach_slice prj reach \<equiv> reach_ref slArr window prj (reach_elems reach)"

lemma deep_copier_slice:
  assumes D: "deep_copier copy view reach" and P: "\<And>xs. prj (mk xs) = Some xs"
  shows "deep_copier (copy_slice mk prj copy) (view_slice prj view) (reach_slice prj reach)"
proof -
  have "copy_slice mk prj copy = copy_ref slArr window whole mk prj (copy_elems copy)"
    by (intro ext) (simp add: copy_slice_def copy_ref_def load_ref_def split: option.split)
  then show ?thesis
    using deep_copier_ref [where adr = slArr and win = window and new = whole
        and mk = mk and prj = prj, OF deep_copier_elems [OF D]] P
    by simp
qed

section \<open>Structs\<close>

text \<open>
  The fields of a struct are copied one after the other: two parts of a value in sequence, and a
  struct seen as the parts that hold references and the rest.
\<close>

definition copy_both ::
    "('m store \<Rightarrow> 'h \<Rightarrow> ('h \<times> 'm store) option) \<Rightarrow> ('m store \<Rightarrow> 'g \<Rightarrow> ('g \<times> 'm store) option) \<Rightarrow>
     'm store \<Rightarrow> 'h \<times> 'g \<Rightarrow> (('h \<times> 'g) \<times> 'm store) option" where
  "copy_both c1 c2 s v = do {
     (x, s1) \<leftarrow> c1 s (fst v);
     (y, s2) \<leftarrow> c2 s1 (snd v);
     Some ((x, y), s2)
   }"

definition view_both ::
    "('m store \<Rightarrow> 'h \<Rightarrow> 'c option) \<Rightarrow> ('m store \<Rightarrow> 'g \<Rightarrow> 'd option) \<Rightarrow>
     'm store \<Rightarrow> 'h \<times> 'g \<Rightarrow> ('c \<times> 'd) option" where
  "view_both v1 v2 s v = do { c \<leftarrow> v1 s (fst v); d \<leftarrow> v2 s (snd v); Some (c, d) }"

definition reach_both ::
    "('m store \<Rightarrow> 'h \<Rightarrow> addr set) \<Rightarrow> ('m store \<Rightarrow> 'g \<Rightarrow> addr set) \<Rightarrow> 'm store \<Rightarrow> 'h \<times> 'g \<Rightarrow> addr set" where
  "reach_both r1 r2 s v = r1 s (fst v) \<union> r2 s (snd v)"

lemma view_both_Some:
  "view_both v1 v2 s v = Some cd \<longleftrightarrow>
     v1 s (fst v) = Some (fst cd) \<and> v2 s (snd v) = Some (snd cd)"
  by (cases cd) (auto simp: view_both_def bind_eq_Some_conv)

lemma deep_copier_both:
  fixes v1 :: "'m store \<Rightarrow> 'h \<Rightarrow> 'c option" and v2 :: "'m store \<Rightarrow> 'g \<Rightarrow> 'd option"
  assumes D: "deep_copier c1 v1 r1" and E: "deep_copier c2 v2 r2"
  shows "deep_copier (copy_both c1 c2) (view_both v1 v2) (reach_both r1 r2)"
proof
  fix s :: "'m store" and v :: "'h \<times> 'g" and cd :: "'c \<times> 'd"
  assume v: "view_both v1 v2 s v = Some cd"
  then have f: "v1 s (fst v) = Some (fst cd)" and g: "v2 s (snd v) = Some (snd cd)"
    by (simp_all add: view_both_Some)
  obtain x s1 where x: "c1 s (fst v) = Some (x, s1)" "v1 s1 x = Some (fst cd)" "prefix s s1"
      "r1 s1 x \<subseteq> between (length s) (length s1)"
    using deep_copier.copies [OF D f] by blast
  have "v2 s1 (snd v) = Some (snd cd)"
    using deep_copier.view_prefix [OF E g x(3)] by simp
  then obtain y t where y: "c2 s1 (snd v) = Some (y, t)" "v2 t y = Some (snd cd)" "prefix s1 t"
      "r2 t y \<subseteq> between (length s1) (length t)"
    using deep_copier.copies [OF E] by blast
  have t: "v1 t x = Some (fst cd)" "r1 t x = r1 s1 x"
    using deep_copier.view_prefix [OF D x(2) y(3)] by simp_all
  have "prefix s t" using x(3) y(3) by (rule prefix_order.trans)
  moreover have "reach_both r1 r2 t (x, y) \<subseteq> between (length s) (length t)"
    using x(4) y(4) prefix_len [OF x(3)] prefix_len [OF y(3)]
    by (fastforce simp: reach_both_def t(2))
  ultimately show "\<exists>w t. copy_both c1 c2 s v = Some (w, t) \<and> view_both v1 v2 t w = Some cd \<and>
      prefix s t \<and> reach_both r1 r2 t w \<subseteq> between (length s) (length t)"
    by (auto simp: copy_both_def x(1) y(1,2) view_both_Some t(1))
next
  fix s t :: "'m store" and v :: "'h \<times> 'g" and cd :: "'c \<times> 'd"
  assume "view_both v1 v2 s v = Some cd" "same_on (reach_both r1 r2 s v) s t"
  then show "view_both v1 v2 t v = Some cd \<and> reach_both r1 r2 t v = reach_both r1 r2 s v"
    using deep_copier.frame [OF D, of s "fst v" "fst cd" t]
      deep_copier.frame [OF E, of s "snd v" "snd cd" t]
    by (simp add: view_both_Some reach_both_def)
next
  fix s :: "'m store" and v :: "'h \<times> 'g" and cd :: "'c \<times> 'd"
  assume "view_both v1 v2 s v = Some cd"
  then show "reach_both r1 r2 s v \<subseteq> below (length s)"
    using deep_copier.allocated [OF D, of s "fst v" "fst cd"]
      deep_copier.allocated [OF E, of s "snd v" "snd cd"]
    by (simp add: view_both_Some reach_both_def)
qed

definition copy_struct ::
    "('r \<Rightarrow> 'h) \<Rightarrow> ('h \<Rightarrow> 'r \<Rightarrow> 'r) \<Rightarrow> ('m store \<Rightarrow> 'h \<Rightarrow> ('h \<times> 'm store) option) \<Rightarrow>
     'm store \<Rightarrow> 'r \<Rightarrow> ('r \<times> 'm store) option" where
  "copy_struct parts put copy s v = do { (x, s1) \<leftarrow> copy s (parts v); Some (put x v, s1) }"

definition view_struct ::
    "('r \<Rightarrow> 'h) \<Rightarrow> ('c \<Rightarrow> 'r \<Rightarrow> 'd) \<Rightarrow> ('m store \<Rightarrow> 'h \<Rightarrow> 'c option) \<Rightarrow> 'm store \<Rightarrow> 'r \<Rightarrow> 'd option" where
  "view_struct parts build view s v = do { c \<leftarrow> view s (parts v); Some (build c v) }"

definition reach_struct ::
    "('r \<Rightarrow> 'h) \<Rightarrow> ('m store \<Rightarrow> 'h \<Rightarrow> addr set) \<Rightarrow> 'm store \<Rightarrow> 'r \<Rightarrow> addr set" where
  "reach_struct parts reach s v = reach s (parts v)"

lemma view_struct_Some:
  "view_struct parts build view s v = Some d \<longleftrightarrow>
     (\<exists>c. view s (parts v) = Some c \<and> d = build c v)"
  by (auto simp: view_struct_def bind_eq_Some_conv)

lemma deep_copier_struct:
  assumes D: "deep_copier copy view reach"
    and P: "\<And>x v. parts (put x v) = x" "\<And>c x v. build c (put x v) = build c v"
  shows "deep_copier (copy_struct parts put copy) (view_struct parts build view)
    (reach_struct parts reach)"
proof
  fix s v d
  assume "view_struct parts build view s v = Some d"
  then obtain c where c: "view s (parts v) = Some c" "d = build c v"
    by (auto simp: view_struct_Some)
  then obtain x t where x: "copy s (parts v) = Some (x, t)" "view t x = Some c" "prefix s t"
      "reach t x \<subseteq> between (length s) (length t)"
    using deep_copier.copies [OF D] by blast
  have "copy_struct parts put copy s v = Some (put x v, t)"
    by (simp add: copy_struct_def x(1))
  moreover have "view_struct parts build view t (put x v) = Some d"
    by (simp add: view_struct_def P x(2) c(2))
  moreover have "reach_struct parts reach t (put x v) \<subseteq> between (length s) (length t)"
    by (simp add: reach_struct_def P x(4))
  ultimately show "\<exists>w t. copy_struct parts put copy s v = Some (w, t) \<and>
      view_struct parts build view t w = Some d \<and> prefix s t \<and>
      reach_struct parts reach t w \<subseteq> between (length s) (length t)"
    using x(3) by blast
next
  fix s v d t
  assume v: "view_struct parts build view s v = Some d"
    and same: "same_on (reach_struct parts reach s v) s t"
  from v obtain c where c: "view s (parts v) = Some c" "d = build c v"
    by (auto simp: view_struct_Some)
  show "view_struct parts build view t v = Some d \<and>
      reach_struct parts reach t v = reach_struct parts reach s v"
    using deep_copier.frame [OF D c(1)] same c
    by (simp add: view_struct_Some reach_struct_def)
next
  fix s v d
  assume "view_struct parts build view s v = Some d"
  then show "reach_struct parts reach s v \<subseteq> below (length s)"
    using deep_copier.allocated [OF D, of s "parts v"]
    by (auto simp: view_struct_Some reach_struct_def)
qed

end
