(* ===== verification/Deep_Copy.thy ===== *)
theory Deep_Copy
  imports Go_Memory Api_Types
begin

text \<open>
  \<open>api/v1alpha1/zz_generated.deepcopy.go\<close>: the \<open>DeepCopyInto\<close>, \<open>DeepCopy\<close> and
  \<open>DeepCopyObject\<close> methods of every API type, over the memory of \<open>Go_Memory\<close>. A record here is
  the struct as it lies in memory: a pointer field is an address or nil, a slice field a window
  of an array cell or nil. Its \<open>view\<close> reads it back as the record of \<open>Api_Types\<close> that the rest
  of the development works with, so the theorems say what \<open>base := inst.DeepCopy()\<close> in
  \<open>Reconcile\<close> guarantees: \<open>base\<close> keeps the content the instance had, whatever is done to the
  instance afterwards.

  \<open>x.DeepCopyInto(out)\<close> overwrites \<open>*out\<close> with \<open>*x\<close> and then copies each field that holds
  references, so it is modelled by the value \<open>*out\<close> has at the end and the store. The deep copies
  of the types of other packages (\<open>corev1\<close>, \<open>metav1\<close>, \<open>resource\<close>) are parameters.
\<close>

section \<open>The structs in memory\<close>

record ImageSpec_mem =
  mRepository :: string
  mTag :: string
  mDigest :: string
  mPullPolicy :: string
  mPullSecrets :: "slice option"

record 'x VolumeSpec_mem =
  mSize :: 'x
  mStorageClassName :: "addr option"
  mAccessModes :: "slice option"

record 'x StorageSpec_mem =
  mData :: "'x VolumeSpec_mem"
  mMedia :: "'x VolumeSpec_mem"
  mConsume :: "'x VolumeSpec_mem"
  mExport :: "'x VolumeSpec_mem"

record 'x ManagedDatabase_mem =
  mInstances :: i32
  mStorage :: "'x VolumeSpec_mem"

record DatabaseSpec_mem =
  mCNPG :: "addr option"
  mExternal :: "addr option"

record CacheSpec_mem =
  mManaged :: "addr option"
  mURL :: string
  mURLSecretRef :: "addr option"

record AdminSpec_mem =
  mEnabled :: "addr option"
  mUsername :: string
  mEmail :: string
  mPasswordSecretRef :: "addr option"

record OCRSpec_mem =
  mLanguages :: "slice option"

record 'x PaperlessInstanceSpec_mem =
  mImage :: ImageSpec_mem
  mSpecURL :: string
  mTimezone :: string
  mOCR :: OCRSpec_mem
  mAdmin :: AdminSpec_mem
  mSecretKeySecretRef :: "addr option"
  mDatabase :: DatabaseSpec_mem
  mCache :: CacheSpec_mem
  mVolumes :: "'x StorageSpec_mem"
  mResources :: 'x
  mEnv :: "slice option"
  mEnvFrom :: "slice option"
  mDeletionPolicy :: string

record PaperlessInstanceStatus_mem =
  mConditions :: "slice option"
  mObservedGeneration :: i64
  mStatusURL :: string
  mVersion :: string

text \<open>\<open>metav1.TypeMeta\<close>: the kind and the API version, two strings.\<close>

type_synonym TypeMeta = "string \<times> string"

record 'x PaperlessInstance_mem =
  mTypeMeta :: TypeMeta
  mObjectMeta :: 'x
  mSpec :: "'x PaperlessInstanceSpec_mem"
  mStatus :: PaperlessInstanceStatus_mem

record 'x PaperlessInstanceList_mem =
  mListTypeMeta :: TypeMeta
  mListMeta :: 'x
  mItems :: "slice option"

section \<open>Cells\<close>

text \<open>
  What an address can hold: a scalar or a struct a pointer points to, or the array behind a slice.
  A value of another package's struct type is an \<open>'x\<close>.
\<close>

datatype 'x cell =
    BoolCell bool
  | StringCell string
  | ForeignCell 'x
  | StringsCell "string list"
  | LocalRefsCell "LocalObjectReference list"
  | ForeignsCell "'x list"
  | ImageCell ImageSpec_mem
  | VolumeCell "'x VolumeSpec_mem"
  | StorageCell "'x StorageSpec_mem"
  | ExternalCell ExternalDatabase
  | ManagedCell "'x ManagedDatabase_mem"
  | DatabaseCell DatabaseSpec_mem
  | CacheCell CacheSpec_mem
  | AdminCell AdminSpec_mem
  | OCRCell OCRSpec_mem
  | SpecCell "'x PaperlessInstanceSpec_mem"
  | StatusCell PaperlessInstanceStatus_mem
  | InstanceCell "'x PaperlessInstance_mem"
  | InstancesCell "'x PaperlessInstance_mem list"
  | ListCell "'x PaperlessInstanceList_mem"

type_synonym 'x memory = "'x cell store"

definition as_Bool :: "'x cell \<Rightarrow> bool option" where
  "as_Bool c = (case c of BoolCell x \<Rightarrow> Some x | _ \<Rightarrow> None)"

definition as_String :: "'x cell \<Rightarrow> string option" where
  "as_String c = (case c of StringCell x \<Rightarrow> Some x | _ \<Rightarrow> None)"

definition as_Foreign :: "'x cell \<Rightarrow> 'x option" where
  "as_Foreign c = (case c of ForeignCell x \<Rightarrow> Some x | _ \<Rightarrow> None)"

definition as_Strings :: "'x cell \<Rightarrow> (string list) option" where
  "as_Strings c = (case c of StringsCell x \<Rightarrow> Some x | _ \<Rightarrow> None)"

definition as_LocalRefs :: "'x cell \<Rightarrow> (LocalObjectReference list) option" where
  "as_LocalRefs c = (case c of LocalRefsCell x \<Rightarrow> Some x | _ \<Rightarrow> None)"

definition as_Foreigns :: "'x cell \<Rightarrow> ('x list) option" where
  "as_Foreigns c = (case c of ForeignsCell x \<Rightarrow> Some x | _ \<Rightarrow> None)"

definition as_Image :: "'x cell \<Rightarrow> ImageSpec_mem option" where
  "as_Image c = (case c of ImageCell x \<Rightarrow> Some x | _ \<Rightarrow> None)"

definition as_Volume :: "'x cell \<Rightarrow> ('x VolumeSpec_mem) option" where
  "as_Volume c = (case c of VolumeCell x \<Rightarrow> Some x | _ \<Rightarrow> None)"

definition as_Storage :: "'x cell \<Rightarrow> ('x StorageSpec_mem) option" where
  "as_Storage c = (case c of StorageCell x \<Rightarrow> Some x | _ \<Rightarrow> None)"

definition as_External :: "'x cell \<Rightarrow> ExternalDatabase option" where
  "as_External c = (case c of ExternalCell x \<Rightarrow> Some x | _ \<Rightarrow> None)"

definition as_Managed :: "'x cell \<Rightarrow> ('x ManagedDatabase_mem) option" where
  "as_Managed c = (case c of ManagedCell x \<Rightarrow> Some x | _ \<Rightarrow> None)"

definition as_Database :: "'x cell \<Rightarrow> DatabaseSpec_mem option" where
  "as_Database c = (case c of DatabaseCell x \<Rightarrow> Some x | _ \<Rightarrow> None)"

definition as_Cache :: "'x cell \<Rightarrow> CacheSpec_mem option" where
  "as_Cache c = (case c of CacheCell x \<Rightarrow> Some x | _ \<Rightarrow> None)"

definition as_Admin :: "'x cell \<Rightarrow> AdminSpec_mem option" where
  "as_Admin c = (case c of AdminCell x \<Rightarrow> Some x | _ \<Rightarrow> None)"

definition as_OCR :: "'x cell \<Rightarrow> OCRSpec_mem option" where
  "as_OCR c = (case c of OCRCell x \<Rightarrow> Some x | _ \<Rightarrow> None)"

definition as_Spec :: "'x cell \<Rightarrow> ('x PaperlessInstanceSpec_mem) option" where
  "as_Spec c = (case c of SpecCell x \<Rightarrow> Some x | _ \<Rightarrow> None)"

definition as_Status :: "'x cell \<Rightarrow> PaperlessInstanceStatus_mem option" where
  "as_Status c = (case c of StatusCell x \<Rightarrow> Some x | _ \<Rightarrow> None)"

definition as_Instance :: "'x cell \<Rightarrow> ('x PaperlessInstance_mem) option" where
  "as_Instance c = (case c of InstanceCell x \<Rightarrow> Some x | _ \<Rightarrow> None)"

definition as_Instances :: "'x cell \<Rightarrow> ('x PaperlessInstance_mem list) option" where
  "as_Instances c = (case c of InstancesCell x \<Rightarrow> Some x | _ \<Rightarrow> None)"

definition as_List :: "'x cell \<Rightarrow> ('x PaperlessInstanceList_mem) option" where
  "as_List c = (case c of ListCell x \<Rightarrow> Some x | _ \<Rightarrow> None)"

lemma as_cell [simp]:
  "as_Bool (BoolCell xBool) = Some xBool"
  "as_String (StringCell xString) = Some xString"
  "as_Foreign (ForeignCell xForeign) = Some xForeign"
  "as_Strings (StringsCell xStrings) = Some xStrings"
  "as_LocalRefs (LocalRefsCell xLocalRefs) = Some xLocalRefs"
  "as_Foreigns (ForeignsCell xForeigns) = Some xForeigns"
  "as_Image (ImageCell xImage) = Some xImage"
  "as_Volume (VolumeCell xVolume) = Some xVolume"
  "as_Storage (StorageCell xStorage) = Some xStorage"
  "as_External (ExternalCell xExternal) = Some xExternal"
  "as_Managed (ManagedCell xManaged) = Some xManaged"
  "as_Database (DatabaseCell xDatabase) = Some xDatabase"
  "as_Cache (CacheCell xCache) = Some xCache"
  "as_Admin (AdminCell xAdmin) = Some xAdmin"
  "as_OCR (OCRCell xOCR) = Some xOCR"
  "as_Spec (SpecCell xSpec) = Some xSpec"
  "as_Status (StatusCell xStatus) = Some xStatus"
  "as_Instance (InstanceCell xInstance) = Some xInstance"
  "as_Instances (InstancesCell xInstances) = Some xInstances"
  "as_List (ListCell xList) = Some xList"
  by (simp_all add: as_Bool_def as_String_def as_Foreign_def as_Strings_def as_LocalRefs_def as_Foreigns_def as_Image_def as_Volume_def as_Storage_def as_External_def as_Managed_def as_Database_def as_Cache_def as_Admin_def as_OCR_def as_Spec_def as_Status_def as_Instance_def as_Instances_def as_List_def)

section \<open>The types of other packages\<close>

text \<open>
  For each type of another package: its deep copy, how its content is read, and the mutable cells
  a value of it reaches.
\<close>

record 'x foreign =
  fgSecretKeySelector :: "'x memory \<Rightarrow> 'x \<Rightarrow> ('x \<times> 'x memory) option"
  fgQuantity :: "'x memory \<Rightarrow> 'x \<Rightarrow> ('x \<times> 'x memory) option"
  fgResourceRequirements :: "'x memory \<Rightarrow> 'x \<Rightarrow> ('x \<times> 'x memory) option"
  fgEnvVar :: "'x memory \<Rightarrow> 'x \<Rightarrow> ('x \<times> 'x memory) option"
  fgEnvFromSource :: "'x memory \<Rightarrow> 'x \<Rightarrow> ('x \<times> 'x memory) option"
  fgObjectMeta :: "'x memory \<Rightarrow> 'x \<Rightarrow> ('x \<times> 'x memory) option"
  fgListMeta :: "'x memory \<Rightarrow> 'x \<Rightarrow> ('x \<times> 'x memory) option"
  fgCondition :: "'x memory \<Rightarrow> 'x \<Rightarrow> ('x \<times> 'x memory) option"
  vwSecretKeySelector :: "'x memory \<Rightarrow> 'x \<Rightarrow> SecretKeySelector option"
  vwQuantity :: "'x memory \<Rightarrow> 'x \<Rightarrow> quantity option"
  vwResourceRequirements :: "'x memory \<Rightarrow> 'x \<Rightarrow> opaque option"
  vwEnvVar :: "'x memory \<Rightarrow> 'x \<Rightarrow> EnvVar option"
  vwEnvFromSource :: "'x memory \<Rightarrow> 'x \<Rightarrow> opaque option"
  vwObjectMeta :: "'x memory \<Rightarrow> 'x \<Rightarrow> ObjectMeta option"
  vwListMeta :: "'x memory \<Rightarrow> 'x \<Rightarrow> opaque option"
  vwCondition :: "'x memory \<Rightarrow> 'x \<Rightarrow> Condition option"
  fgReach :: "'x memory \<Rightarrow> 'x \<Rightarrow> addr set"

text \<open>What those packages document of their deep copies: the contract of \<open>Go_Memory\<close>.\<close>

definition foreign_laws :: "'x foreign \<Rightarrow> bool" where
  "foreign_laws F \<longleftrightarrow>
     deep_copier (fgSecretKeySelector F) (vwSecretKeySelector F) (fgReach F) \<and>
     deep_copier (fgQuantity F) (vwQuantity F) (fgReach F) \<and>
     deep_copier (fgResourceRequirements F) (vwResourceRequirements F) (fgReach F) \<and>
     deep_copier (fgEnvVar F) (vwEnvVar F) (fgReach F) \<and>
     deep_copier (fgEnvFromSource F) (vwEnvFromSource F) (fgReach F) \<and>
     deep_copier (fgObjectMeta F) (vwObjectMeta F) (fgReach F) \<and>
     deep_copier (fgListMeta F) (vwListMeta F) (fgReach F) \<and>
     deep_copier (fgCondition F) (vwCondition F) (fgReach F)"

section \<open>DeepCopyInto\<close>

definition ExternalDatabase_DeepCopyInto :: "'x memory \<Rightarrow> ExternalDatabase \<Rightarrow> (ExternalDatabase \<times> 'x memory) option" where
  "ExternalDatabase_DeepCopyInto s v =
     (let out = v
      in Some (out\<lparr>edCredentialsSecretRef := edCredentialsSecretRef v\<rparr>, s))"

definition ImageSpec_DeepCopyInto ::
    "'x memory \<Rightarrow> ImageSpec_mem \<Rightarrow> (ImageSpec_mem \<times> 'x memory) option" where
  "ImageSpec_DeepCopyInto s v = do {
     (secrets, s) \<leftarrow> copy_slice LocalRefsCell as_LocalRefs keep s (mPullSecrets v);
     Some (v\<lparr>mPullSecrets := secrets\<rparr>, s)
   }"

definition OCRSpec_DeepCopyInto ::
    "'x memory \<Rightarrow> OCRSpec_mem \<Rightarrow> (OCRSpec_mem \<times> 'x memory) option" where
  "OCRSpec_DeepCopyInto s v = do {
     (languages, s) \<leftarrow> copy_slice StringsCell as_Strings keep s (mLanguages v);
     Some (v\<lparr>mLanguages := languages\<rparr>, s)
   }"

definition AdminSpec_DeepCopyInto ::
    "'x foreign \<Rightarrow> 'x memory \<Rightarrow> AdminSpec_mem \<Rightarrow> (AdminSpec_mem \<times> 'x memory) option" where
  "AdminSpec_DeepCopyInto F s v = do {
     (enabled, s) \<leftarrow> copy_ptr BoolCell as_Bool keep s (mEnabled v);
     (password, s) \<leftarrow> copy_ptr ForeignCell as_Foreign (fgSecretKeySelector F) s (mPasswordSecretRef v);
     Some (v\<lparr>mEnabled := enabled, mPasswordSecretRef := password\<rparr>, s)
   }"

definition CacheSpec_DeepCopyInto ::
    "'x foreign \<Rightarrow> 'x memory \<Rightarrow> CacheSpec_mem \<Rightarrow> (CacheSpec_mem \<times> 'x memory) option" where
  "CacheSpec_DeepCopyInto F s v = do {
     (managed, s) \<leftarrow> copy_ptr BoolCell as_Bool keep s (mManaged v);
     (url_ref, s) \<leftarrow> copy_ptr ForeignCell as_Foreign (fgSecretKeySelector F) s (mURLSecretRef v);
     Some (v\<lparr>mManaged := managed, mURLSecretRef := url_ref\<rparr>, s)
   }"

definition VolumeSpec_DeepCopyInto ::
    "'x foreign \<Rightarrow> 'x memory \<Rightarrow> 'x VolumeSpec_mem \<Rightarrow> ('x VolumeSpec_mem \<times> 'x memory) option" where
  "VolumeSpec_DeepCopyInto F s v = do {
     (size, s) \<leftarrow> fgQuantity F s (mSize v);
     (class, s) \<leftarrow> copy_ptr StringCell as_String keep s (mStorageClassName v);
     (modes, s) \<leftarrow> copy_slice StringsCell as_Strings keep s (mAccessModes v);
     Some (v\<lparr>mSize := size, mStorageClassName := class, mAccessModes := modes\<rparr>, s)
   }"

definition ManagedDatabase_DeepCopyInto ::
    "'x foreign \<Rightarrow> 'x memory \<Rightarrow> 'x ManagedDatabase_mem \<Rightarrow> ('x ManagedDatabase_mem \<times> 'x memory) option" where
  "ManagedDatabase_DeepCopyInto F s v = do {
     (storage, s) \<leftarrow> VolumeSpec_DeepCopyInto F s (mStorage v);
     Some (v\<lparr>mStorage := storage\<rparr>, s)
   }"

definition DatabaseSpec_DeepCopyInto ::
    "'x foreign \<Rightarrow> 'x memory \<Rightarrow> DatabaseSpec_mem \<Rightarrow> (DatabaseSpec_mem \<times> 'x memory) option" where
  "DatabaseSpec_DeepCopyInto F s v = do {
     (cnpg, s) \<leftarrow> copy_ptr ManagedCell as_Managed (ManagedDatabase_DeepCopyInto F) s (mCNPG v);
     (ext, s) \<leftarrow> copy_ptr ExternalCell as_External ExternalDatabase_DeepCopyInto s (mExternal v);
     Some (v\<lparr>mCNPG := cnpg, mExternal := ext\<rparr>, s)
   }"

definition StorageSpec_DeepCopyInto ::
    "'x foreign \<Rightarrow> 'x memory \<Rightarrow> 'x StorageSpec_mem \<Rightarrow> ('x StorageSpec_mem \<times> 'x memory) option" where
  "StorageSpec_DeepCopyInto F s v = do {
     (data, s) \<leftarrow> VolumeSpec_DeepCopyInto F s (mData v);
     (media, s) \<leftarrow> VolumeSpec_DeepCopyInto F s (mMedia v);
     (consume, s) \<leftarrow> VolumeSpec_DeepCopyInto F s (mConsume v);
     (export, s) \<leftarrow> VolumeSpec_DeepCopyInto F s (mExport v);
     Some (v\<lparr>mData := data, mMedia := media, mConsume := consume, mExport := export\<rparr>, s)
   }"

definition PaperlessInstanceSpec_DeepCopyInto ::
    "'x foreign \<Rightarrow> 'x memory \<Rightarrow> 'x PaperlessInstanceSpec_mem \<Rightarrow> ('x PaperlessInstanceSpec_mem \<times> 'x memory) option" where
  "PaperlessInstanceSpec_DeepCopyInto F s v = do {
     (image, s) \<leftarrow> ImageSpec_DeepCopyInto s (mImage v);
     (ocr, s) \<leftarrow> OCRSpec_DeepCopyInto s (mOCR v);
     (admin, s) \<leftarrow> AdminSpec_DeepCopyInto F s (mAdmin v);
     (secret_key, s) \<leftarrow> copy_ptr ForeignCell as_Foreign (fgSecretKeySelector F) s (mSecretKeySecretRef v);
     (database, s) \<leftarrow> DatabaseSpec_DeepCopyInto F s (mDatabase v);
     (cache, s) \<leftarrow> CacheSpec_DeepCopyInto F s (mCache v);
     (storage, s) \<leftarrow> StorageSpec_DeepCopyInto F s (mVolumes v);
     (resources, s) \<leftarrow> fgResourceRequirements F s (mResources v);
     (env, s) \<leftarrow> copy_slice ForeignsCell as_Foreigns (fgEnvVar F) s (mEnv v);
     (env_from, s) \<leftarrow> copy_slice ForeignsCell as_Foreigns (fgEnvFromSource F) s (mEnvFrom v);
     Some (v\<lparr>mImage := image, mOCR := ocr, mAdmin := admin, mSecretKeySecretRef := secret_key,
           mDatabase := database, mCache := cache, mVolumes := storage,
           mResources := resources, mEnv := env, mEnvFrom := env_from\<rparr>, s)
   }"

definition PaperlessInstanceStatus_DeepCopyInto ::
    "'x foreign \<Rightarrow> 'x memory \<Rightarrow> PaperlessInstanceStatus_mem \<Rightarrow> (PaperlessInstanceStatus_mem \<times> 'x memory) option" where
  "PaperlessInstanceStatus_DeepCopyInto F s v = do {
     (conditions, s) \<leftarrow> copy_slice ForeignsCell as_Foreigns (fgCondition F) s (mConditions v);
     Some (v\<lparr>mConditions := conditions\<rparr>, s)
   }"

definition PaperlessInstance_DeepCopyInto ::
    "'x foreign \<Rightarrow> 'x memory \<Rightarrow> 'x PaperlessInstance_mem \<Rightarrow> ('x PaperlessInstance_mem \<times> 'x memory) option" where
  "PaperlessInstance_DeepCopyInto F s v = do {
     (meta, s) \<leftarrow> fgObjectMeta F s (mObjectMeta v);
     (spec, s) \<leftarrow> PaperlessInstanceSpec_DeepCopyInto F s (mSpec v);
     (status, s) \<leftarrow> PaperlessInstanceStatus_DeepCopyInto F s (mStatus v);
     Some (v\<lparr>mTypeMeta := mTypeMeta v, mObjectMeta := meta, mSpec := spec, mStatus := status\<rparr>, s)
   }"

definition PaperlessInstanceList_DeepCopyInto ::
    "'x foreign \<Rightarrow> 'x memory \<Rightarrow> 'x PaperlessInstanceList_mem \<Rightarrow> ('x PaperlessInstanceList_mem \<times> 'x memory) option" where
  "PaperlessInstanceList_DeepCopyInto F s v = do {
     (meta, s) \<leftarrow> fgListMeta F s (mListMeta v);
     (items, s) \<leftarrow> copy_slice InstancesCell as_Instances (PaperlessInstance_DeepCopyInto F) s (mItems v);
     Some (v\<lparr>mListTypeMeta := mListTypeMeta v, mListMeta := meta, mItems := items\<rparr>, s)
   }"

section \<open>DeepCopy and DeepCopyObject\<close>

text \<open>
  \<open>DeepCopy\<close> returns nil for a nil receiver, and otherwise allocates a struct and lets
  \<open>DeepCopyInto\<close> fill it; \<open>DeepCopyObject\<close> is the same pointer as a \<open>runtime.Object\<close>, and the nil
  interface for a nil pointer.
\<close>

definition ExternalDatabase_DeepCopy :: "'x memory \<Rightarrow> addr option \<Rightarrow> (addr option \<times> 'x memory) option" where
  "ExternalDatabase_DeepCopy = copy_ptr ExternalCell as_External ExternalDatabase_DeepCopyInto"

definition ImageSpec_DeepCopy :: "'x memory \<Rightarrow> addr option \<Rightarrow> (addr option \<times> 'x memory) option" where
  "ImageSpec_DeepCopy = copy_ptr ImageCell as_Image ImageSpec_DeepCopyInto"

definition OCRSpec_DeepCopy :: "'x memory \<Rightarrow> addr option \<Rightarrow> (addr option \<times> 'x memory) option" where
  "OCRSpec_DeepCopy = copy_ptr OCRCell as_OCR OCRSpec_DeepCopyInto"

definition AdminSpec_DeepCopy :: "'x foreign \<Rightarrow> 'x memory \<Rightarrow> addr option \<Rightarrow> (addr option \<times> 'x memory) option" where
  "AdminSpec_DeepCopy F = copy_ptr AdminCell as_Admin (AdminSpec_DeepCopyInto F)"

definition CacheSpec_DeepCopy :: "'x foreign \<Rightarrow> 'x memory \<Rightarrow> addr option \<Rightarrow> (addr option \<times> 'x memory) option" where
  "CacheSpec_DeepCopy F = copy_ptr CacheCell as_Cache (CacheSpec_DeepCopyInto F)"

definition VolumeSpec_DeepCopy :: "'x foreign \<Rightarrow> 'x memory \<Rightarrow> addr option \<Rightarrow> (addr option \<times> 'x memory) option" where
  "VolumeSpec_DeepCopy F = copy_ptr VolumeCell as_Volume (VolumeSpec_DeepCopyInto F)"

definition ManagedDatabase_DeepCopy :: "'x foreign \<Rightarrow> 'x memory \<Rightarrow> addr option \<Rightarrow> (addr option \<times> 'x memory) option" where
  "ManagedDatabase_DeepCopy F = copy_ptr ManagedCell as_Managed (ManagedDatabase_DeepCopyInto F)"

definition DatabaseSpec_DeepCopy :: "'x foreign \<Rightarrow> 'x memory \<Rightarrow> addr option \<Rightarrow> (addr option \<times> 'x memory) option" where
  "DatabaseSpec_DeepCopy F = copy_ptr DatabaseCell as_Database (DatabaseSpec_DeepCopyInto F)"

definition StorageSpec_DeepCopy :: "'x foreign \<Rightarrow> 'x memory \<Rightarrow> addr option \<Rightarrow> (addr option \<times> 'x memory) option" where
  "StorageSpec_DeepCopy F = copy_ptr StorageCell as_Storage (StorageSpec_DeepCopyInto F)"

definition PaperlessInstanceSpec_DeepCopy :: "'x foreign \<Rightarrow> 'x memory \<Rightarrow> addr option \<Rightarrow> (addr option \<times> 'x memory) option" where
  "PaperlessInstanceSpec_DeepCopy F = copy_ptr SpecCell as_Spec (PaperlessInstanceSpec_DeepCopyInto F)"

definition PaperlessInstanceStatus_DeepCopy :: "'x foreign \<Rightarrow> 'x memory \<Rightarrow> addr option \<Rightarrow> (addr option \<times> 'x memory) option" where
  "PaperlessInstanceStatus_DeepCopy F = copy_ptr StatusCell as_Status (PaperlessInstanceStatus_DeepCopyInto F)"

definition PaperlessInstance_DeepCopy :: "'x foreign \<Rightarrow> 'x memory \<Rightarrow> addr option \<Rightarrow> (addr option \<times> 'x memory) option" where
  "PaperlessInstance_DeepCopy F = copy_ptr InstanceCell as_Instance (PaperlessInstance_DeepCopyInto F)"

definition PaperlessInstanceList_DeepCopy :: "'x foreign \<Rightarrow> 'x memory \<Rightarrow> addr option \<Rightarrow> (addr option \<times> 'x memory) option" where
  "PaperlessInstanceList_DeepCopy F = copy_ptr ListCell as_List (PaperlessInstanceList_DeepCopyInto F)"

definition PaperlessInstance_DeepCopyObject ::
    "'x foreign \<Rightarrow> 'x memory \<Rightarrow> addr option \<Rightarrow> (addr option \<times> 'x memory) option" where
  "PaperlessInstance_DeepCopyObject F s p = do {
     (c, s) \<leftarrow> PaperlessInstance_DeepCopy F s p;
     case c of Some a \<Rightarrow> Some (Some a, s) | None \<Rightarrow> Some (None, s)
   }"

definition PaperlessInstanceList_DeepCopyObject ::
    "'x foreign \<Rightarrow> 'x memory \<Rightarrow> addr option \<Rightarrow> (addr option \<times> 'x memory) option" where
  "PaperlessInstanceList_DeepCopyObject F s p = do {
     (c, s) \<leftarrow> PaperlessInstanceList_DeepCopy F s p;
     case c of Some a \<Rightarrow> Some (Some a, s) | None \<Rightarrow> Some (None, s)
   }"

section \<open>Reading a value back\<close>

text \<open>The rest of the development does not tell a nil slice from an empty one.\<close>

definition elements :: "'a list option \<Rightarrow> 'a list" where
  "elements c = (case c of None \<Rightarrow> [] | Some xs \<Rightarrow> xs)"

abbreviation ExternalDatabase_view :: "'x memory \<Rightarrow> ExternalDatabase \<Rightarrow> ExternalDatabase option" where
  "ExternalDatabase_view \<equiv> keep_view"

abbreviation ExternalDatabase_reach :: "'x memory \<Rightarrow> ExternalDatabase \<Rightarrow> addr set" where
  "ExternalDatabase_reach \<equiv> keep_reach"

definition ImageSpec_view :: "'x memory \<Rightarrow> ImageSpec_mem \<Rightarrow> ImageSpec option" where
  "ImageSpec_view = view_struct (\<lambda>v. mPullSecrets v)
     (\<lambda>c v. \<lparr>imRepository = mRepository v, imTag = mTag v, imDigest = mDigest v, imPullPolicy = mPullPolicy v,
       imPullSecrets = elements c\<rparr>)
     (view_slice as_LocalRefs keep_view)"

definition ImageSpec_reach :: "'x memory \<Rightarrow> ImageSpec_mem \<Rightarrow> addr set" where
  "ImageSpec_reach = reach_struct (\<lambda>v. mPullSecrets v)
     (reach_slice as_LocalRefs keep_reach)"

definition OCRSpec_view :: "'x memory \<Rightarrow> OCRSpec_mem \<Rightarrow> OCRSpec option" where
  "OCRSpec_view = view_struct (\<lambda>v. mLanguages v)
     (\<lambda>c v. \<lparr>ocLanguages = elements c\<rparr>)
     (view_slice as_Strings keep_view)"

definition OCRSpec_reach :: "'x memory \<Rightarrow> OCRSpec_mem \<Rightarrow> addr set" where
  "OCRSpec_reach = reach_struct (\<lambda>v. mLanguages v)
     (reach_slice as_Strings keep_reach)"

definition AdminSpec_view :: "'x foreign \<Rightarrow> 'x memory \<Rightarrow> AdminSpec_mem \<Rightarrow> AdminSpec option" where
  "AdminSpec_view F = view_struct (\<lambda>v. (mEnabled v, mPasswordSecretRef v))
     (\<lambda>c v. \<lparr>adEnabled = fst c, adUsername = mUsername v, adEmail = mEmail v, adPasswordSecretRef = snd c\<rparr>)
     (view_both (view_ptr as_Bool keep_view)
        (view_ptr as_Foreign (vwSecretKeySelector F)))"

definition AdminSpec_reach :: "'x foreign \<Rightarrow> 'x memory \<Rightarrow> AdminSpec_mem \<Rightarrow> addr set" where
  "AdminSpec_reach F = reach_struct (\<lambda>v. (mEnabled v, mPasswordSecretRef v))
     (reach_both (reach_ptr as_Bool keep_reach)
        (reach_ptr as_Foreign (fgReach F)))"

definition CacheSpec_view :: "'x foreign \<Rightarrow> 'x memory \<Rightarrow> CacheSpec_mem \<Rightarrow> CacheSpec option" where
  "CacheSpec_view F = view_struct (\<lambda>v. (mManaged v, mURLSecretRef v))
     (\<lambda>c v. \<lparr>caManaged = fst c, caURL = mURL v, caURLSecretRef = snd c\<rparr>)
     (view_both (view_ptr as_Bool keep_view)
        (view_ptr as_Foreign (vwSecretKeySelector F)))"

definition CacheSpec_reach :: "'x foreign \<Rightarrow> 'x memory \<Rightarrow> CacheSpec_mem \<Rightarrow> addr set" where
  "CacheSpec_reach F = reach_struct (\<lambda>v. (mManaged v, mURLSecretRef v))
     (reach_both (reach_ptr as_Bool keep_reach)
        (reach_ptr as_Foreign (fgReach F)))"

definition VolumeSpec_view :: "'x foreign \<Rightarrow> 'x memory \<Rightarrow> 'x VolumeSpec_mem \<Rightarrow> VolumeSpec option" where
  "VolumeSpec_view F = view_struct (\<lambda>v. (mSize v, mStorageClassName v, mAccessModes v))
     (\<lambda>c v. \<lparr>vsSize = fst c, vsStorageClassName = fst (snd c), vsAccessModes = elements (snd (snd c))\<rparr>)
     (view_both (vwQuantity F)
        (view_both (view_ptr as_String keep_view)
        (view_slice as_Strings keep_view)))"

definition VolumeSpec_reach :: "'x foreign \<Rightarrow> 'x memory \<Rightarrow> 'x VolumeSpec_mem \<Rightarrow> addr set" where
  "VolumeSpec_reach F = reach_struct (\<lambda>v. (mSize v, mStorageClassName v, mAccessModes v))
     (reach_both (fgReach F)
        (reach_both (reach_ptr as_String keep_reach)
        (reach_slice as_Strings keep_reach)))"

definition ManagedDatabase_view :: "'x foreign \<Rightarrow> 'x memory \<Rightarrow> 'x ManagedDatabase_mem \<Rightarrow> ManagedDatabase option" where
  "ManagedDatabase_view F = view_struct (\<lambda>v. mStorage v)
     (\<lambda>c v. \<lparr>mdInstances = mInstances v, mdStorage = c\<rparr>)
     (VolumeSpec_view F)"

definition ManagedDatabase_reach :: "'x foreign \<Rightarrow> 'x memory \<Rightarrow> 'x ManagedDatabase_mem \<Rightarrow> addr set" where
  "ManagedDatabase_reach F = reach_struct (\<lambda>v. mStorage v)
     (VolumeSpec_reach F)"

definition DatabaseSpec_view :: "'x foreign \<Rightarrow> 'x memory \<Rightarrow> DatabaseSpec_mem \<Rightarrow> DatabaseSpec option" where
  "DatabaseSpec_view F = view_struct (\<lambda>v. (mCNPG v, mExternal v))
     (\<lambda>c v. \<lparr>dbCNPG = fst c, dbExternal = snd c\<rparr>)
     (view_both (view_ptr as_Managed (ManagedDatabase_view F))
        (view_ptr as_External ExternalDatabase_view))"

definition DatabaseSpec_reach :: "'x foreign \<Rightarrow> 'x memory \<Rightarrow> DatabaseSpec_mem \<Rightarrow> addr set" where
  "DatabaseSpec_reach F = reach_struct (\<lambda>v. (mCNPG v, mExternal v))
     (reach_both (reach_ptr as_Managed (ManagedDatabase_reach F))
        (reach_ptr as_External ExternalDatabase_reach))"

definition StorageSpec_view :: "'x foreign \<Rightarrow> 'x memory \<Rightarrow> 'x StorageSpec_mem \<Rightarrow> StorageSpec option" where
  "StorageSpec_view F = view_struct (\<lambda>v. (mData v, mMedia v, mConsume v, mExport v))
     (\<lambda>c v. \<lparr>stData = fst c, stMedia = fst (snd c), stConsume = fst (snd (snd c)), stExport = snd (snd (snd c))\<rparr>)
     (view_both (VolumeSpec_view F)
        (view_both (VolumeSpec_view F)
        (view_both (VolumeSpec_view F)
        (VolumeSpec_view F))))"

definition StorageSpec_reach :: "'x foreign \<Rightarrow> 'x memory \<Rightarrow> 'x StorageSpec_mem \<Rightarrow> addr set" where
  "StorageSpec_reach F = reach_struct (\<lambda>v. (mData v, mMedia v, mConsume v, mExport v))
     (reach_both (VolumeSpec_reach F)
        (reach_both (VolumeSpec_reach F)
        (reach_both (VolumeSpec_reach F)
        (VolumeSpec_reach F))))"

definition PaperlessInstanceSpec_view :: "'x foreign \<Rightarrow> 'x memory \<Rightarrow> 'x PaperlessInstanceSpec_mem \<Rightarrow> PaperlessInstanceSpec option" where
  "PaperlessInstanceSpec_view F = view_struct (\<lambda>v. (mImage v, mOCR v, mAdmin v, mSecretKeySecretRef v, mDatabase v, mCache v, mVolumes v, mResources v, mEnv v, mEnvFrom v))
     (\<lambda>c v. \<lparr>spImage = fst c,
       spURL = mSpecURL v,
       spTimezone = mTimezone v,
       spOCR = fst (snd c),
       spAdmin = fst (snd (snd c)),
       spSecretKeySecretRef = fst (snd (snd (snd c))),
       spDatabase = fst (snd (snd (snd (snd c)))),
       spCache = fst (snd (snd (snd (snd (snd c))))),
       spStorage = fst (snd (snd (snd (snd (snd (snd c)))))),
       spResources = fst (snd (snd (snd (snd (snd (snd (snd c))))))),
       spEnv = elements (fst (snd (snd (snd (snd (snd (snd (snd (snd c))))))))),
       spEnvFrom = elements (snd (snd (snd (snd (snd (snd (snd (snd (snd c))))))))),
       spDeletionPolicy = mDeletionPolicy v\<rparr>)
     (view_both ImageSpec_view
        (view_both OCRSpec_view
        (view_both (AdminSpec_view F)
        (view_both (view_ptr as_Foreign (vwSecretKeySelector F))
        (view_both (DatabaseSpec_view F)
        (view_both (CacheSpec_view F)
        (view_both (StorageSpec_view F)
        (view_both (vwResourceRequirements F)
        (view_both (view_slice as_Foreigns (vwEnvVar F))
        (view_slice as_Foreigns (vwEnvFromSource F)))))))))))"

definition PaperlessInstanceSpec_reach :: "'x foreign \<Rightarrow> 'x memory \<Rightarrow> 'x PaperlessInstanceSpec_mem \<Rightarrow> addr set" where
  "PaperlessInstanceSpec_reach F = reach_struct (\<lambda>v. (mImage v, mOCR v, mAdmin v, mSecretKeySecretRef v, mDatabase v, mCache v, mVolumes v, mResources v, mEnv v, mEnvFrom v))
     (reach_both ImageSpec_reach
        (reach_both OCRSpec_reach
        (reach_both (AdminSpec_reach F)
        (reach_both (reach_ptr as_Foreign (fgReach F))
        (reach_both (DatabaseSpec_reach F)
        (reach_both (CacheSpec_reach F)
        (reach_both (StorageSpec_reach F)
        (reach_both (fgReach F)
        (reach_both (reach_slice as_Foreigns (fgReach F))
        (reach_slice as_Foreigns (fgReach F)))))))))))"

definition PaperlessInstanceStatus_view :: "'x foreign \<Rightarrow> 'x memory \<Rightarrow> PaperlessInstanceStatus_mem \<Rightarrow> PaperlessInstanceStatus option" where
  "PaperlessInstanceStatus_view F = view_struct (\<lambda>v. mConditions v)
     (\<lambda>c v. \<lparr>psConditions = elements c, psObservedGeneration = mObservedGeneration v, psURL = mStatusURL v,
       psVersion = mVersion v\<rparr>)
     (view_slice as_Foreigns (vwCondition F))"

definition PaperlessInstanceStatus_reach :: "'x foreign \<Rightarrow> 'x memory \<Rightarrow> PaperlessInstanceStatus_mem \<Rightarrow> addr set" where
  "PaperlessInstanceStatus_reach F = reach_struct (\<lambda>v. mConditions v)
     (reach_slice as_Foreigns (fgReach F))"

definition PaperlessInstance_view :: "'x foreign \<Rightarrow> 'x memory \<Rightarrow> 'x PaperlessInstance_mem \<Rightarrow> (TypeMeta \<times> PaperlessInstance) option" where
  "PaperlessInstance_view F = view_struct (\<lambda>v. (mObjectMeta v, mSpec v, mStatus v))
     (\<lambda>c v. (mTypeMeta v, \<lparr>piMeta = fst c, piSpec = fst (snd c), piStatus = snd (snd c)\<rparr>))
     (view_both (vwObjectMeta F)
        (view_both (PaperlessInstanceSpec_view F)
        (PaperlessInstanceStatus_view F)))"

definition PaperlessInstance_reach :: "'x foreign \<Rightarrow> 'x memory \<Rightarrow> 'x PaperlessInstance_mem \<Rightarrow> addr set" where
  "PaperlessInstance_reach F = reach_struct (\<lambda>v. (mObjectMeta v, mSpec v, mStatus v))
     (reach_both (fgReach F)
        (reach_both (PaperlessInstanceSpec_reach F)
        (PaperlessInstanceStatus_reach F)))"

definition PaperlessInstanceList_view :: "'x foreign \<Rightarrow> 'x memory \<Rightarrow> 'x PaperlessInstanceList_mem \<Rightarrow> (TypeMeta \<times> opaque \<times> (TypeMeta \<times> PaperlessInstance) list) option" where
  "PaperlessInstanceList_view F = view_struct (\<lambda>v. (mListMeta v, mItems v))
     (\<lambda>c v. (mListTypeMeta v, fst c, elements (snd c)))
     (view_both (vwListMeta F)
        (view_slice as_Instances (PaperlessInstance_view F)))"

definition PaperlessInstanceList_reach :: "'x foreign \<Rightarrow> 'x memory \<Rightarrow> 'x PaperlessInstanceList_mem \<Rightarrow> addr set" where
  "PaperlessInstanceList_reach F = reach_struct (\<lambda>v. (mListMeta v, mItems v))
     (reach_both (fgReach F)
        (reach_slice as_Instances (PaperlessInstance_reach F)))"

section \<open>Every struct keeps the contract\<close>

named_theorems struct_contracts "the deep copies of the structs keep the contract"

lemmas contract_intros = deep_copier_both deep_copier_ptr deep_copier_slice flat.deep_copier_axioms
lemmas struct_defs = copy_struct_def copy_both_def

lemma foreign_contract:
  assumes "foreign_laws F"
  shows "deep_copier (fgSecretKeySelector F) (vwSecretKeySelector F) (fgReach F)"
    and "deep_copier (fgQuantity F) (vwQuantity F) (fgReach F)"
    and "deep_copier (fgResourceRequirements F) (vwResourceRequirements F) (fgReach F)"
    and "deep_copier (fgEnvVar F) (vwEnvVar F) (fgReach F)"
    and "deep_copier (fgEnvFromSource F) (vwEnvFromSource F) (fgReach F)"
    and "deep_copier (fgObjectMeta F) (vwObjectMeta F) (fgReach F)"
    and "deep_copier (fgListMeta F) (vwListMeta F) (fgReach F)"
    and "deep_copier (fgCondition F) (vwCondition F) (fgReach F)"
  using assms by (simp_all add: foreign_laws_def)

lemma ExternalDatabase_contract [struct_contracts]:
  "deep_copier ExternalDatabase_DeepCopyInto ExternalDatabase_view ExternalDatabase_reach"
proof -
  have "deep_copier (\<lambda>s v. Some (v, s)) (\<lambda>s v. Some v) (\<lambda>s v. {})"
    using flat.deep_copier_axioms unfolding keep_defs [abs_def] .
  then show ?thesis
    by (simp add: ExternalDatabase_DeepCopyInto_def [abs_def] keep_view_def [abs_def]
      keep_reach_def [abs_def])
qed

lemma ImageSpec_struct:
  "ImageSpec_DeepCopyInto = copy_struct (\<lambda>v. mPullSecrets v)
     (\<lambda>c v. v\<lparr>mPullSecrets := c\<rparr>)
     (copy_slice LocalRefsCell as_LocalRefs keep)"
  by (intro ext) (simp add: ImageSpec_DeepCopyInto_def struct_defs split_def)

lemma ImageSpec_contract [struct_contracts]:
  "deep_copier ImageSpec_DeepCopyInto ImageSpec_view ImageSpec_reach"
  unfolding ImageSpec_struct ImageSpec_view_def ImageSpec_reach_def
  by (rule deep_copier_struct, (rule contract_intros struct_contracts | simp)+)

lemma OCRSpec_struct:
  "OCRSpec_DeepCopyInto = copy_struct (\<lambda>v. mLanguages v)
     (\<lambda>c v. v\<lparr>mLanguages := c\<rparr>)
     (copy_slice StringsCell as_Strings keep)"
  by (intro ext) (simp add: OCRSpec_DeepCopyInto_def struct_defs split_def)

lemma OCRSpec_contract [struct_contracts]:
  "deep_copier OCRSpec_DeepCopyInto OCRSpec_view OCRSpec_reach"
  unfolding OCRSpec_struct OCRSpec_view_def OCRSpec_reach_def
  by (rule deep_copier_struct, (rule contract_intros struct_contracts | simp)+)

lemma AdminSpec_struct:
  "AdminSpec_DeepCopyInto F = copy_struct (\<lambda>v. (mEnabled v, mPasswordSecretRef v))
     (\<lambda>c v. v\<lparr>mEnabled := fst c, mPasswordSecretRef := snd c\<rparr>)
     (copy_both (copy_ptr BoolCell as_Bool keep)
        (copy_ptr ForeignCell as_Foreign (fgSecretKeySelector F)))"
  by (intro ext) (simp add: AdminSpec_DeepCopyInto_def struct_defs split_def)

lemma AdminSpec_contract [struct_contracts]:
  assumes F: "foreign_laws F"
  shows "deep_copier (AdminSpec_DeepCopyInto F) (AdminSpec_view F) (AdminSpec_reach F)"
  unfolding AdminSpec_struct AdminSpec_view_def AdminSpec_reach_def
  by (rule deep_copier_struct,
    (rule contract_intros foreign_contract [OF F] struct_contracts | simp add: F)+)

lemma CacheSpec_struct:
  "CacheSpec_DeepCopyInto F = copy_struct (\<lambda>v. (mManaged v, mURLSecretRef v))
     (\<lambda>c v. v\<lparr>mManaged := fst c, mURLSecretRef := snd c\<rparr>)
     (copy_both (copy_ptr BoolCell as_Bool keep)
        (copy_ptr ForeignCell as_Foreign (fgSecretKeySelector F)))"
  by (intro ext) (simp add: CacheSpec_DeepCopyInto_def struct_defs split_def)

lemma CacheSpec_contract [struct_contracts]:
  assumes F: "foreign_laws F"
  shows "deep_copier (CacheSpec_DeepCopyInto F) (CacheSpec_view F) (CacheSpec_reach F)"
  unfolding CacheSpec_struct CacheSpec_view_def CacheSpec_reach_def
  by (rule deep_copier_struct,
    (rule contract_intros foreign_contract [OF F] struct_contracts | simp add: F)+)

lemma VolumeSpec_struct:
  "VolumeSpec_DeepCopyInto F = copy_struct (\<lambda>v. (mSize v, mStorageClassName v, mAccessModes v))
     (\<lambda>c v. v\<lparr>mSize := fst c, mStorageClassName := fst (snd c), mAccessModes := snd (snd c)\<rparr>)
     (copy_both (fgQuantity F)
        (copy_both (copy_ptr StringCell as_String keep)
        (copy_slice StringsCell as_Strings keep)))"
  by (intro ext) (simp add: VolumeSpec_DeepCopyInto_def struct_defs split_def)

lemma VolumeSpec_contract [struct_contracts]:
  assumes F: "foreign_laws F"
  shows "deep_copier (VolumeSpec_DeepCopyInto F) (VolumeSpec_view F) (VolumeSpec_reach F)"
  unfolding VolumeSpec_struct VolumeSpec_view_def VolumeSpec_reach_def
  by (rule deep_copier_struct,
    (rule contract_intros foreign_contract [OF F] struct_contracts | simp add: F)+)

lemma ManagedDatabase_struct:
  "ManagedDatabase_DeepCopyInto F = copy_struct (\<lambda>v. mStorage v)
     (\<lambda>c v. v\<lparr>mStorage := c\<rparr>)
     (VolumeSpec_DeepCopyInto F)"
  by (intro ext) (simp add: ManagedDatabase_DeepCopyInto_def struct_defs split_def)

lemma ManagedDatabase_contract [struct_contracts]:
  assumes F: "foreign_laws F"
  shows "deep_copier (ManagedDatabase_DeepCopyInto F) (ManagedDatabase_view F) (ManagedDatabase_reach F)"
  unfolding ManagedDatabase_struct ManagedDatabase_view_def ManagedDatabase_reach_def
  by (rule deep_copier_struct,
    (rule contract_intros foreign_contract [OF F] struct_contracts | simp add: F)+)

lemma DatabaseSpec_struct:
  "DatabaseSpec_DeepCopyInto F = copy_struct (\<lambda>v. (mCNPG v, mExternal v))
     (\<lambda>c v. v\<lparr>mCNPG := fst c, mExternal := snd c\<rparr>)
     (copy_both (copy_ptr ManagedCell as_Managed (ManagedDatabase_DeepCopyInto F))
        (copy_ptr ExternalCell as_External ExternalDatabase_DeepCopyInto))"
  by (intro ext) (simp add: DatabaseSpec_DeepCopyInto_def struct_defs split_def)

lemma DatabaseSpec_contract [struct_contracts]:
  assumes F: "foreign_laws F"
  shows "deep_copier (DatabaseSpec_DeepCopyInto F) (DatabaseSpec_view F) (DatabaseSpec_reach F)"
  unfolding DatabaseSpec_struct DatabaseSpec_view_def DatabaseSpec_reach_def
  by (rule deep_copier_struct,
    (rule contract_intros foreign_contract [OF F] struct_contracts | simp add: F)+)

lemma StorageSpec_struct:
  "StorageSpec_DeepCopyInto F = copy_struct (\<lambda>v. (mData v, mMedia v, mConsume v, mExport v))
     (\<lambda>c v. v\<lparr>mData := fst c, mMedia := fst (snd c), mConsume := fst (snd (snd c)), mExport := snd (snd (snd c))\<rparr>)
     (copy_both (VolumeSpec_DeepCopyInto F)
        (copy_both (VolumeSpec_DeepCopyInto F)
        (copy_both (VolumeSpec_DeepCopyInto F)
        (VolumeSpec_DeepCopyInto F))))"
  by (intro ext) (simp add: StorageSpec_DeepCopyInto_def struct_defs split_def)

lemma StorageSpec_contract [struct_contracts]:
  assumes F: "foreign_laws F"
  shows "deep_copier (StorageSpec_DeepCopyInto F) (StorageSpec_view F) (StorageSpec_reach F)"
  unfolding StorageSpec_struct StorageSpec_view_def StorageSpec_reach_def
  by (rule deep_copier_struct,
    (rule contract_intros foreign_contract [OF F] struct_contracts | simp add: F)+)

lemma PaperlessInstanceSpec_struct:
  "PaperlessInstanceSpec_DeepCopyInto F = copy_struct (\<lambda>v. (mImage v, mOCR v, mAdmin v, mSecretKeySecretRef v, mDatabase v, mCache v, mVolumes v, mResources v, mEnv v, mEnvFrom v))
     (\<lambda>c v. v\<lparr>mImage := fst c, mOCR := fst (snd c), mAdmin := fst (snd (snd c)), mSecretKeySecretRef := fst (snd (snd (snd c))), mDatabase := fst (snd (snd (snd (snd c)))), mCache := fst (snd (snd (snd (snd (snd c))))), mVolumes := fst (snd (snd (snd (snd (snd (snd c)))))), mResources := fst (snd (snd (snd (snd (snd (snd (snd c))))))), mEnv := fst (snd (snd (snd (snd (snd (snd (snd (snd c)))))))), mEnvFrom := snd (snd (snd (snd (snd (snd (snd (snd (snd c))))))))\<rparr>)
     (copy_both ImageSpec_DeepCopyInto
        (copy_both OCRSpec_DeepCopyInto
        (copy_both (AdminSpec_DeepCopyInto F)
        (copy_both (copy_ptr ForeignCell as_Foreign (fgSecretKeySelector F))
        (copy_both (DatabaseSpec_DeepCopyInto F)
        (copy_both (CacheSpec_DeepCopyInto F)
        (copy_both (StorageSpec_DeepCopyInto F)
        (copy_both (fgResourceRequirements F)
        (copy_both (copy_slice ForeignsCell as_Foreigns (fgEnvVar F))
        (copy_slice ForeignsCell as_Foreigns (fgEnvFromSource F)))))))))))"
  by (intro ext) (simp add: PaperlessInstanceSpec_DeepCopyInto_def struct_defs split_def)

lemma PaperlessInstanceSpec_contract [struct_contracts]:
  assumes F: "foreign_laws F"
  shows "deep_copier (PaperlessInstanceSpec_DeepCopyInto F) (PaperlessInstanceSpec_view F) (PaperlessInstanceSpec_reach F)"
  unfolding PaperlessInstanceSpec_struct PaperlessInstanceSpec_view_def PaperlessInstanceSpec_reach_def
  by (rule deep_copier_struct,
    (rule contract_intros foreign_contract [OF F] struct_contracts | simp add: F)+)

lemma PaperlessInstanceStatus_struct:
  "PaperlessInstanceStatus_DeepCopyInto F = copy_struct (\<lambda>v. mConditions v)
     (\<lambda>c v. v\<lparr>mConditions := c\<rparr>)
     (copy_slice ForeignsCell as_Foreigns (fgCondition F))"
  by (intro ext) (simp add: PaperlessInstanceStatus_DeepCopyInto_def struct_defs split_def)

lemma PaperlessInstanceStatus_contract [struct_contracts]:
  assumes F: "foreign_laws F"
  shows "deep_copier (PaperlessInstanceStatus_DeepCopyInto F) (PaperlessInstanceStatus_view F) (PaperlessInstanceStatus_reach F)"
  unfolding PaperlessInstanceStatus_struct PaperlessInstanceStatus_view_def PaperlessInstanceStatus_reach_def
  by (rule deep_copier_struct,
    (rule contract_intros foreign_contract [OF F] struct_contracts | simp add: F)+)

lemma PaperlessInstance_struct:
  "PaperlessInstance_DeepCopyInto F = copy_struct (\<lambda>v. (mObjectMeta v, mSpec v, mStatus v))
     (\<lambda>c v. v\<lparr>mObjectMeta := fst c, mSpec := fst (snd c), mStatus := snd (snd c)\<rparr>)
     (copy_both (fgObjectMeta F)
        (copy_both (PaperlessInstanceSpec_DeepCopyInto F)
        (PaperlessInstanceStatus_DeepCopyInto F)))"
  by (intro ext) (simp add: PaperlessInstance_DeepCopyInto_def struct_defs split_def)

lemma PaperlessInstance_contract [struct_contracts]:
  assumes F: "foreign_laws F"
  shows "deep_copier (PaperlessInstance_DeepCopyInto F) (PaperlessInstance_view F) (PaperlessInstance_reach F)"
  unfolding PaperlessInstance_struct PaperlessInstance_view_def PaperlessInstance_reach_def
  by (rule deep_copier_struct,
    (rule contract_intros foreign_contract [OF F] struct_contracts | simp add: F)+)

lemma PaperlessInstanceList_struct:
  "PaperlessInstanceList_DeepCopyInto F = copy_struct (\<lambda>v. (mListMeta v, mItems v))
     (\<lambda>c v. v\<lparr>mListMeta := fst c, mItems := snd c\<rparr>)
     (copy_both (fgListMeta F)
        (copy_slice InstancesCell as_Instances (PaperlessInstance_DeepCopyInto F)))"
  by (intro ext) (simp add: PaperlessInstanceList_DeepCopyInto_def struct_defs split_def)

lemma PaperlessInstanceList_contract [struct_contracts]:
  assumes F: "foreign_laws F"
  shows "deep_copier (PaperlessInstanceList_DeepCopyInto F) (PaperlessInstanceList_view F)
    (PaperlessInstanceList_reach F)"
  unfolding PaperlessInstanceList_struct PaperlessInstanceList_view_def PaperlessInstanceList_reach_def
  by (rule deep_copier_struct,
    (rule contract_intros foreign_contract [OF F] struct_contracts | simp add: F)+)

text \<open>The structs without a field of another package's type satisfy it outright.\<close>

interpretation image: deep_copier ImageSpec_DeepCopyInto ImageSpec_view ImageSpec_reach
  by (rule ImageSpec_contract)

interpretation ocr: deep_copier OCRSpec_DeepCopyInto OCRSpec_view OCRSpec_reach
  by (rule OCRSpec_contract)

interpretation external: deep_copier ExternalDatabase_DeepCopyInto ExternalDatabase_view
    ExternalDatabase_reach
  by (rule ExternalDatabase_contract)

section \<open>What the pointers to an instance and to a list show\<close>

definition instance_view ::
    "'x foreign \<Rightarrow> 'x memory \<Rightarrow> addr option \<Rightarrow> (TypeMeta \<times> PaperlessInstance) option option" where
  "instance_view F = view_ptr as_Instance (PaperlessInstance_view F)"

definition instance_reach :: "'x foreign \<Rightarrow> 'x memory \<Rightarrow> addr option \<Rightarrow> addr set" where
  "instance_reach F = reach_ptr as_Instance (PaperlessInstance_reach F)"

definition list_view ::
    "'x foreign \<Rightarrow> 'x memory \<Rightarrow> addr option \<Rightarrow>
     (TypeMeta \<times> opaque \<times> (TypeMeta \<times> PaperlessInstance) list) option option" where
  "list_view F = view_ptr as_List (PaperlessInstanceList_view F)"

definition list_reach :: "'x foreign \<Rightarrow> 'x memory \<Rightarrow> addr option \<Rightarrow> addr set" where
  "list_reach F = reach_ptr as_List (PaperlessInstanceList_reach F)"

lemma instance_contract:
  assumes F: "foreign_laws F"
  shows "deep_copier (PaperlessInstance_DeepCopy F) (instance_view F) (instance_reach F)"
  unfolding PaperlessInstance_DeepCopy_def instance_view_def instance_reach_def
  by (rule deep_copier_ptr) (simp_all add: struct_contracts F)

lemma list_contract:
  assumes F: "foreign_laws F"
  shows "deep_copier (PaperlessInstanceList_DeepCopy F) (list_view F) (list_reach F)"
  unfolding PaperlessInstanceList_DeepCopy_def list_view_def list_reach_def
  by (rule deep_copier_ptr) (simp_all add: struct_contracts F)

text \<open>A write through a pointer: the cells \<open>A\<close> and the new ones may change, nothing else.\<close>

definition written_in :: "addr set \<Rightarrow> 'm store \<Rightarrow> 'm store \<Rightarrow> bool" where
  "written_in A s t \<longleftrightarrow> (\<forall>a < length s. a \<notin> A \<longrightarrow> lookup t a = lookup s a)"

lemma written_in_same_on:
  "written_in A s t \<Longrightarrow> A \<inter> B = {} \<Longrightarrow> B \<subseteq> below (length s) \<Longrightarrow> same_on B s t"
  by (fastforce simp: written_in_def same_on_def)

text \<open>
  The two writes that \<open>meta.SetStatusCondition\<close> can make through the pointer
  \<open>inst.GetConditions()\<close>: another slice (a first condition, or an append), and an element of the
  array the slice shows (a condition that is already there).
\<close>

definition put_conditions :: "'x memory \<Rightarrow> addr \<Rightarrow> slice option \<Rightarrow> 'x memory option" where
  "put_conditions s p sl = do {
     v \<leftarrow> load as_Instance s p;
     Some (s[p := InstanceCell (v\<lparr>mStatus := (mStatus v)\<lparr>mConditions := sl\<rparr>\<rparr>)])
   }"

definition put_condition_at :: "'x memory \<Rightarrow> addr \<Rightarrow> nat \<Rightarrow> 'x \<Rightarrow> 'x memory option" where
  "put_condition_at s p i x = do {
     v \<leftarrow> load as_Instance s p;
     sl \<leftarrow> mConditions (mStatus v);
     array \<leftarrow> load as_Foreigns s (slArr sl);
     if i < slLen sl
     then Some (s[slArr sl := ForeignsCell (array[slOff sl + i := x])])
     else None
   }"

lemma written_in_update: "p \<in> A \<Longrightarrow> written_in A s (s[p := m])"
  by (auto simp: written_in_def lookup_update)

lemma conditions_reach:
  assumes "load as_Instance s p = Some v"
  shows "p \<in> instance_reach F s (Some p)"
    and "mConditions (mStatus v) = Some sl \<Longrightarrow> slArr sl \<in> instance_reach F s (Some p)"
  using assms
  by (simp_all add: instance_reach_def reach_ref_def load_ref_def PaperlessInstance_reach_def
    reach_struct_def reach_both_def PaperlessInstanceStatus_reach_def)

lemma put_conditions_written:
  "put_conditions s p sl = Some t \<Longrightarrow> written_in (instance_reach F s (Some p)) s t"
  by (auto simp: put_conditions_def bind_eq_Some_conv intro!: written_in_update conditions_reach)

lemma put_condition_at_written:
  "put_condition_at s p i x = Some t \<Longrightarrow> written_in (instance_reach F s (Some p)) s t"
  by (auto simp: put_condition_at_def bind_eq_Some_conv split: if_splits
    intro!: written_in_update conditions_reach)

section \<open>The contract, for the pointers the code passes\<close>

text \<open>
  What a \<open>DeepCopy\<close> promises: nil for nil, without an allocation; and for a pointer to a
  well-typed value, whatever its fields are (nil pointers, empty slices, shared cells), a pointer
  to a new value with the same content, made of cells that did not exist before.
\<close>

definition fresh_copy ::
    "('m store \<Rightarrow> addr option \<Rightarrow> (addr option \<times> 'm store) option) \<Rightarrow>
     ('m store \<Rightarrow> addr option \<Rightarrow> 'c option option) \<Rightarrow> ('m store \<Rightarrow> addr option \<Rightarrow> addr set) \<Rightarrow> bool" where
  "fresh_copy copy view reach \<longleftrightarrow>
     (\<forall>s. copy s None = Some (None, s)) \<and>
     (\<forall>s p c. view s (Some p) = Some c \<longrightarrow>
        (\<exists>q s'. copy s (Some p) = Some (Some q, s') \<and> view s' (Some q) = Some c \<and> prefix s s' \<and>
           reach s' (Some q) \<subseteq> between (length s) (length s')))"

lemma fresh_copy_ptr:
  assumes D: "deep_copier copy view reach" and P: "\<And>x. prj (mk x) = Some x"
  shows "fresh_copy (copy_ptr mk prj copy) (view_ptr prj view) (reach_ptr prj reach)"
  unfolding fresh_copy_def
proof (intro conjI allI impI)
  fix s p c
  assume v: "view_ptr prj view s (Some p) = Some c"
  obtain q t where c: "copy_ptr mk prj copy s (Some p) = Some (q, t)"
      "view_ptr prj view t q = Some c" "prefix s t" "reach_ptr prj reach t q \<subseteq> between (length s) (length t)"
    using deep_copier.copies [OF deep_copier_ptr [where mk = mk, OF D P] v] by blast
  moreover have "q \<noteq> None"
    using c(1) by (auto simp: copy_ptr_def alloc_def bind_eq_Some_conv)
  ultimately show "\<exists>q s'. copy_ptr mk prj copy s (Some p) = Some (Some q, s') \<and>
      view_ptr prj view s' (Some q) = Some c \<and> prefix s s' \<and>
      reach_ptr prj reach s' (Some q) \<subseteq> between (length s) (length s')"
    by auto
qed (simp add: copy_ptr_def)

section \<open>A concrete foreign package\<close>

text \<open>
  Values of the other packages as flat contents or as one pointer to such a content, with a deep
  copy that allocates: it satisfies the laws, so they can hold.
\<close>

datatype fval =
    Selector SecretKeySelector
  | Amount quantity
  | Var EnvVar
  | Other opaque
  | Meta ObjectMeta
  | Cond Condition
  | Boxed addr

definition deref :: "fval memory \<Rightarrow> fval \<Rightarrow> fval option" where
  "deref s x = (case x of Boxed a \<Rightarrow> load as_Foreign s a | _ \<Rightarrow> Some x)"

definition demo_copy :: "fval memory \<Rightarrow> fval \<Rightarrow> (fval \<times> fval memory) option" where
  "demo_copy s x =
     (case x of
        Boxed a \<Rightarrow> do { y \<leftarrow> load as_Foreign s a; let (b, s1) = alloc s (ForeignCell y); Some (Boxed b, s1) }
      | _ \<Rightarrow> Some (x, s))"

definition demo_view :: "(fval \<Rightarrow> 'c option) \<Rightarrow> fval memory \<Rightarrow> fval \<Rightarrow> 'c option" where
  "demo_view read s x = Option.bind (deref s x) read"

definition demo_reach :: "fval memory \<Rightarrow> fval \<Rightarrow> addr set" where
  "demo_reach s x = (case x of Boxed a \<Rightarrow> {a} | _ \<Rightarrow> {})"

interpretation demo: deep_copier demo_copy "demo_view read" demo_reach
proof
  fix s x c
  assume v: "demo_view read s x = Some c"
  show "\<exists>y t. demo_copy s x = Some (y, t) \<and> demo_view read t y = Some c \<and> prefix s t \<and>
      demo_reach t y \<subseteq> between (length s) (length t)"
    using v
    by (cases x) (auto simp: demo_copy_def demo_view_def demo_reach_def deref_def bind_eq_Some_conv
      alloc_def load_def lookup_def split: if_splits)
next
  fix s x c t
  assume "demo_view read s x = Some c" "same_on (demo_reach s x) s t"
  then show "demo_view read t x = Some c \<and> demo_reach t x = demo_reach s x"
    by (cases x) (auto simp: demo_view_def demo_reach_def deref_def bind_eq_Some_conv load_def)
next
  fix s x c
  assume "demo_view read s x = Some c"
  then show "demo_reach s x \<subseteq> below (length s)"
    by (cases x) (auto simp: demo_view_def demo_reach_def deref_def bind_eq_Some_conv load_def
      dest: lookup_Some_less)
qed

definition read_selector :: "fval \<Rightarrow> SecretKeySelector option" where
  "read_selector x = (case x of Selector y \<Rightarrow> Some y | _ \<Rightarrow> None)"
definition read_amount :: "fval \<Rightarrow> quantity option" where
  "read_amount x = (case x of Amount y \<Rightarrow> Some y | _ \<Rightarrow> None)"
definition read_var :: "fval \<Rightarrow> EnvVar option" where
  "read_var x = (case x of Var y \<Rightarrow> Some y | _ \<Rightarrow> None)"
definition read_other :: "fval \<Rightarrow> opaque option" where
  "read_other x = (case x of Other y \<Rightarrow> Some y | _ \<Rightarrow> None)"
definition read_meta :: "fval \<Rightarrow> ObjectMeta option" where
  "read_meta x = (case x of Meta y \<Rightarrow> Some y | _ \<Rightarrow> None)"
definition read_cond :: "fval \<Rightarrow> Condition option" where
  "read_cond x = (case x of Cond y \<Rightarrow> Some y | _ \<Rightarrow> None)"

lemmas read_defs = read_selector_def read_amount_def read_var_def read_other_def read_meta_def
  read_cond_def

definition demo_foreign :: "fval foreign" where
  "demo_foreign = \<lparr>
     fgSecretKeySelector = demo_copy, fgQuantity = demo_copy, fgResourceRequirements = demo_copy,
     fgEnvVar = demo_copy, fgEnvFromSource = demo_copy, fgObjectMeta = demo_copy,
     fgListMeta = demo_copy, fgCondition = demo_copy,
     vwSecretKeySelector = demo_view read_selector, vwQuantity = demo_view read_amount,
     vwResourceRequirements = demo_view read_other, vwEnvVar = demo_view read_var,
     vwEnvFromSource = demo_view read_other, vwObjectMeta = demo_view read_meta,
     vwListMeta = demo_view read_other, vwCondition = demo_view read_cond,
     fgReach = demo_reach\<rparr>"

lemma demo_foreign_laws: "foreign_laws demo_foreign"
  by (simp add: foreign_laws_def demo_foreign_def demo.deep_copier_axioms)

section \<open>Properties\<close>

text \<open>
  C25: \<open>base := inst.DeepCopy()\<close> is a snapshot: for a pointer to a well-typed instance the copy
  exists, shows the content the instance has, and shares no cell with it; whatever is written
  afterwards through either pointer, the other one keeps showing that content. So patching the
  status against \<open>base\<close> compares with the instance as it was read.
\<close>

theorem deep_copy_is_a_snapshot:
  assumes F: "foreign_laws F" and v: "instance_view F s (Some p) = Some c"
  shows "\<exists>q s'. PaperlessInstance_DeepCopy F s (Some p) = Some (Some q, s') \<and>
     PaperlessInstance_DeepCopyObject F s (Some p) = Some (Some q, s') \<and> prefix s s' \<and>
     instance_view F s' (Some q) = Some c \<and> instance_view F s' (Some p) = Some c \<and>
     (\<forall>t. written_in (instance_reach F s' (Some p)) s' t \<longrightarrow> instance_view F t (Some q) = Some c) \<and>
     (\<forall>t. written_in (instance_reach F s' (Some q)) s' t \<longrightarrow> instance_view F t (Some p) = Some c)"
proof -
  note D = instance_contract [OF F]
  have "fresh_copy (PaperlessInstance_DeepCopy F) (instance_view F) (instance_reach F)"
    unfolding PaperlessInstance_DeepCopy_def instance_view_def instance_reach_def
    by (rule fresh_copy_ptr) (simp_all add: struct_contracts F)
  then obtain q s' where c: "PaperlessInstance_DeepCopy F s (Some p) = Some (Some q, s')"
      "instance_view F s' (Some q) = Some c" "prefix s s'"
    using v unfolding fresh_copy_def by blast
  obtain w t where w: "PaperlessInstance_DeepCopy F s (Some p) = Some (w, t)"
      "instance_view F t (Some p) = Some c"
      "instance_reach F t (Some p) \<inter> instance_reach F t w = {}"
    by (rule deep_copier.independent [OF D v]) metis
  have eq: "w = Some q" "t = s'" using c(1) w(1) by simp_all
  have "instance_view F u (Some q) = Some c"
    if "written_in (instance_reach F s' (Some p)) s' u" for u
    using deep_copier.frame [OF D c(2) written_in_same_on [OF that w(3) [unfolded eq]
      deep_copier.allocated [OF D c(2)]]] by simp
  moreover have "instance_view F u (Some p) = Some c"
    if "written_in (instance_reach F s' (Some q)) s' u" for u
    using deep_copier.frame [OF D w(2) [unfolded eq] written_in_same_on [OF that
      w(3) [unfolded eq Int_commute [of "instance_reach F s' (Some p)"]]
      deep_copier.allocated [OF D w(2) [unfolded eq]]]] by simp
  moreover have "PaperlessInstance_DeepCopyObject F s (Some p) = Some (Some q, s')"
    by (simp add: PaperlessInstance_DeepCopyObject_def c(1))
  ultimately show ?thesis using c w(2) [unfolded eq] by blast
qed

text \<open>A memory with an instance that has conditions, an environment and an external cache.\<close>

definition demo_spec :: "fval PaperlessInstanceSpec_mem" where
  "demo_spec = \<lparr>
     mImage = \<lparr>mRepository = [], mTag = ''3.1.3'', mDigest = [], mPullPolicy = [],
               mPullSecrets = Some \<lparr>slArr = 0, slOff = 0, slLen = 1\<rparr>\<rparr>,
     mSpecURL = [], mTimezone = ''UTC'', mOCR = \<lparr>mLanguages = Some \<lparr>slArr = 1, slOff = 1, slLen = 1\<rparr>\<rparr>,
     mAdmin = \<lparr>mEnabled = Some 2, mUsername = ''admin'', mEmail = [], mPasswordSecretRef = None\<rparr>,
     mSecretKeySecretRef = None, mDatabase = \<lparr>mCNPG = None, mExternal = None\<rparr>,
     mCache = \<lparr>mManaged = Some 2, mURL = [], mURLSecretRef = Some 3\<rparr>,
     mVolumes =
       (let v = \<lparr>mSize = Amount ''5Gi'', mStorageClassName = None, mAccessModes = None\<rparr>
        in \<lparr>mData = v, mMedia = v, mConsume = v, mExport = v\<rparr>),
     mResources = Other [], mEnv = Some \<lparr>slArr = 4, slOff = 0, slLen = 1\<rparr>, mEnvFrom = None,
     mDeletionPolicy = []\<rparr>"

definition demo_condition :: "string \<Rightarrow> Condition" where
  "demo_condition status = \<lparr>cdType = ConditionReady, cdStatus = status, cdObservedGeneration = 1,
     cdLastTransitionTime = 0, cdReason = ''Reconciling'', cdMessage = []\<rparr>"

definition demo_memory :: "fval memory" where
  "demo_memory = [
     LocalRefsCell [\<lparr>lrName = ''registry''\<rparr>],
     StringsCell [''fra'', ''eng''],
     BoolCell False,
     ForeignCell (Boxed 7),
     ForeignsCell [Var (env_value ''A'' ''1'')],
     ForeignsCell [Cond (demo_condition ''True'')],
     InstanceCell \<lparr>mTypeMeta = (''PaperlessInstance'', GroupVersionString),
       mObjectMeta = Meta (new_meta ''docs'' ''default'' Map.empty), mSpec = demo_spec,
       mStatus = \<lparr>mConditions = Some \<lparr>slArr = 5, slOff = 0, slLen = 1\<rparr>, mObservedGeneration = 1,
                  mStatusURL = [], mVersion = []\<rparr>\<rparr>,
     ForeignCell (Selector \<lparr>skName = ''redis'', skKey = ''url'', skOptional = None\<rparr>)]"

definition demo_instance :: PaperlessInstance where
  "demo_instance = \<lparr>
     piMeta = new_meta ''docs'' ''default'' Map.empty,
     piSpec = zero_spec\<lparr>
       spImage := \<lparr>imRepository = [], imTag = ''3.1.3'', imDigest = [], imPullPolicy = [],
                   imPullSecrets = [\<lparr>lrName = ''registry''\<rparr>]\<rparr>,
       spTimezone := ''UTC'', spOCR := \<lparr>ocLanguages = [''eng'']\<rparr>,
       spAdmin := \<lparr>adEnabled = Some False, adUsername = ''admin'', adEmail = [],
                   adPasswordSecretRef = None\<rparr>,
       spCache := \<lparr>caManaged = Some False, caURL = [],
                   caURLSecretRef = Some \<lparr>skName = ''redis'', skKey = ''url'', skOptional = None\<rparr>\<rparr>,
       spStorage :=
         (let v = \<lparr>vsSize = ''5Gi'', vsStorageClassName = None, vsAccessModes = []\<rparr>
          in \<lparr>stData = v, stMedia = v, stConsume = v, stExport = v\<rparr>),
       spEnv := [env_value ''A'' ''1'']\<rparr>,
     piStatus = \<lparr>psConditions = [demo_condition ''True''], psObservedGeneration = 1, psURL = [],
                 psVersion = []\<rparr>\<rparr>"

lemmas view_defs = instance_view_def PaperlessInstance_view_def PaperlessInstanceSpec_view_def
  PaperlessInstanceStatus_view_def StorageSpec_view_def VolumeSpec_view_def ImageSpec_view_def
  OCRSpec_view_def AdminSpec_view_def CacheSpec_view_def DatabaseSpec_view_def
  ManagedDatabase_view_def view_struct_def view_both_def keep_view_def view_ref_def load_ref_def
  window_def elements_def load_def lookup_def

lemma demo_view: "instance_view demo_foreign demo_memory (Some 6) =
    Some (Some ((''PaperlessInstance'', GroupVersionString), demo_instance))"
  by (simp add: view_defs demo_memory_def demo_spec_def demo_foreign_def demo_view_def deref_def
    read_defs demo_instance_def zero_spec_def Let_def)

lemma demo_condition_written:
  assumes "prefix demo_memory s"
  shows "\<exists>t. put_condition_at s 6 0 (Cond (demo_condition ''False'')) = Some t"
proof -
  obtain rest where "s = demo_memory @ rest" using assms by (elim prefixE)
  then show ?thesis by (simp add: put_condition_at_def load_def lookup_def demo_memory_def)
qed

text \<open>Setting Ready=False on the instance leaves \<open>base\<close> at Ready=True.\<close>

theorem deep_copy_is_a_snapshot_witness:
  "\<exists>q s' t. PaperlessInstance_DeepCopy demo_foreign demo_memory (Some 6) = Some (Some q, s') \<and>
     put_condition_at s' 6 0 (Cond (demo_condition ''False'')) = Some t \<and>
     instance_view demo_foreign t (Some q) =
       Some (Some ((''PaperlessInstance'', GroupVersionString), demo_instance))"
  using deep_copy_is_a_snapshot [OF demo_foreign_laws demo_view] demo_condition_written
    put_condition_at_written by metis

text \<open>
  C26: Each of the thirteen \<open>DeepCopy\<close> methods returns nil for nil and otherwise a pointer to a
  value with the same content, made of new cells only: it does not fail on a well-typed value,
  whichever of its pointers and slices are nil, and changes no cell that was there.
\<close>

theorem deep_copies_are_fresh:
  assumes "foreign_laws F"
  shows "fresh_copy ImageSpec_DeepCopy (view_ptr as_Image ImageSpec_view)
      (reach_ptr as_Image ImageSpec_reach) \<and>
    fresh_copy OCRSpec_DeepCopy (view_ptr as_OCR OCRSpec_view) (reach_ptr as_OCR OCRSpec_reach) \<and>
    fresh_copy ExternalDatabase_DeepCopy (view_ptr as_External ExternalDatabase_view)
      (reach_ptr as_External ExternalDatabase_reach) \<and>
    fresh_copy (AdminSpec_DeepCopy F) (view_ptr as_Admin (AdminSpec_view F))
      (reach_ptr as_Admin (AdminSpec_reach F)) \<and>
    fresh_copy (CacheSpec_DeepCopy F) (view_ptr as_Cache (CacheSpec_view F))
      (reach_ptr as_Cache (CacheSpec_reach F)) \<and>
    fresh_copy (VolumeSpec_DeepCopy F) (view_ptr as_Volume (VolumeSpec_view F))
      (reach_ptr as_Volume (VolumeSpec_reach F)) \<and>
    fresh_copy (StorageSpec_DeepCopy F) (view_ptr as_Storage (StorageSpec_view F))
      (reach_ptr as_Storage (StorageSpec_reach F)) \<and>
    fresh_copy (ManagedDatabase_DeepCopy F) (view_ptr as_Managed (ManagedDatabase_view F))
      (reach_ptr as_Managed (ManagedDatabase_reach F)) \<and>
    fresh_copy (DatabaseSpec_DeepCopy F) (view_ptr as_Database (DatabaseSpec_view F))
      (reach_ptr as_Database (DatabaseSpec_reach F)) \<and>
    fresh_copy (PaperlessInstanceSpec_DeepCopy F) (view_ptr as_Spec (PaperlessInstanceSpec_view F))
      (reach_ptr as_Spec (PaperlessInstanceSpec_reach F)) \<and>
    fresh_copy (PaperlessInstanceStatus_DeepCopy F)
      (view_ptr as_Status (PaperlessInstanceStatus_view F))
      (reach_ptr as_Status (PaperlessInstanceStatus_reach F)) \<and>
    fresh_copy (PaperlessInstance_DeepCopy F) (instance_view F) (instance_reach F) \<and>
    fresh_copy (PaperlessInstanceList_DeepCopy F) (list_view F) (list_reach F)"
  using assms
  by (simp add: ImageSpec_DeepCopy_def OCRSpec_DeepCopy_def ExternalDatabase_DeepCopy_def
    AdminSpec_DeepCopy_def CacheSpec_DeepCopy_def VolumeSpec_DeepCopy_def StorageSpec_DeepCopy_def
    ManagedDatabase_DeepCopy_def DatabaseSpec_DeepCopy_def PaperlessInstanceSpec_DeepCopy_def
    PaperlessInstanceStatus_DeepCopy_def PaperlessInstance_DeepCopy_def
    PaperlessInstanceList_DeepCopy_def instance_view_def instance_reach_def list_view_def
    list_reach_def fresh_copy_ptr struct_contracts)

theorem deep_copies_are_fresh_witness:
  "fresh_copy (PaperlessInstanceList_DeepCopy demo_foreign) (list_view demo_foreign)
     (list_reach demo_foreign)"
  using deep_copies_are_fresh [OF demo_foreign_laws] by blast

end
