(* ===== verification/Api_Json.thy ===== *)
theory Api_Json
  imports Api_Types "HOL-Library.Monad_Syntax"
begin

text \<open>
  The \<open>json\<close> tags of \<open>api/v1alpha1/paperlessinstance_types.go\<close>: how the API types are written to
  and read from the documents the API server stores, by \<open>encoding/json\<close>. A field tagged
  \<open>omitempty\<close> is left out when it is empty: an empty string, a zero number, a nil pointer or an
  empty slice, but never a struct, so the zero \<open>Size\<close> of a volume is always sent. Reading leaves
  the zero value in a field that is absent or null, ignores unknown keys, and fails on a value
  of the wrong type. The encodings of the types of other packages are parameters; \<open>kind\<close> and
  \<open>apiVersion\<close> are not part of the record of an instance.
\<close>

record wire =
  wQuantity :: "quantity \<Rightarrow> json"
  rQuantity :: "json \<Rightarrow> quantity option"
  wSelector :: "SecretKeySelector \<Rightarrow> json"
  rSelector :: "json \<Rightarrow> SecretKeySelector option"
  wLocalRef :: "LocalObjectReference \<Rightarrow> json"
  rLocalRef :: "json \<Rightarrow> LocalObjectReference option"
  wResources :: "opaque \<Rightarrow> json"
  rResources :: "json \<Rightarrow> opaque option"
  wEnvVar :: "EnvVar \<Rightarrow> json"
  rEnvVar :: "json \<Rightarrow> EnvVar option"
  wEnvFrom :: "opaque \<Rightarrow> json"
  rEnvFrom :: "json \<Rightarrow> opaque option"
  wMeta :: "ObjectMeta \<Rightarrow> json"
  rMeta :: "json \<Rightarrow> ObjectMeta option"
  wCondition :: "Condition \<Rightarrow> json"
  rCondition :: "json \<Rightarrow> Condition option"

text \<open>What is written reads back, and nothing of another package's type is written as null.\<close>

definition codec :: "('a \<Rightarrow> json) \<Rightarrow> (json \<Rightarrow> 'a option) \<Rightarrow> bool" where
  "codec w r \<longleftrightarrow> (\<forall>x. w x \<noteq> JNull \<and> r (w x) = Some x)"

definition wire_laws :: "wire \<Rightarrow> bool" where
  "wire_laws W \<longleftrightarrow>
     codec (wQuantity W) (rQuantity W) \<and> codec (wSelector W) (rSelector W) \<and>
     codec (wLocalRef W) (rLocalRef W) \<and> codec (wResources W) (rResources W) \<and>
     codec (wEnvVar W) (rEnvVar W) \<and> codec (wEnvFrom W) (rEnvFrom W) \<and>
     codec (wMeta W) (rMeta W) \<and> codec (wCondition W) (rCondition W)"

lemma codecD: "codec w r \<Longrightarrow> w x \<noteq> JNull" "codec w r \<Longrightarrow> r (w x) = Some x"
  by (simp_all add: codec_def)

section \<open>Objects with optional fields\<close>

definition json_object :: "(string \<times> json option) list \<Rightarrow> json" where
  "json_object xs = JObj (\<lambda>k. Option.bind (map_of xs k) (\<lambda>v. v))"

text \<open>\<open>omitempty\<close> for each kind of field.\<close>

definition omit_string :: "string \<Rightarrow> json option" where
  "omit_string s = (if s = [] then None else Some (JStr s))"

definition omit_int :: "i64 \<Rightarrow> json option" where
  "omit_int n = (if n = 0 then None else Some (JInt n))"

definition omit_ptr :: "('a \<Rightarrow> json) \<Rightarrow> 'a option \<Rightarrow> json option" where
  "omit_ptr w p = map_option w p"

definition omit_list :: "('a \<Rightarrow> json) \<Rightarrow> 'a list \<Rightarrow> json option" where
  "omit_list w xs = (if xs = [] then None else Some (JArr (map w xs)))"

text \<open>Reading a field, and the readers of the scalar types.\<close>

definition field :: "'a \<Rightarrow> (json \<Rightarrow> 'a option) \<Rightarrow> json_map \<Rightarrow> string \<Rightarrow> 'a option" where
  "field zero r m k =
     (case m k of None \<Rightarrow> Some zero | Some j \<Rightarrow> if j = JNull then Some zero else r j)"

definition read_obj :: "(json_map \<Rightarrow> 'a option) \<Rightarrow> json \<Rightarrow> 'a option" where
  "read_obj r j = (case j of JObj m \<Rightarrow> r m | _ \<Rightarrow> None)"

definition read_string :: "json \<Rightarrow> string option" where
  "read_string j = (case j of JStr s \<Rightarrow> Some s | _ \<Rightarrow> None)"

definition read_bool :: "json \<Rightarrow> bool option" where
  "read_bool j = (case j of JBool b \<Rightarrow> Some b | _ \<Rightarrow> None)"

definition read_i64 :: "json \<Rightarrow> i64 option" where
  "read_i64 j = (case j of JInt n \<Rightarrow> Some n | _ \<Rightarrow> None)"

text \<open>A number that does not fit an \<open>int32\<close> is an error.\<close>

definition read_i32 :: "json \<Rightarrow> i32 option" where
  "read_i32 j =
     (case j of
        JInt n \<Rightarrow> if - (2 ^ 31) \<le> sint n \<and> sint n < 2 ^ 31 then Some (scast n) else None
      | _ \<Rightarrow> None)"

fun read_all :: "(json \<Rightarrow> 'a option) \<Rightarrow> json list \<Rightarrow> 'a list option" where
  "read_all r [] = Some []"
| "read_all r (j # js) = do { x \<leftarrow> r j; xs \<leftarrow> read_all r js; Some (x # xs) }"

definition read_list :: "(json \<Rightarrow> 'a option) \<Rightarrow> json \<Rightarrow> 'a list option" where
  "read_list r j = (case j of JArr js \<Rightarrow> read_all r js | _ \<Rightarrow> None)"

definition ptr_field :: "(json \<Rightarrow> 'a option) \<Rightarrow> json_map \<Rightarrow> string \<Rightarrow> 'a option option" where
  "ptr_field r = field None (\<lambda>j. map_option Some (r j))"

lemma read_all_map: "codec w r \<Longrightarrow> read_all r (map w xs) = Some xs"
  by (induction xs) (simp_all add: codecD)

lemma field_cases [simp]:
  "m k = None \<Longrightarrow> field zero r m k = Some zero"
  "m k = Some j \<Longrightarrow> j \<noteq> JNull \<Longrightarrow> field zero r m k = r j"
  by (simp_all add: field_def)

text \<open>A field written with \<open>omitempty\<close> reads back, whatever the key.\<close>

lemma field_string: "m k = omit_string s \<Longrightarrow> field [] read_string m k = Some s"
  by (simp add: omit_string_def field_def read_string_def split: if_splits)

lemma field_i64: "m k = omit_int n \<Longrightarrow> field 0 read_i64 m k = Some n"
  by (simp add: omit_int_def field_def read_i64_def split: if_splits)

lemma sint_i32_range: "- (2 ^ 31) \<le> sint (n :: i32)" "sint (n :: i32) < 2 ^ 31"
  using sint_range_size [of n] by (simp_all add: word_size)

lemma scast_up_down: "scast (scast (n :: i32) :: i64) = n"
  by (rule scast_up_scast_id) (simp add: is_up)

lemma read_i32_scast [simp]: "read_i32 (JInt (scast (n :: i32))) = Some n"
  using sint_i32_range [of n] by (simp add: read_i32_def sint_scast_i32 scast_up_down)

lemma field_i32:
  assumes "m k = omit_int (scast n)"
  shows "field 0 read_i32 m k = Some n"
proof (cases "(scast n :: i64) = 0")
  case True
  have "n = scast (scast n :: i64)" by (simp only: scast_up_down)
  then have "n = 0" using True by (metis scast_0)
  then show ?thesis using assms by (simp add: omit_int_def field_def)
next
  case False
  then show ?thesis using assms by (simp add: omit_int_def)
qed

lemma field_ptr: "codec w r \<Longrightarrow> m k = omit_ptr w p \<Longrightarrow> ptr_field r m k = Some p"
  by (cases p) (simp_all add: omit_ptr_def ptr_field_def codecD)

lemma field_list: "codec w r \<Longrightarrow> m k = omit_list w xs \<Longrightarrow> field [] (read_list r) m k = Some xs"
  by (cases "xs = []") (simp_all add: omit_list_def read_list_def read_all_map)

lemma field_struct: "codec w r \<Longrightarrow> m k = Some (w x) \<Longrightarrow> field zero r m k = Some x"
  by (simp add: codecD)

lemma codec_scalars: "codec JStr read_string" "codec JBool read_bool"
  by (simp_all add: codec_def read_string_def read_bool_def)

lemmas field_scalars = field_string field_i64 field_i32

lemma codec_object:
  assumes "\<And>x. r (\<lambda>k. Option.bind (map_of (ps x) k) (\<lambda>v. v)) = Some x"
  shows "codec (\<lambda>x. json_object (ps x)) (read_obj r)"
  using assms by (simp add: codec_def json_object_def read_obj_def)

section \<open>The structs\<close>

text \<open>The zero values the readers leave behind: of a quantity, and of a status.\<close>

definition quantity_zero :: quantity where
  "quantity_zero = ''0''"

definition zero_status :: PaperlessInstanceStatus where
  "zero_status = \<lparr>psConditions = [], psObservedGeneration = 0, psURL = [], psVersion = []\<rparr>"

lemma wire_codec:
  assumes "wire_laws W"
  shows "codec (wQuantity W) (rQuantity W)" "codec (wSelector W) (rSelector W)"
    "codec (wLocalRef W) (rLocalRef W)" "codec (wResources W) (rResources W)"
    "codec (wEnvVar W) (rEnvVar W)" "codec (wEnvFrom W) (rEnvFrom W)"
    "codec (wMeta W) (rMeta W)" "codec (wCondition W) (rCondition W)"
  using assms by (simp_all add: wire_laws_def)

definition write_ImageSpec :: "wire \<Rightarrow> ImageSpec \<Rightarrow> json" where
  "write_ImageSpec W x = json_object [
     (''repository'', omit_string (imRepository x)),
     (''tag'', omit_string (imTag x)),
     (''digest'', omit_string (imDigest x)),
     (''pullPolicy'', omit_string (imPullPolicy x)),
     (''pullSecrets'', omit_list (wLocalRef W) (imPullSecrets x))]"

definition read_ImageSpec :: "wire \<Rightarrow> json \<Rightarrow> ImageSpec option" where
  "read_ImageSpec W = read_obj (\<lambda>m. do {
     repository \<leftarrow> field [] read_string m ''repository'';
     tag \<leftarrow> field [] read_string m ''tag'';
     digest \<leftarrow> field [] read_string m ''digest'';
     pullPolicy \<leftarrow> field [] read_string m ''pullPolicy'';
     pullSecrets \<leftarrow> field [] (read_list (rLocalRef W)) m ''pullSecrets'';
     Some \<lparr>imRepository = repository, imTag = tag, imDigest = digest,
           imPullPolicy = pullPolicy, imPullSecrets = pullSecrets\<rparr> })"

lemma ImageSpec_codec:
  assumes W: "wire_laws W"
  shows "codec (write_ImageSpec W) (read_ImageSpec W)"
proof -
  note codecs = codec_scalars wire_codec [OF W]
  show ?thesis
    unfolding write_ImageSpec_def [abs_def] read_ImageSpec_def
    by (rule codec_object) (simp add: field_scalars codecs [THEN field_ptr] codecs [THEN field_list]
      codecs [THEN field_struct])
qed

definition write_VolumeSpec :: "wire \<Rightarrow> VolumeSpec \<Rightarrow> json" where
  "write_VolumeSpec W x = json_object [
     (''size'', Some (wQuantity W (vsSize x))),
     (''storageClassName'', omit_ptr JStr (vsStorageClassName x)),
     (''accessModes'', omit_list JStr (vsAccessModes x))]"

definition read_VolumeSpec :: "wire \<Rightarrow> json \<Rightarrow> VolumeSpec option" where
  "read_VolumeSpec W = read_obj (\<lambda>m. do {
     size \<leftarrow> field quantity_zero (rQuantity W) m ''size'';
     storageClassName \<leftarrow> ptr_field read_string m ''storageClassName'';
     accessModes \<leftarrow> field [] (read_list read_string) m ''accessModes'';
     Some \<lparr>vsSize = size, vsStorageClassName = storageClassName,
           vsAccessModes = accessModes\<rparr> })"

lemma VolumeSpec_codec:
  assumes W: "wire_laws W"
  shows "codec (write_VolumeSpec W) (read_VolumeSpec W)"
proof -
  note codecs = codec_scalars wire_codec [OF W]
  show ?thesis
    unfolding write_VolumeSpec_def [abs_def] read_VolumeSpec_def
    by (rule codec_object) (simp add: field_scalars codecs [THEN field_ptr] codecs [THEN field_list]
      codecs [THEN field_struct])
qed

definition write_StorageSpec :: "wire \<Rightarrow> StorageSpec \<Rightarrow> json" where
  "write_StorageSpec W x = json_object [
     (''data'', Some (write_VolumeSpec W (stData x))),
     (''media'', Some (write_VolumeSpec W (stMedia x))),
     (''consume'', Some (write_VolumeSpec W (stConsume x))),
     (''export'', Some (write_VolumeSpec W (stExport x)))]"

definition read_StorageSpec :: "wire \<Rightarrow> json \<Rightarrow> StorageSpec option" where
  "read_StorageSpec W = read_obj (\<lambda>m. do {
     data_v \<leftarrow> field zero_volume (read_VolumeSpec W) m ''data'';
     media_v \<leftarrow> field zero_volume (read_VolumeSpec W) m ''media'';
     consume_v \<leftarrow> field zero_volume (read_VolumeSpec W) m ''consume'';
     export_v \<leftarrow> field zero_volume (read_VolumeSpec W) m ''export'';
     Some \<lparr>stData = data_v, stMedia = media_v, stConsume = consume_v,
           stExport = export_v\<rparr> })"

lemma StorageSpec_codec:
  assumes W: "wire_laws W"
  shows "codec (write_StorageSpec W) (read_StorageSpec W)"
proof -
  note codecs = codec_scalars wire_codec [OF W] VolumeSpec_codec [OF W]
  show ?thesis
    unfolding write_StorageSpec_def [abs_def] read_StorageSpec_def
    by (rule codec_object) (simp add: field_scalars codecs [THEN field_ptr] codecs [THEN field_list]
      codecs [THEN field_struct])
qed

definition write_ExternalDatabase :: "wire \<Rightarrow> ExternalDatabase \<Rightarrow> json" where
  "write_ExternalDatabase W x = json_object [
     (''host'', Some (JStr (edHost x))),
     (''port'', omit_int (scast (edPort x))),
     (''name'', omit_string (edName x)),
     (''credentialsSecretRef'', Some (wLocalRef W (edCredentialsSecretRef x)))]"

definition read_ExternalDatabase :: "wire \<Rightarrow> json \<Rightarrow> ExternalDatabase option" where
  "read_ExternalDatabase W = read_obj (\<lambda>m. do {
     host \<leftarrow> field [] read_string m ''host'';
     port \<leftarrow> field 0 read_i32 m ''port'';
     name \<leftarrow> field [] read_string m ''name'';
     credentials_ref \<leftarrow> field \<lparr>lrName = []\<rparr> (rLocalRef W) m ''credentialsSecretRef'';
     Some \<lparr>edHost = host, edPort = port, edName = name,
           edCredentialsSecretRef = credentials_ref\<rparr> })"

lemma ExternalDatabase_codec:
  assumes W: "wire_laws W"
  shows "codec (write_ExternalDatabase W) (read_ExternalDatabase W)"
proof -
  note codecs = codec_scalars wire_codec [OF W]
  show ?thesis
    unfolding write_ExternalDatabase_def [abs_def] read_ExternalDatabase_def
    by (rule codec_object) (simp add: field_scalars codecs [THEN field_ptr] codecs [THEN field_list]
      codecs [THEN field_struct]
      codecs [THEN codecD(2)])
qed

definition write_ManagedDatabase :: "wire \<Rightarrow> ManagedDatabase \<Rightarrow> json" where
  "write_ManagedDatabase W x = json_object [
     (''instances'', omit_int (scast (mdInstances x))),
     (''storage'', Some (write_VolumeSpec W (mdStorage x)))]"

definition read_ManagedDatabase :: "wire \<Rightarrow> json \<Rightarrow> ManagedDatabase option" where
  "read_ManagedDatabase W = read_obj (\<lambda>m. do {
     instances \<leftarrow> field 0 read_i32 m ''instances'';
     storage \<leftarrow> field zero_volume (read_VolumeSpec W) m ''storage'';
     Some \<lparr>mdInstances = instances, mdStorage = storage\<rparr> })"

lemma ManagedDatabase_codec:
  assumes W: "wire_laws W"
  shows "codec (write_ManagedDatabase W) (read_ManagedDatabase W)"
proof -
  note codecs = codec_scalars wire_codec [OF W] VolumeSpec_codec [OF W]
  show ?thesis
    unfolding write_ManagedDatabase_def [abs_def] read_ManagedDatabase_def
    by (rule codec_object) (simp add: field_scalars codecs [THEN field_ptr] codecs [THEN field_list]
      codecs [THEN field_struct])
qed

definition write_DatabaseSpec :: "wire \<Rightarrow> DatabaseSpec \<Rightarrow> json" where
  "write_DatabaseSpec W x = json_object [
     (''cnpg'', omit_ptr (write_ManagedDatabase W) (dbCNPG x)),
     (''external'', omit_ptr (write_ExternalDatabase W) (dbExternal x))]"

definition read_DatabaseSpec :: "wire \<Rightarrow> json \<Rightarrow> DatabaseSpec option" where
  "read_DatabaseSpec W = read_obj (\<lambda>m. do {
     cnpg \<leftarrow> ptr_field (read_ManagedDatabase W) m ''cnpg'';
     external \<leftarrow> ptr_field (read_ExternalDatabase W) m ''external'';
     Some \<lparr>dbCNPG = cnpg, dbExternal = external\<rparr> })"

lemma DatabaseSpec_codec:
  assumes W: "wire_laws W"
  shows "codec (write_DatabaseSpec W) (read_DatabaseSpec W)"
proof -
  note codecs = codec_scalars wire_codec [OF W] ManagedDatabase_codec [OF W] ExternalDatabase_codec [OF W]
  show ?thesis
    unfolding write_DatabaseSpec_def [abs_def] read_DatabaseSpec_def
    by (rule codec_object) (simp add: field_scalars codecs [THEN field_ptr] codecs [THEN field_list]
      codecs [THEN field_struct])
qed

definition write_CacheSpec :: "wire \<Rightarrow> CacheSpec \<Rightarrow> json" where
  "write_CacheSpec W x = json_object [
     (''managed'', omit_ptr JBool (caManaged x)),
     (''url'', omit_string (caURL x)),
     (''urlSecretRef'', omit_ptr (wSelector W) (caURLSecretRef x))]"

definition read_CacheSpec :: "wire \<Rightarrow> json \<Rightarrow> CacheSpec option" where
  "read_CacheSpec W = read_obj (\<lambda>m. do {
     managed \<leftarrow> ptr_field read_bool m ''managed'';
     url \<leftarrow> field [] read_string m ''url'';
     url_ref \<leftarrow> ptr_field (rSelector W) m ''urlSecretRef'';
     Some \<lparr>caManaged = managed, caURL = url, caURLSecretRef = url_ref\<rparr> })"

lemma CacheSpec_codec:
  assumes W: "wire_laws W"
  shows "codec (write_CacheSpec W) (read_CacheSpec W)"
proof -
  note codecs = codec_scalars wire_codec [OF W]
  show ?thesis
    unfolding write_CacheSpec_def [abs_def] read_CacheSpec_def
    by (rule codec_object) (simp add: field_scalars codecs [THEN field_ptr] codecs [THEN field_list]
      codecs [THEN field_struct])
qed

definition write_AdminSpec :: "wire \<Rightarrow> AdminSpec \<Rightarrow> json" where
  "write_AdminSpec W x = json_object [
     (''enabled'', omit_ptr JBool (adEnabled x)),
     (''username'', omit_string (adUsername x)),
     (''email'', omit_string (adEmail x)),
     (''passwordSecretRef'', omit_ptr (wSelector W) (adPasswordSecretRef x))]"

definition read_AdminSpec :: "wire \<Rightarrow> json \<Rightarrow> AdminSpec option" where
  "read_AdminSpec W = read_obj (\<lambda>m. do {
     enabled \<leftarrow> ptr_field read_bool m ''enabled'';
     username \<leftarrow> field [] read_string m ''username'';
     email \<leftarrow> field [] read_string m ''email'';
     password_ref \<leftarrow> ptr_field (rSelector W) m ''passwordSecretRef'';
     Some \<lparr>adEnabled = enabled, adUsername = username, adEmail = email,
           adPasswordSecretRef = password_ref\<rparr> })"

lemma AdminSpec_codec:
  assumes W: "wire_laws W"
  shows "codec (write_AdminSpec W) (read_AdminSpec W)"
proof -
  note codecs = codec_scalars wire_codec [OF W]
  show ?thesis
    unfolding write_AdminSpec_def [abs_def] read_AdminSpec_def
    by (rule codec_object) (simp add: field_scalars codecs [THEN field_ptr] codecs [THEN field_list]
      codecs [THEN field_struct])
qed

definition write_OCRSpec :: "OCRSpec \<Rightarrow> json" where
  "write_OCRSpec x = json_object [
     (''languages'', omit_list JStr (ocLanguages x))]"

definition read_OCRSpec :: "json \<Rightarrow> OCRSpec option" where
  "read_OCRSpec = read_obj (\<lambda>m. do {
     languages \<leftarrow> field [] (read_list read_string) m ''languages'';
     Some \<lparr>ocLanguages = languages\<rparr> })"

lemma OCRSpec_codec: "codec write_OCRSpec read_OCRSpec"
  unfolding write_OCRSpec_def [abs_def] read_OCRSpec_def
  by (rule codec_object) (simp add: field_scalars codec_scalars [THEN field_ptr]
    codec_scalars [THEN field_list])

definition write_PaperlessInstanceSpec :: "wire \<Rightarrow> PaperlessInstanceSpec \<Rightarrow> json" where
  "write_PaperlessInstanceSpec W x = json_object [
     (''image'', Some (write_ImageSpec W (spImage x))),
     (''url'', omit_string (spURL x)),
     (''timezone'', omit_string (spTimezone x)),
     (''ocr'', Some (write_OCRSpec (spOCR x))),
     (''admin'', Some (write_AdminSpec W (spAdmin x))),
     (''secretKeySecretRef'', omit_ptr (wSelector W) (spSecretKeySecretRef x)),
     (''database'', Some (write_DatabaseSpec W (spDatabase x))),
     (''cache'', Some (write_CacheSpec W (spCache x))),
     (''storage'', Some (write_StorageSpec W (spStorage x))),
     (''resources'', Some (wResources W (spResources x))),
     (''env'', omit_list (wEnvVar W) (spEnv x)),
     (''envFrom'', omit_list (wEnvFrom W) (spEnvFrom x)),
     (''deletionPolicy'', omit_string (spDeletionPolicy x))]"

definition read_PaperlessInstanceSpec :: "wire \<Rightarrow> json \<Rightarrow> PaperlessInstanceSpec option" where
  "read_PaperlessInstanceSpec W = read_obj (\<lambda>m. do {
     image_v \<leftarrow> field (spImage zero_spec) (read_ImageSpec W) m ''image'';
     url \<leftarrow> field [] read_string m ''url'';
     timezone \<leftarrow> field [] read_string m ''timezone'';
     ocr \<leftarrow> field (spOCR zero_spec) read_OCRSpec m ''ocr'';
     admin \<leftarrow> field (spAdmin zero_spec) (read_AdminSpec W) m ''admin'';
     secretKey_ref \<leftarrow> ptr_field (rSelector W) m ''secretKeySecretRef'';
     database \<leftarrow> field (spDatabase zero_spec) (read_DatabaseSpec W) m ''database'';
     cache \<leftarrow> field (spCache zero_spec) (read_CacheSpec W) m ''cache'';
     storage \<leftarrow> field (spStorage zero_spec) (read_StorageSpec W) m ''storage'';
     resources \<leftarrow> field [] (rResources W) m ''resources'';
     env_v \<leftarrow> field [] (read_list (rEnvVar W)) m ''env'';
     envFrom \<leftarrow> field [] (read_list (rEnvFrom W)) m ''envFrom'';
     deletionPolicy \<leftarrow> field [] read_string m ''deletionPolicy'';
     Some \<lparr>spImage = image_v, spURL = url, spTimezone = timezone, spOCR = ocr,
           spAdmin = admin, spSecretKeySecretRef = secretKey_ref, spDatabase = database,
           spCache = cache, spStorage = storage, spResources = resources, spEnv = env_v,
           spEnvFrom = envFrom, spDeletionPolicy = deletionPolicy\<rparr> })"

lemma PaperlessInstanceSpec_codec:
  assumes W: "wire_laws W"
  shows "codec (write_PaperlessInstanceSpec W) (read_PaperlessInstanceSpec W)"
proof -
  note codecs = codec_scalars wire_codec [OF W] ImageSpec_codec [OF W] OCRSpec_codec AdminSpec_codec [OF W] DatabaseSpec_codec [OF W] CacheSpec_codec [OF W] StorageSpec_codec [OF W]
  show ?thesis
    unfolding write_PaperlessInstanceSpec_def [abs_def] read_PaperlessInstanceSpec_def
    by (rule codec_object) (simp add: field_scalars codecs [THEN field_ptr] codecs [THEN field_list]
      codecs [THEN field_struct])
qed

definition write_PaperlessInstanceStatus :: "wire \<Rightarrow> PaperlessInstanceStatus \<Rightarrow> json" where
  "write_PaperlessInstanceStatus W x = json_object [
     (''conditions'', omit_list (wCondition W) (psConditions x)),
     (''observedGeneration'', omit_int (psObservedGeneration x)),
     (''url'', omit_string (psURL x)),
     (''version'', omit_string (psVersion x))]"

definition read_PaperlessInstanceStatus :: "wire \<Rightarrow> json \<Rightarrow> PaperlessInstanceStatus option" where
  "read_PaperlessInstanceStatus W = read_obj (\<lambda>m. do {
     conditions \<leftarrow> field [] (read_list (rCondition W)) m ''conditions'';
     observedGeneration \<leftarrow> field 0 read_i64 m ''observedGeneration'';
     url \<leftarrow> field [] read_string m ''url'';
     version \<leftarrow> field [] read_string m ''version'';
     Some \<lparr>psConditions = conditions, psObservedGeneration = observedGeneration,
           psURL = url, psVersion = version\<rparr> })"

lemma PaperlessInstanceStatus_codec:
  assumes W: "wire_laws W"
  shows "codec (write_PaperlessInstanceStatus W) (read_PaperlessInstanceStatus W)"
proof -
  note codecs = codec_scalars wire_codec [OF W]
  show ?thesis
    unfolding write_PaperlessInstanceStatus_def [abs_def] read_PaperlessInstanceStatus_def
    by (rule codec_object) (simp add: field_scalars codecs [THEN field_ptr] codecs [THEN field_list]
      codecs [THEN field_struct])
qed

definition write_PaperlessInstance :: "wire \<Rightarrow> PaperlessInstance \<Rightarrow> json" where
  "write_PaperlessInstance W x = json_object [
     (''metadata'', Some (wMeta W (piMeta x))),
     (''spec'', Some (write_PaperlessInstanceSpec W (piSpec x))),
     (''status'', Some (write_PaperlessInstanceStatus W (piStatus x)))]"

definition read_PaperlessInstance :: "wire \<Rightarrow> json \<Rightarrow> PaperlessInstance option" where
  "read_PaperlessInstance W = read_obj (\<lambda>m. do {
     metadata \<leftarrow> field (new_meta [] [] Map.empty) (rMeta W) m ''metadata'';
     spec \<leftarrow> field zero_spec (read_PaperlessInstanceSpec W) m ''spec'';
     status \<leftarrow> field zero_status (read_PaperlessInstanceStatus W) m ''status'';
     Some \<lparr>piMeta = metadata, piSpec = spec, piStatus = status\<rparr> })"

lemma PaperlessInstance_codec:
  assumes W: "wire_laws W"
  shows "codec (write_PaperlessInstance W) (read_PaperlessInstance W)"
proof -
  note codecs = codec_scalars wire_codec [OF W] PaperlessInstanceSpec_codec [OF W] PaperlessInstanceStatus_codec [OF W]
  show ?thesis
    unfolding write_PaperlessInstance_def [abs_def] read_PaperlessInstance_def
    by (rule codec_object) (simp add: field_scalars codecs [THEN field_ptr] codecs [THEN field_list]
      codecs [THEN field_struct])
qed

section \<open>Round trip\<close>

text \<open>
  C29: An instance survives the API server: what a client writes for it, field by field under the
  names of the \<open>json\<close> tags and with the empty fields left out, reads back as the same instance.
\<close>

theorem instance_json_roundtrip:
  assumes "wire_laws W"
  shows "read_PaperlessInstance W (write_PaperlessInstance W inst) = Some inst"
  by (rule codecD(2) [OF PaperlessInstance_codec [OF assms]])

section \<open>Reference encodings\<close>

text \<open>Encodings of the other packages' types that satisfy the laws, so they can hold.\<close>

definition write_opt :: "('a \<Rightarrow> json) \<Rightarrow> 'a option \<Rightarrow> json" where
  "write_opt w p = JArr (case p of None \<Rightarrow> [] | Some x \<Rightarrow> [w x])"

definition read_opt :: "(json \<Rightarrow> 'a option) \<Rightarrow> json \<Rightarrow> 'a option option" where
  "read_opt r j = (case j of JArr [] \<Rightarrow> Some None | JArr (x # _) \<Rightarrow> map_option Some (r x) | _ \<Rightarrow> None)"

definition read_at :: "json \<Rightarrow> nat \<Rightarrow> (json \<Rightarrow> 'a option) \<Rightarrow> 'a option" where
  "read_at j i r = (case j of JArr js \<Rightarrow> if i < length js then r (js ! i) else None | _ \<Rightarrow> None)"

definition write_labels :: "(string \<rightharpoonup> string) \<Rightarrow> json" where
  "write_labels m = JObj (\<lambda>k. map_option JStr (m k))"

definition read_labels :: "json \<Rightarrow> (string \<rightharpoonup> string) option" where
  "read_labels j = (case j of JObj m \<Rightarrow> Some (\<lambda>k. Option.bind (m k) read_string) | _ \<Rightarrow> None)"

lemma opt_codec: "codec w r \<Longrightarrow> codec (write_opt w) (read_opt r)"
  by (simp add: codec_def write_opt_def read_opt_def split: option.split)

lemma list_codec: "codec w r \<Longrightarrow> codec (\<lambda>xs. JArr (map w xs)) (read_list r)"
  by (simp add: codec_def read_list_def read_all_map)

lemma labels_codec: "codec write_labels read_labels"
  by (auto simp: codec_def write_labels_def read_labels_def fun_eq_iff read_string_def
    map_option_case split: option.split)

definition ref_write_selector :: "SecretKeySelector \<Rightarrow> json" where
  "ref_write_selector x = JArr [JStr (skName x), JStr (skKey x), write_opt JBool (skOptional x)]"

definition ref_read_selector :: "json \<Rightarrow> SecretKeySelector option" where
  "ref_read_selector j = do {
     n \<leftarrow> read_at j 0 read_string; k \<leftarrow> read_at j 1 read_string;
     b \<leftarrow> read_at j 2 (read_opt read_bool);
     Some \<lparr>skName = n, skKey = k, skOptional = b\<rparr> }"

definition ref_write_source :: "EnvVarSource \<Rightarrow> json" where
  "ref_write_source x = JArr [write_opt ref_write_selector (evsSecretKeyRef x), JStr (evsOther x)]"

definition ref_read_source :: "json \<Rightarrow> EnvVarSource option" where
  "ref_read_source j = do {
     s \<leftarrow> read_at j 0 (read_opt ref_read_selector); x \<leftarrow> read_at j 1 read_string;
     Some \<lparr>evsSecretKeyRef = s, evsOther = x\<rparr> }"

definition ref_write_env :: "EnvVar \<Rightarrow> json" where
  "ref_write_env x = JArr [JStr (evName x), JStr (evValue x), write_opt ref_write_source (evValueFrom x)]"

definition ref_read_env :: "json \<Rightarrow> EnvVar option" where
  "ref_read_env j = do {
     n \<leftarrow> read_at j 0 read_string; v \<leftarrow> read_at j 1 read_string;
     s \<leftarrow> read_at j 2 (read_opt ref_read_source);
     Some \<lparr>evName = n, evValue = v, evValueFrom = s\<rparr> }"

definition ref_write_owner :: "OwnerReference \<Rightarrow> json" where
  "ref_write_owner x = JArr [JStr (orAPIVersion x), JStr (orKind x), JStr (orName x), JStr (orUID x),
     write_opt JBool (orController x), write_opt JBool (orBlockOwnerDeletion x)]"

definition ref_read_owner :: "json \<Rightarrow> OwnerReference option" where
  "ref_read_owner j = do {
     v \<leftarrow> read_at j 0 read_string; k \<leftarrow> read_at j 1 read_string; n \<leftarrow> read_at j 2 read_string;
     u \<leftarrow> read_at j 3 read_string; c \<leftarrow> read_at j 4 (read_opt read_bool);
     b \<leftarrow> read_at j 5 (read_opt read_bool);
     Some \<lparr>orAPIVersion = v, orKind = k, orName = n, orUID = u, orController = c,
           orBlockOwnerDeletion = b\<rparr> }"

definition ref_write_meta :: "ObjectMeta \<Rightarrow> json" where
  "ref_write_meta x = JArr [JStr (omName x), JStr (omNamespace x), JStr (omUID x),
     JInt (omGeneration x), write_labels (omLabels x), JArr (map ref_write_owner (omOwnerReferences x))]"

definition ref_read_meta :: "json \<Rightarrow> ObjectMeta option" where
  "ref_read_meta j = do {
     n \<leftarrow> read_at j 0 read_string; ns \<leftarrow> read_at j 1 read_string; u \<leftarrow> read_at j 2 read_string;
     g \<leftarrow> read_at j 3 read_i64; l \<leftarrow> read_at j 4 read_labels;
     ow \<leftarrow> read_at j 5 (read_list ref_read_owner);
     Some \<lparr>omName = n, omNamespace = ns, omUID = u, omGeneration = g, omLabels = l,
           omOwnerReferences = ow\<rparr> }"

text \<open>A time is written as that many array elements.\<close>

definition ref_write_condition :: "Condition \<Rightarrow> json" where
  "ref_write_condition x = JArr [JStr (cdType x), JStr (cdStatus x), JInt (cdObservedGeneration x),
     JArr (replicate (cdLastTransitionTime x) JNull), JStr (cdReason x), JStr (cdMessage x)]"

definition ref_read_condition :: "json \<Rightarrow> Condition option" where
  "ref_read_condition j = do {
     ty \<leftarrow> read_at j 0 read_string; st \<leftarrow> read_at j 1 read_string; g \<leftarrow> read_at j 2 read_i64;
     tm \<leftarrow> read_at j 3 (\<lambda>j. case j of JArr js \<Rightarrow> Some (length js) | _ \<Rightarrow> None);
     rs \<leftarrow> read_at j 4 read_string; ms \<leftarrow> read_at j 5 read_string;
     Some \<lparr>cdType = ty, cdStatus = st, cdObservedGeneration = g, cdLastTransitionTime = tm,
           cdReason = rs, cdMessage = ms\<rparr> }"

definition ref_wire :: wire where
  "ref_wire = \<lparr>
     wQuantity = JStr, rQuantity = read_string,
     wSelector = ref_write_selector, rSelector = ref_read_selector,
     wLocalRef = (\<lambda>x. JStr (lrName x)),
     rLocalRef = (\<lambda>j. map_option (\<lambda>s. \<lparr>lrName = s\<rparr>) (read_string j)),
     wResources = JStr, rResources = read_string, wEnvVar = ref_write_env, rEnvVar = ref_read_env,
     wEnvFrom = JStr, rEnvFrom = read_string, wMeta = ref_write_meta, rMeta = ref_read_meta,
     wCondition = ref_write_condition, rCondition = ref_read_condition\<rparr>"

lemma read_i64_JInt: "codec JInt read_i64"
  by (simp add: codec_def read_i64_def)

lemmas ref_scalars = codec_scalars [THEN codecD(2)] read_i64_JInt [THEN codecD(2)]
  codec_scalars(2) [THEN opt_codec, THEN codecD(2)] labels_codec [THEN codecD(2)]

lemma ref_selector_codec: "codec ref_write_selector ref_read_selector"
  by (simp add: codec_def ref_write_selector_def ref_read_selector_def read_at_def ref_scalars)

lemma ref_source_codec: "codec ref_write_source ref_read_source"
  by (simp add: codec_def ref_write_source_def ref_read_source_def read_at_def ref_scalars
    ref_selector_codec [THEN opt_codec, THEN codecD(2)])

lemma ref_env_codec: "codec ref_write_env ref_read_env"
  by (simp add: codec_def ref_write_env_def ref_read_env_def read_at_def ref_scalars
    ref_source_codec [THEN opt_codec, THEN codecD(2)])

lemma ref_owner_codec: "codec ref_write_owner ref_read_owner"
  by (simp add: codec_def ref_write_owner_def ref_read_owner_def read_at_def ref_scalars)

lemma ref_meta_codec: "codec ref_write_meta ref_read_meta"
  by (simp add: codec_def ref_write_meta_def ref_read_meta_def read_at_def ref_scalars
    ref_owner_codec [THEN list_codec, THEN codecD(2)])

lemma ref_condition_codec: "codec ref_write_condition ref_read_condition"
  by (simp add: codec_def ref_write_condition_def ref_read_condition_def read_at_def ref_scalars)

lemma ref_local_codec: "codec (\<lambda>x. JStr (lrName x)) (\<lambda>j. map_option (\<lambda>s. \<lparr>lrName = s\<rparr>) (read_string j))"
  by (simp add: codec_def ref_scalars)

lemma ref_wire_laws: "wire_laws ref_wire"
  by (simp add: wire_laws_def ref_wire_def codec_scalars ref_selector_codec ref_local_codec
    ref_env_codec ref_meta_codec ref_condition_codec)

text \<open>A bare instance is written without any of its empty fields, and reads back.\<close>

theorem instance_json_roundtrip_witness:
  "read_PaperlessInstance ref_wire
     (write_PaperlessInstance ref_wire (bare_instance ''docs'' ''ns'' ''u'')) =
   Some (bare_instance ''docs'' ''ns'' ''u'')"
  by (rule instance_json_roundtrip [OF ref_wire_laws])

end
