(* ===== verification/Api_Schema.thy ===== *)
theory Api_Schema
  imports Api_Json Workload Deletion_Policy Ref_Lib Step_Contract
begin

text \<open>
  The \<open>+kubebuilder\<close> markers of \<open>api/v1alpha1/paperlessinstance_types.go\<close>: the defaults the API
  server fills in and the rules it checks before the operator sees an instance. The markers are
  transcribed as data and as executable checks; how the server applies defaults is its documented
  behaviour (\<open>defaulting_laws\<close>). Sub-objects of other packages' types are leaves. Documents hold
  no null: the server drops them.
\<close>

section \<open>Defaulting\<close>

datatype schema = Leaf | Props "(string \<times> json option \<times> schema) list"

text \<open>
  Structural defaulting: a property that is absent gets the default of its marker, if it has one,
  and then every property that is present is defaulted in turn; nothing else changes.
\<close>

definition default_props ::
    "(schema \<Rightarrow> json \<Rightarrow> json) \<Rightarrow> (string \<times> json option \<times> schema) list \<Rightarrow> json_map \<Rightarrow> json_map" where
  "default_props dflt ps m =
     (\<lambda>k. case map_of ps k of
            None \<Rightarrow> m k
          | Some (d, sub) \<Rightarrow> map_option (dflt sub) (case m k of None \<Rightarrow> d | Some v \<Rightarrow> Some v))"

definition defaulting_laws :: "(schema \<Rightarrow> json \<Rightarrow> json) \<Rightarrow> bool" where
  "defaulting_laws dflt \<longleftrightarrow>
     (\<forall>j. dflt Leaf j = j) \<and>
     (\<forall>ps m. dflt (Props ps) (JObj m) = JObj (default_props dflt ps m)) \<and>
     (\<forall>ps j. (\<forall>m. j \<noteq> JObj m) \<longrightarrow> dflt (Props ps) j = j)"

lemma defaultingD:
  assumes "defaulting_laws dflt"
  shows "dflt Leaf j = j" "dflt (Props ps) (JObj m) = JObj (default_props dflt ps m)"
    "(\<And>m. j \<noteq> JObj m) \<Longrightarrow> dflt (Props ps) j = j"
  using assms by (simp_all add: defaulting_laws_def)

text \<open>The markers of each struct: \<open>+kubebuilder:default\<close>.\<close>

definition size_default :: "string \<Rightarrow> json option" where
  "size_default s = Some (JObj [''size'' \<mapsto> JStr s])"

definition ImageSpec_schema :: schema where
  "ImageSpec_schema = Props [
     (''repository'', Some (JStr ''ghcr.io/paperless-ngx/paperless-ngx''), Leaf),
     (''tag'', Some (JStr ''3.1.3''), Leaf), (''digest'', None, Leaf),
     (''pullPolicy'', Some (JStr ''IfNotPresent''), Leaf), (''pullSecrets'', None, Leaf)]"

definition VolumeSpec_schema :: schema where
  "VolumeSpec_schema = Props [
     (''size'', None, Leaf), (''storageClassName'', None, Leaf), (''accessModes'', None, Leaf)]"

definition StorageSpec_schema :: schema where
  "StorageSpec_schema = Props [
     (''data'', size_default ''5Gi'', VolumeSpec_schema),
     (''media'', size_default ''20Gi'', VolumeSpec_schema),
     (''consume'', size_default ''5Gi'', VolumeSpec_schema),
     (''export'', size_default ''10Gi'', VolumeSpec_schema)]"

definition ExternalDatabase_schema :: schema where
  "ExternalDatabase_schema = Props [
     (''host'', None, Leaf), (''port'', Some (JInt 5432), Leaf),
     (''name'', Some (JStr ''paperless''), Leaf), (''credentialsSecretRef'', None, Leaf)]"

definition ManagedDatabase_schema :: schema where
  "ManagedDatabase_schema = Props [
     (''instances'', Some (JInt 1), Leaf), (''storage'', size_default ''10Gi'', VolumeSpec_schema)]"

definition DatabaseSpec_schema :: schema where
  "DatabaseSpec_schema = Props [
     (''cnpg'', None, ManagedDatabase_schema), (''external'', None, ExternalDatabase_schema)]"

definition CacheSpec_schema :: schema where
  "CacheSpec_schema = Props [
     (''managed'', Some (JBool True), Leaf), (''url'', None, Leaf), (''urlSecretRef'', None, Leaf)]"

definition AdminSpec_schema :: schema where
  "AdminSpec_schema = Props [
     (''enabled'', Some (JBool True), Leaf), (''username'', Some (JStr ''admin''), Leaf),
     (''email'', None, Leaf), (''passwordSecretRef'', None, Leaf)]"

definition OCRSpec_schema :: schema where
  "OCRSpec_schema = Props [(''languages'', Some (JArr [JStr ''eng'']), Leaf)]"

definition PaperlessInstanceSpec_schema :: schema where
  "PaperlessInstanceSpec_schema = Props [
     (''image'', Some (JObj Map.empty), ImageSpec_schema), (''url'', None, Leaf),
     (''timezone'', Some (JStr ''UTC''), Leaf), (''ocr'', Some (JObj Map.empty), OCRSpec_schema),
     (''admin'', Some (JObj Map.empty), AdminSpec_schema), (''secretKeySecretRef'', None, Leaf),
     (''database'', None, DatabaseSpec_schema),
     (''cache'', Some (JObj Map.empty), CacheSpec_schema),
     (''storage'', Some (JObj Map.empty), StorageSpec_schema),
     (''resources'', None, Leaf), (''env'', None, Leaf), (''envFrom'', None, Leaf),
     (''deletionPolicy'', Some (JStr ''Retain''), Leaf)]"

lemmas schema_defs = ImageSpec_schema_def VolumeSpec_schema_def StorageSpec_schema_def
  ExternalDatabase_schema_def ManagedDatabase_schema_def DatabaseSpec_schema_def
  CacheSpec_schema_def AdminSpec_schema_def OCRSpec_schema_def PaperlessInstanceSpec_schema_def
  size_default_def

section \<open>Validation\<close>

text \<open>A property that is present satisfies a check; CEL's \<open>has\<close>; a property that must be there.\<close>

definition present :: "(json \<Rightarrow> bool) \<Rightarrow> json_map \<Rightarrow> string \<Rightarrow> bool" where
  "present p m k = (case m k of None \<Rightarrow> True | Some j \<Rightarrow> p j)"

definition has :: "json_map \<Rightarrow> string \<Rightarrow> bool" where
  "has m k = (case m k of None \<Rightarrow> False | Some j \<Rightarrow> j \<noteq> JNull)"

definition is_obj :: "(json_map \<Rightarrow> bool) \<Rightarrow> json \<Rightarrow> bool" where
  "is_obj p j = (case j of JObj m \<Rightarrow> p m | _ \<Rightarrow> False)"

definition is_str :: "(string \<Rightarrow> bool) \<Rightarrow> json \<Rightarrow> bool" where
  "is_str p j = (case j of JStr s \<Rightarrow> p s | _ \<Rightarrow> False)"

definition is_int :: "(int \<Rightarrow> bool) \<Rightarrow> json \<Rightarrow> bool" where
  "is_int p j = (case j of JInt n \<Rightarrow> p (sint n) | _ \<Rightarrow> False)"

text \<open>The patterns \<open>^sha256:[0-9a-f]{64}$\<close> and \<open>^https?://\<close>.\<close>

definition digest_pattern :: "string \<Rightarrow> bool" where
  "digest_pattern s \<longleftrightarrow> take 7 s = ''sha256:'' \<and> length s = 71 \<and>
     list_all (\<lambda>c. c \<in> set ''0123456789abcdef'') (drop 7 s)"

definition url_pattern :: "string \<Rightarrow> bool" where
  "url_pattern s \<longleftrightarrow> take 7 s = ''http://'' \<or> take 8 s = ''https://''"

definition ImageSpec_valid :: "json_map \<Rightarrow> bool" where
  "ImageSpec_valid m = present (is_str digest_pattern) m ''digest''"

definition ExternalDatabase_valid :: "json_map \<Rightarrow> bool" where
  "ExternalDatabase_valid m \<longleftrightarrow>
     has m ''host'' \<and> has m ''credentialsSecretRef'' \<and>
     present (is_int (\<lambda>n. 1 \<le> n \<and> n \<le> 65535)) m ''port''"

definition ManagedDatabase_valid :: "json_map \<Rightarrow> bool" where
  "ManagedDatabase_valid m = present (is_int (\<lambda>n. 1 \<le> n)) m ''instances''"

text \<open>\<open>!(has(self.cnpg) && has(self.external))\<close>.\<close>

definition DatabaseSpec_valid :: "json_map \<Rightarrow> bool" where
  "DatabaseSpec_valid m \<longleftrightarrow>
     \<not> (has m ''cnpg'' \<and> has m ''external'') \<and>
     present (is_obj ManagedDatabase_valid) m ''cnpg'' \<and>
     present (is_obj ExternalDatabase_valid) m ''external''"

text \<open>
  \<open>(!has(self.managed) || self.managed) ? (!has(self.url) && !has(self.urlSecretRef))
  : ((has(self.url) && self.url != "") || has(self.urlSecretRef))\<close>.
\<close>

definition CacheSpec_valid :: "json_map \<Rightarrow> bool" where
  "CacheSpec_valid m \<longleftrightarrow>
     (if \<not> has m ''managed'' \<or> m ''managed'' = Some (JBool True)
      then \<not> has m ''url'' \<and> \<not> has m ''urlSecretRef''
      else (has m ''url'' \<and> m ''url'' \<noteq> Some (JStr [])) \<or> has m ''urlSecretRef'')"

definition PaperlessInstanceSpec_valid :: "json_map \<Rightarrow> bool" where
  "PaperlessInstanceSpec_valid m \<longleftrightarrow>
     present (is_obj ImageSpec_valid) m ''image'' \<and>
     present (is_str url_pattern) m ''url'' \<and>
     present (is_obj DatabaseSpec_valid) m ''database'' \<and>
     present (is_obj CacheSpec_valid) m ''cache'' \<and>
     present (is_str (\<lambda>s. s = DeletionPolicyRetain \<or> s = DeletionPolicyDelete)) m ''deletionPolicy''"

lemmas valid_defs = ImageSpec_valid_def ExternalDatabase_valid_def ManagedDatabase_valid_def
  DatabaseSpec_valid_def CacheSpec_valid_def PaperlessInstanceSpec_valid_def

text \<open>
  What the operator reads for an instance whose spec was submitted as the document \<open>j\<close>: defaulted,
  checked, stored, and decoded.
\<close>

definition admitted ::
    "wire \<Rightarrow> (schema \<Rightarrow> json \<Rightarrow> json) \<Rightarrow> json \<Rightarrow> PaperlessInstanceSpec option" where
  "admitted W dflt j =
     (let d = dflt PaperlessInstanceSpec_schema j in
      if is_obj PaperlessInstanceSpec_valid d then read_PaperlessInstanceSpec W d else None)"

section \<open>What a reader gets from a checked document\<close>

lemma field_Some:
  "field zero r m k = Some x \<longleftrightarrow> (if has m k then Option.bind (m k) r = Some x else x = zero)"
  by (auto simp: field_def has_def split: option.splits)

lemma ptr_field_Some:
  "ptr_field r m k = Some p \<longleftrightarrow>
     (if has m k then (\<exists>x. Option.bind (m k) r = Some x \<and> p = Some x) else p = None)"
  by (auto simp: ptr_field_def field_Some bind_eq_Some_conv)

lemma has_Some: "has m k \<Longrightarrow> \<exists>j. m k = Some j \<and> j \<noteq> JNull"
  by (auto simp: has_def split: option.splits)

lemma read_obj_Some: "read_obj r j = Some x \<longleftrightarrow> (\<exists>m. j = JObj m \<and> r m = Some x)"
  by (auto simp: read_obj_def split: json.splits)

lemma default_obj:
  assumes "defaulting_laws dflt" and "dflt (Props ps) j = JObj m"
  shows "\<exists>m0. m = default_props dflt ps m0"
proof (cases "\<exists>m0. j = JObj m0")
  case True
  then show ?thesis using assms(2) defaultingD(2) [OF assms(1)] by auto
next
  case False
  then have "dflt (Props ps) j = j" by (intro defaultingD(3) [OF assms(1)]) blast
  then show ?thesis using False assms(2) by metis
qed

lemma read_string_Some: "read_string j = Some s \<longleftrightarrow> j = JStr s"
  by (cases j) (simp_all add: read_string_def)

lemma read_bool_Some: "read_bool j = Some b \<longleftrightarrow> j = JBool b"
  by (cases j) (simp_all add: read_bool_def)

text \<open>A number in range is read as that number.\<close>

lemma sint_scast_down:
  assumes "- (2 ^ 31) \<le> sint (n :: i64)" and "sint n < 2 ^ 31"
  shows "sint (scast n :: i32) = sint n"
proof -
  have "sint (scast n :: i32) = signed_take_bit 31 (sint n)"
    unfolding scast_eq sint_sbintrunc' by simp
  then show ?thesis using signed_take_bit_int_eq_self [OF assms] by simp
qed

lemma read_number:
  assumes "is_int P j" and "read_i32 j = Some p"
  shows "P (sint p)"
proof -
  obtain n where n: "j = JInt n" "P (sint n)"
    using assms(1) by (cases j) (simp_all add: is_int_def)
  then have "- (2 ^ 31) \<le> sint n" "sint n < 2 ^ 31" "p = scast n"
    using assms(2) by (simp_all add: read_i32_def split: if_splits)
  then show ?thesis using n(2) sint_scast_down by metis
qed

section \<open>The defaulted specs\<close>

lemma default_props_simps:
  "default_props dflt [] m k = m k"
  "default_props dflt ((k', d, sub) # ps) m k =
     (if k = k' then map_option (dflt sub) (case m k of None \<Rightarrow> d | Some v \<Rightarrow> Some v)
      else default_props dflt ps m k)"
  by (simp_all add: default_props_def)

text \<open>The read functions on a defaulted document, field by field.\<close>

lemma external_after_defaults:
  assumes D: "defaulting_laws dflt" and j: "dflt ExternalDatabase_schema j = d"
    and v: "is_obj ExternalDatabase_valid d" and r: "read_ExternalDatabase W d = Some e"
  shows "1 \<le> sint (edPort e) \<and> sint (edPort e) \<le> 65535"
proof -
  obtain m where m: "d = JObj m" using r by (auto simp: read_ExternalDatabase_def read_obj_Some)
  let ?ps = "[(''host'', None, Leaf), (''port'', Some (JInt 5432), Leaf),
       (''name'', Some (JStr ''paperless''), Leaf), (''credentialsSecretRef'', None, Leaf)]"
  obtain m0 where m0: "m = default_props dflt ?ps m0"
    using default_obj [OF D, of ?ps] j m unfolding ExternalDatabase_schema_def by blast
  have "\<exists>p. m ''port'' = Some p"
    by (simp add: m0 default_props_simps defaultingD [OF D] split: option.split)
  then obtain p where p: "m ''port'' = Some p" by blast
  have "is_int (\<lambda>n. 1 \<le> n \<and> n \<le> 65535) p"
    using v by (simp add: m is_obj_def ExternalDatabase_valid_def present_def p)
  moreover from this have "p \<noteq> JNull" by (auto simp: is_int_def)
  then have "read_i32 p = Some (edPort e)"
    using r by (auto simp: m read_ExternalDatabase_def read_obj_def bind_eq_Some_conv p)
  ultimately show ?thesis by (rule read_number)
qed

lemma managed_after_defaults:
  assumes D: "defaulting_laws dflt" and j: "dflt ManagedDatabase_schema j = d"
    and v: "is_obj ManagedDatabase_valid d" and r: "read_ManagedDatabase W d = Some c"
  shows "1 \<le> sint (mdInstances c)"
proof -
  obtain m where m: "d = JObj m" using r by (auto simp: read_ManagedDatabase_def read_obj_Some)
  let ?ps = "[(''instances'', Some (JInt 1), Leaf),
      (''storage'', size_default ''10Gi'', VolumeSpec_schema)]"
  obtain m0 where m0: "m = default_props dflt ?ps m0"
    using default_obj [OF D, of ?ps] j m unfolding ManagedDatabase_schema_def by blast
  have "\<exists>p. m ''instances'' = Some p"
    by (simp add: m0 default_props_simps defaultingD [OF D] split: option.split)
  then obtain p where p: "m ''instances'' = Some p" by blast
  have "is_int (\<lambda>n. 1 \<le> n) p"
    using v by (simp add: m is_obj_def ManagedDatabase_valid_def present_def p)
  moreover from this have "p \<noteq> JNull" by (auto simp: is_int_def)
  then have "read_i32 p = Some (mdInstances c)"
    using r by (auto simp: m read_ManagedDatabase_def read_obj_def bind_eq_Some_conv p)
  ultimately show ?thesis by (rule read_number)
qed

lemma cache_after_checks:
  assumes v: "is_obj CacheSpec_valid d" and r: "read_CacheSpec W d = Some c"
  shows "if IsManaged c then caURL c = [] \<and> caURLSecretRef c = None
         else caURL c \<noteq> [] \<or> caURLSecretRef c \<noteq> None"
proof -
  obtain m where m: "d = JObj m" using r by (auto simp: read_CacheSpec_def read_obj_Some)
  have f: "ptr_field read_bool m ''managed'' = Some (caManaged c)"
      "field [] read_string m ''url'' = Some (caURL c)"
      "ptr_field (rSelector W) m ''urlSecretRef'' = Some (caURLSecretRef c)"
    using r by (auto simp: m read_CacheSpec_def read_obj_def bind_eq_Some_conv)
  have v: "CacheSpec_valid m" using v by (simp add: m is_obj_def)
  have url: "has m ''url'' \<Longrightarrow> m ''url'' = Some (JStr (caURL c))"
    using f(2) read_string_Some by (auto simp: field_Some bind_eq_Some_conv)
  have man: "IsManaged c \<longleftrightarrow> \<not> has m ''managed'' \<or> m ''managed'' = Some (JBool True)"
    using f(1) by (auto simp: ptr_field_Some IsManaged_def read_bool_Some bind_eq_Some_conv
      split: if_splits)
  show ?thesis
  proof (cases "IsManaged c")
    case True
    then show ?thesis
      using v f(2,3) man by (simp add: CacheSpec_valid_def field_Some ptr_field_Some)
  next
    case False
    then show ?thesis
      using v f(3) man url by (auto simp: CacheSpec_valid_def ptr_field_Some)
  qed
qed

text \<open>The sub-documents of a spec that was admitted.\<close>

lemma read_database_parts:
  assumes "read_DatabaseSpec W d = Some c"
  obtains m where "d = JObj m"
    "ptr_field (read_ManagedDatabase W) m ''cnpg'' = Some (dbCNPG c)"
    "ptr_field (read_ExternalDatabase W) m ''external'' = Some (dbExternal c)"
  using assms by (auto simp: read_DatabaseSpec_def read_obj_Some bind_eq_Some_conv)

lemma default_leaf:
  assumes "defaulting_laws dflt" and "map_of ps k = Some (d, sub)"
  shows "default_props dflt ps m k = map_option (dflt sub) (case m k of None \<Rightarrow> d | Some v \<Rightarrow> Some v)"
  using assms by (simp add: default_props_def)

lemma database_after_defaults:
  assumes D: "defaulting_laws dflt" and j: "dflt DatabaseSpec_schema j = d"
    and v: "is_obj DatabaseSpec_valid d" and r: "read_DatabaseSpec W d = Some c"
  shows "(dbCNPG c = None \<or> dbExternal c = None) \<and>
    (case dbCNPG c of None \<Rightarrow> True | Some m \<Rightarrow> 1 \<le> sint (mdInstances m)) \<and>
    (case dbExternal c of None \<Rightarrow> True | Some e \<Rightarrow> 1 \<le> sint (edPort e) \<and> sint (edPort e) \<le> 65535)"
proof -
  obtain m where m: "d = JObj m"
      "ptr_field (read_ManagedDatabase W) m ''cnpg'' = Some (dbCNPG c)"
      "ptr_field (read_ExternalDatabase W) m ''external'' = Some (dbExternal c)"
    by (rule read_database_parts [OF r])
  let ?ps = "[(''cnpg'', None :: json option, ManagedDatabase_schema),
    (''external'', None, ExternalDatabase_schema)]"
  obtain m0 where m0: "m = default_props dflt ?ps m0"
    using default_obj [OF D, of ?ps] j m(1) unfolding DatabaseSpec_schema_def by blast
  have valid: "DatabaseSpec_valid m" using v by (simp add: m(1) is_obj_def)
  have cnpg: "1 \<le> sint (mdInstances x)" if x: "dbCNPG c = Some x" for x
  proof -
    obtain y where y: "m ''cnpg'' = Some y" "read_ManagedDatabase W y = Some x"
      using m(2) x by (auto simp: ptr_field_Some bind_eq_Some_conv split: if_splits)
    obtain y0 where "dflt ManagedDatabase_schema y0 = y"
      using y(1) by (auto simp: m0 default_props_simps split: option.splits)
    then show ?thesis
      using managed_after_defaults [OF D _ _ y(2)] valid y(1)
      by (simp add: DatabaseSpec_valid_def present_def)
  qed
  have ext: "1 \<le> sint (edPort x) \<and> sint (edPort x) \<le> 65535" if x: "dbExternal c = Some x" for x
  proof -
    obtain y where y: "m ''external'' = Some y" "read_ExternalDatabase W y = Some x"
      using m(3) x by (auto simp: ptr_field_Some bind_eq_Some_conv split: if_splits)
    obtain y0 where "dflt ExternalDatabase_schema y0 = y"
      using y(1) by (auto simp: m0 default_props_simps split: option.splits)
    then show ?thesis
      using external_after_defaults [OF D _ _ y(2)] valid y(1)
      by (simp add: DatabaseSpec_valid_def present_def)
  qed
  have "dbCNPG c = None \<or> dbExternal c = None"
    using valid m(2,3) by (auto simp: DatabaseSpec_valid_def ptr_field_Some split: if_splits)
  then show ?thesis using cnpg ext by (auto split: option.split)
qed

text \<open>What reading an instance's spec reads of its database, cache, image and policy.\<close>

lemma read_spec_parts:
  assumes "read_PaperlessInstanceSpec W d = Some sp"
  obtains m where "d = JObj m"
    "field (spDatabase zero_spec) (read_DatabaseSpec W) m ''database'' = Some (spDatabase sp)"
    "field (spCache zero_spec) (read_CacheSpec W) m ''cache'' = Some (spCache sp)"
    "field [] read_string m ''url'' = Some (spURL sp)"
    "field [] read_string m ''deletionPolicy'' = Some (spDeletionPolicy sp)"
  using assms by (auto simp: read_PaperlessInstanceSpec_def read_obj_Some bind_eq_Some_conv)

lemma spec_default:
  assumes D: "defaulting_laws dflt" and j: "dflt PaperlessInstanceSpec_schema j = JObj m"
  shows "\<exists>v. m ''deletionPolicy'' = Some v" "\<exists>v. m ''cache'' = Some v"
    "m ''database'' = Some y \<Longrightarrow> \<exists>y0. dflt DatabaseSpec_schema y0 = y"
proof -
  obtain m0 where "m = default_props dflt (case PaperlessInstanceSpec_schema of Props ps \<Rightarrow> ps) m0"
    using default_obj [OF D] j unfolding PaperlessInstanceSpec_schema_def schema.case by blast
  then show "\<exists>v. m ''deletionPolicy'' = Some v" "\<exists>v. m ''cache'' = Some v"
    "m ''database'' = Some y \<Longrightarrow> \<exists>y0. dflt DatabaseSpec_schema y0 = y"
    by (auto simp: PaperlessInstanceSpec_schema_def default_props_simps split: option.splits)
qed

section \<open>Properties\<close>

text \<open>
  C28: What the schema guarantees the operator. Of every spec the API server admits, the deletion
  policy is one of the two the code knows; at most one database is selected, a managed one has
  at least one instance and an external one a TCP port; a cache the operator manages has no
  address of the user's that it would ignore, and one it does not manage has an address, so
  Paperless gets a variable for it that is not empty; and a URL has an HTTP scheme.
\<close>

theorem admitted_specs_are_usable:
  assumes D: "defaulting_laws dflt" and a: "admitted W dflt j = Some sp"
  shows "(spDeletionPolicy sp = DeletionPolicyRetain \<or> spDeletionPolicy sp = DeletionPolicyDelete) \<and>
    (dbCNPG (spDatabase sp) = None \<or> dbExternal (spDatabase sp) = None) \<and>
    (case dbCNPG (spDatabase sp) of None \<Rightarrow> True | Some m \<Rightarrow> 1 \<le> sint (mdInstances m)) \<and>
    (case dbExternal (spDatabase sp) of None \<Rightarrow> True
      | Some e \<Rightarrow> 1 \<le> sint (edPort e) \<and> sint (edPort e) \<le> 65535) \<and>
    (if IsManaged (spCache sp) then caURL (spCache sp) = [] \<and> caURLSecretRef (spCache sp) = None
     else (let e = cacheEnv (inst\<lparr>piSpec := sp\<rparr>) in evValue e \<noteq> [] \<or> evValueFrom e \<noteq> None)) \<and>
    (spURL sp = [] \<or> url_pattern (spURL sp))"
proof -
  define d where "d = dflt PaperlessInstanceSpec_schema j"
  have r: "read_PaperlessInstanceSpec W d = Some sp" and v: "is_obj PaperlessInstanceSpec_valid d"
    using a by (auto simp: admitted_def d_def Let_def split: if_splits)
  obtain m where m: "d = JObj m"
      "field (spDatabase zero_spec) (read_DatabaseSpec W) m ''database'' = Some (spDatabase sp)"
      "field (spCache zero_spec) (read_CacheSpec W) m ''cache'' = Some (spCache sp)"
      "field [] read_string m ''url'' = Some (spURL sp)"
      "field [] read_string m ''deletionPolicy'' = Some (spDeletionPolicy sp)"
    by (rule read_spec_parts [OF r])
  have valid: "PaperlessInstanceSpec_valid m" using v by (simp add: m(1) is_obj_def)
  note dm = d_def [symmetric, unfolded m(1)]
  note default = spec_default [OF D dm]
  have policy: "spDeletionPolicy sp = DeletionPolicyRetain \<or> spDeletionPolicy sp = DeletionPolicyDelete"
    using default(1) valid m(5)
    by (auto simp: PaperlessInstanceSpec_valid_def present_def is_str_def field_def read_string_Some
      split: json.splits if_splits)
  have url: "spURL sp = [] \<or> url_pattern (spURL sp)"
    using valid m(4)
    by (auto simp: PaperlessInstanceSpec_valid_def present_def is_str_def field_def read_string_Some
      split: option.splits json.splits if_splits)
  have db: "(dbCNPG (spDatabase sp) = None \<or> dbExternal (spDatabase sp) = None) \<and>
    (case dbCNPG (spDatabase sp) of None \<Rightarrow> True | Some m \<Rightarrow> 1 \<le> sint (mdInstances m)) \<and>
    (case dbExternal (spDatabase sp) of None \<Rightarrow> True
      | Some e \<Rightarrow> 1 \<le> sint (edPort e) \<and> sint (edPort e) \<le> 65535)"
  proof (cases "has m ''database''")
    case False
    then show ?thesis using m(2) by (simp add: field_Some zero_spec_def)
  next
    case True
    then obtain y where y: "m ''database'' = Some y" "read_DatabaseSpec W y = Some (spDatabase sp)"
      using m(2) by (auto simp: field_Some bind_eq_Some_conv)
    obtain y0 where y0: "dflt DatabaseSpec_schema y0 = y" using default(3) [OF y(1)] by blast
    have "is_obj DatabaseSpec_valid y"
      using valid by (simp add: PaperlessInstanceSpec_valid_def present_def y(1))
    then show ?thesis by (rule database_after_defaults [OF D y0 _ y(2)])
  qed
  obtain y where y: "m ''cache'' = Some y" using default(2) by blast
  then have c: "is_obj CacheSpec_valid y"
    using valid by (simp add: PaperlessInstanceSpec_valid_def present_def)
  then have "y \<noteq> JNull" by (auto simp: is_obj_def)
  then have "read_CacheSpec W y = Some (spCache sp)" using m(3) y by simp
  from cache_after_checks [OF c this] have cache:
    "if IsManaged (spCache sp) then caURL (spCache sp) = [] \<and> caURLSecretRef (spCache sp) = None
     else (let e = cacheEnv (inst\<lparr>piSpec := sp\<rparr>) in evValue e \<noteq> [] \<or> evValueFrom e \<noteq> None)"
    by (auto simp: cacheEnv_def Let_def secretEnvVar_def env_value_def split: option.split if_splits)
  show ?thesis
    using db by (intro conjI policy url cache) simp_all
qed

text \<open>
  A reference server and reference encodings: they satisfy the laws, so they can hold.
\<close>

primrec ref_default :: "schema \<Rightarrow> json \<Rightarrow> json" where
  "ref_default Leaf = (\<lambda>j. j)"
| "ref_default (Props ps) =
     (\<lambda>j. case j of
        JObj m \<Rightarrow> JObj (\<lambda>k.
          case map_of (map (map_prod (\<lambda>x. x) (map_prod (\<lambda>x. x) ref_default)) ps) k of
            None \<Rightarrow> m k
          | Some (d, sub) \<Rightarrow> map_option sub (case m k of None \<Rightarrow> d | Some v \<Rightarrow> Some v))
      | _ \<Rightarrow> j)"

lemma map_of_map_prod:
  "map_of (map (map_prod (\<lambda>x. x) f) ps) k = map_option f (map_of ps k)"
  by (induction ps) auto

lemma ref_default_laws: "defaulting_laws ref_default"
  by (auto simp: defaulting_laws_def default_props_def fun_eq_iff map_of_map_prod
    split: json.split option.split)

text \<open>
  A spec that points to an external database and an external cache, without a port, a database
  name or a deletion policy, is admitted.
\<close>

definition external_document :: json where
  "external_document = JObj [
     ''database'' \<mapsto> JObj [''external'' \<mapsto> JObj [''host'' \<mapsto> JStr ''pg'',
        ''credentialsSecretRef'' \<mapsto> JStr ''pg-credentials'']],
     ''cache'' \<mapsto> JObj [''managed'' \<mapsto> JBool False, ''url'' \<mapsto> JStr ''redis://cache:6379'']]"

lemmas read_defs = read_PaperlessInstanceSpec_def read_ImageSpec_def read_OCRSpec_def
  read_AdminSpec_def read_CacheSpec_def read_StorageSpec_def read_VolumeSpec_def
  read_DatabaseSpec_def read_ManagedDatabase_def read_ExternalDatabase_def

lemmas check_defs = valid_defs present_def has_def is_obj_def is_str_def is_int_def
  digest_pattern_def url_pattern_def

lemma read_obj_JObj [simp]: "read_obj r (JObj m) = r m"
  by (simp add: read_obj_def)

lemma field_present: "m k = Some j \<Longrightarrow> j \<noteq> JNull \<Longrightarrow> field zero r m k = r j"
  by (simp add: field_def)

lemma external_document_admitted:
  "\<exists>sp. admitted ref_wire ref_default external_document = Some sp \<and>
     map_option edPort (dbExternal (spDatabase sp)) = Some 5432 \<and>
     \<not> IsManaged (spCache sp)"
  by (simp add: admitted_def external_document_def Let_def schema_defs
    defaultingD [OF ref_default_laws] check_defs default_props_simps read_defs field_def ptr_field_def
    read_string_def read_bool_def read_i32_def read_list_def ref_wire_def IsManaged_def
    DeletionPolicyRetain_def DeletionPolicyDelete_def del: ref_default.simps)

theorem admitted_specs_are_usable_witness:
  "\<exists>sp. admitted ref_wire ref_default external_document = Some sp \<and>
     (let e = cacheEnv (bare_instance ''docs'' ''ns'' ''u''\<lparr>piSpec := sp\<rparr>)
      in evValue e \<noteq> [] \<or> evValueFrom e \<noteq> None)"
proof -
  obtain sp where sp: "admitted ref_wire ref_default external_document = Some sp"
      "\<not> IsManaged (spCache sp)"
    using external_document_admitted by blast
  then show ?thesis
    using admitted_specs_are_usable [OF ref_default_laws sp(1), of "bare_instance ''docs'' ''ns'' ''u''"]
    by (simp only: if_False simp_thms) blast
qed

text \<open>The quantity encoding reads the literals of the markers.\<close>

definition size_wire_laws :: "wire \<Rightarrow> bool" where
  "size_wire_laws W \<longleftrightarrow> list_all (\<lambda>s. rQuantity W (JStr s) = Some s) size_literals"

end
