(* ===== verification/Api_Defaults.thy ===== *)
theory Api_Defaults
  imports Api_Schema
begin

text \<open>
  The defaults of the schema and the constants the builders fall back to are two sources of the
  same truth. For every document the server admits, this theory compares the specification the
  operator reads after defaulting with the one it would read from the document as it was
  written: field by field (\<open>fills_X\<close>), and then in everything that is built from it.
\<close>

section \<open>One field\<close>

text \<open>A field was left as it is, or was empty and got its default.\<close>

definition filled :: "'a \<Rightarrow> 'a \<Rightarrow> 'a \<Rightarrow> 'a \<Rightarrow> bool" where
  "filled zero d x0 x \<longleftrightarrow> x = x0 \<or> x0 = zero \<and> x = d"

primrec props :: "schema \<Rightarrow> (string \<times> json option \<times> schema) list" where
  "props Leaf = []"
| "props (Props ps) = ps"

lemma default_null: "defaulting_laws dflt \<Longrightarrow> dflt s j = JNull \<longleftrightarrow> j = JNull"
  by (cases s; cases j) (simp_all add: defaultingD)

lemma read_defaulted:
  assumes D: "defaulting_laws dflt" and s: "s = Props ps" and r: "read_obj r (dflt s j) = Some x"
  obtains m where "j = JObj m" "r (default_props dflt (props s) m) = Some x"
proof (cases j)
  case (JObj m)
  then show ?thesis using that [OF JObj] r by (simp add: s defaultingD [OF D] read_obj_def)
qed (use r in \<open>simp_all add: s defaultingD [OF D] read_obj_def\<close>)

lemma field_plain:
  assumes "defaulting_laws dflt" and "map_of ps k = Some (None, Leaf)"
  shows "field zero r (default_props dflt ps m) k = field zero r m k"
  using assms by (simp add: default_props_def defaultingD field_def split: option.split)

lemma field_defaulted:
  assumes D: "defaulting_laws dflt" and k: "map_of ps k = Some (d, s)"
    and f: "field zero r (default_props dflt ps m) k = Some x"
    and sub: "\<And>v x. r (dflt s v) = Some x \<Longrightarrow> \<exists>x0. r v = Some x0 \<and> fills x0 x"
    and zero: "fills zero zero"
    and default: "\<And>v. d = Some v \<Longrightarrow> v \<noteq> JNull \<Longrightarrow> r (dflt s v) = Some x \<Longrightarrow> fills zero x"
  shows "\<exists>x0. field zero r m k = Some x0 \<and> fills x0 x"
  using f zero sub default
  by (auto simp: default_props_def k field_def default_null [OF D] split: option.splits if_splits)

lemma field_leaf:
  assumes D: "defaulting_laws dflt" and k: "map_of ps k = Some (Some v, Leaf)"
    and v: "r v = Some y" and f: "field zero r (default_props dflt ps m) k = Some x"
  shows "\<exists>x0. field zero r m k = Some x0 \<and> filled zero y x0 x"
  by (rule field_defaulted [OF D k f]) (use v in \<open>auto simp: filled_def defaultingD [OF D]\<close>)

lemma ptr_field_plain:
  assumes "defaulting_laws dflt" and "map_of ps k = Some (None, Leaf)"
  shows "ptr_field r (default_props dflt ps m) k = ptr_field r m k"
  unfolding ptr_field_def by (rule field_plain [OF assms])

lemma ptr_field_defaulted:
  assumes D: "defaulting_laws dflt" and k: "map_of ps k = Some (None, s)"
    and f: "ptr_field r (default_props dflt ps m) k = Some x"
    and sub: "\<And>v x. r (dflt s v) = Some x \<Longrightarrow> \<exists>x0. r v = Some x0 \<and> fills x0 x"
  shows "\<exists>x0. ptr_field r m k = Some x0 \<and> rel_option fills x0 x"
  using f [unfolded ptr_field_def] unfolding ptr_field_def
  by (rule field_defaulted [OF D k]) (use sub in fastforce)+

section \<open>The structs\<close>

definition fills_image :: "ImageSpec \<Rightarrow> ImageSpec \<Rightarrow> bool" where
  "fills_image x0 x \<longleftrightarrow>
     filled [] defaultRepository (imRepository x0) (imRepository x) \<and>
     filled [] ''3.1.3'' (imTag x0) (imTag x) \<and> imDigest x = imDigest x0 \<and>
     filled [] ''IfNotPresent'' (imPullPolicy x0) (imPullPolicy x) \<and> imPullSecrets x = imPullSecrets x0"

definition fills_volume :: "string \<Rightarrow> VolumeSpec \<Rightarrow> VolumeSpec \<Rightarrow> bool" where
  "fills_volume q = filled zero_volume (zero_volume\<lparr>vsSize := q\<rparr>)"

definition fills_storage :: "StorageSpec \<Rightarrow> StorageSpec \<Rightarrow> bool" where
  "fills_storage x0 x \<longleftrightarrow>
     fills_volume DefaultDataSize (stData x0) (stData x) \<and>
     fills_volume DefaultMediaSize (stMedia x0) (stMedia x) \<and>
     fills_volume DefaultConsumeSize (stConsume x0) (stConsume x) \<and>
     fills_volume DefaultExportSize (stExport x0) (stExport x)"

definition fills_external :: "ExternalDatabase \<Rightarrow> ExternalDatabase \<Rightarrow> bool" where
  "fills_external x0 x \<longleftrightarrow> edHost x = edHost x0 \<and> filled 0 5432 (edPort x0) (edPort x) \<and>
     filled [] ''paperless'' (edName x0) (edName x) \<and>
     edCredentialsSecretRef x = edCredentialsSecretRef x0"

definition fills_managed :: "ManagedDatabase \<Rightarrow> ManagedDatabase \<Rightarrow> bool" where
  "fills_managed x0 x \<longleftrightarrow> filled 0 1 (mdInstances x0) (mdInstances x) \<and>
     fills_volume DefaultDatabaseSize (mdStorage x0) (mdStorage x)"

definition fills_database :: "DatabaseSpec \<Rightarrow> DatabaseSpec \<Rightarrow> bool" where
  "fills_database x0 x \<longleftrightarrow> rel_option fills_managed (dbCNPG x0) (dbCNPG x) \<and>
     rel_option fills_external (dbExternal x0) (dbExternal x)"

definition fills_cache :: "CacheSpec \<Rightarrow> CacheSpec \<Rightarrow> bool" where
  "fills_cache x0 x \<longleftrightarrow> filled None (Some True) (caManaged x0) (caManaged x) \<and>
     caURL x = caURL x0 \<and> caURLSecretRef x = caURLSecretRef x0"

definition fills_admin :: "AdminSpec \<Rightarrow> AdminSpec \<Rightarrow> bool" where
  "fills_admin x0 x \<longleftrightarrow> filled None (Some True) (adEnabled x0) (adEnabled x) \<and>
     filled [] defaultAdminUsername (adUsername x0) (adUsername x) \<and> adEmail x = adEmail x0 \<and>
     adPasswordSecretRef x = adPasswordSecretRef x0"

definition fills_ocr :: "OCRSpec \<Rightarrow> OCRSpec \<Rightarrow> bool" where
  "fills_ocr x0 x \<longleftrightarrow> filled [] [defaultOCRLanguage] (ocLanguages x0) (ocLanguages x)"

definition fills_spec :: "PaperlessInstanceSpec \<Rightarrow> PaperlessInstanceSpec \<Rightarrow> bool" where
  "fills_spec x0 x \<longleftrightarrow>
     fills_image (spImage x0) (spImage x) \<and> spURL x = spURL x0 \<and>
     filled [] defaultTimezone (spTimezone x0) (spTimezone x) \<and> fills_ocr (spOCR x0) (spOCR x) \<and>
     fills_admin (spAdmin x0) (spAdmin x) \<and> spSecretKeySecretRef x = spSecretKeySecretRef x0 \<and>
     fills_database (spDatabase x0) (spDatabase x) \<and> fills_cache (spCache x0) (spCache x) \<and>
     fills_storage (spStorage x0) (spStorage x) \<and> spResources x = spResources x0 \<and>
     spEnv x = spEnv x0 \<and> spEnvFrom x = spEnvFrom x0 \<and>
     filled [] DeletionPolicyRetain (spDeletionPolicy x0) (spDeletionPolicy x)"

lemmas fills_defs = fills_image_def fills_volume_def fills_storage_def fills_external_def
  fills_managed_def fills_database_def fills_cache_def fills_admin_def fills_ocr_def

lemma read_image_defaulted:
  assumes D: "defaulting_laws dflt" and r: "read_ImageSpec W (dflt ImageSpec_schema j) = Some x"
  shows "\<exists>x0. read_ImageSpec W j = Some x0 \<and> fills_image x0 x"
proof -
  let ?d = "default_props dflt (props ImageSpec_schema)"
  obtain m where j: "j = JObj m"
    and f: "field [] read_string (?d m) ''repository'' = Some (imRepository x)"
      "field [] read_string (?d m) ''tag'' = Some (imTag x)"
      "field [] read_string (?d m) ''digest'' = Some (imDigest x)"
      "field [] read_string (?d m) ''pullPolicy'' = Some (imPullPolicy x)"
      "field [] (read_list (rLocalRef W)) (?d m) ''pullSecrets'' = Some (imPullSecrets x)"
    using r unfolding read_ImageSpec_def
    by (elim read_defaulted [OF D ImageSpec_schema_def]) (auto simp: bind_eq_Some_conv)
  have "field [] read_string m ''digest'' = Some (imDigest x)"
      "field [] (read_list (rLocalRef W)) m ''pullSecrets'' = Some (imPullSecrets x)"
    using f(3,5) by (simp_all add: field_plain [OF D] ptr_field_plain [OF D] ImageSpec_schema_def)
  moreover have "\<exists>x0. field [] read_string m ''repository'' = Some x0 \<and> filled [] defaultRepository x0 (imRepository x)"
    by (rule field_leaf [OF D _ _ f(1)]) (simp add: ImageSpec_schema_def, simp add: read_string_def defaultRepository_def)
  moreover have "\<exists>x0. field [] read_string m ''tag'' = Some x0 \<and> filled [] ''3.1.3'' x0 (imTag x)"
    by (rule field_leaf [OF D _ _ f(2)]) (simp add: ImageSpec_schema_def, simp add: read_string_def defaultRepository_def)
  moreover have "\<exists>x0. field [] read_string m ''pullPolicy'' = Some x0 \<and> filled [] ''IfNotPresent'' x0 (imPullPolicy x)"
    by (rule field_leaf [OF D _ _ f(4)]) (simp add: ImageSpec_schema_def, simp add: read_string_def defaultRepository_def)
  ultimately show ?thesis
    by (auto simp: j read_ImageSpec_def fills_image_def)
qed

lemma read_ocr_defaulted:
  assumes D: "defaulting_laws dflt" and r: "read_OCRSpec (dflt OCRSpec_schema j) = Some x"
  shows "\<exists>x0. read_OCRSpec j = Some x0 \<and> fills_ocr x0 x"
proof -
  let ?d = "default_props dflt (props OCRSpec_schema)"
  obtain m where j: "j = JObj m"
    and f: "field [] (read_list read_string) (?d m) ''languages'' = Some (ocLanguages x)"
    using r unfolding read_OCRSpec_def
    by (elim read_defaulted [OF D OCRSpec_schema_def]) (auto simp: bind_eq_Some_conv)
  have "\<exists>x0. field [] (read_list read_string) m ''languages'' = Some x0 \<and> filled [] [defaultOCRLanguage] x0 (ocLanguages x)"
    by (rule field_leaf [OF D _ _ f(1)]) (simp add: OCRSpec_schema_def, simp add: read_list_def read_string_def defaultOCRLanguage_def)
  then show ?thesis
    by (auto simp: j read_OCRSpec_def fills_ocr_def)
qed

lemma read_admin_defaulted:
  assumes D: "defaulting_laws dflt" and r: "read_AdminSpec W (dflt AdminSpec_schema j) = Some x"
  shows "\<exists>x0. read_AdminSpec W j = Some x0 \<and> fills_admin x0 x"
proof -
  let ?d = "default_props dflt (props AdminSpec_schema)"
  obtain m where j: "j = JObj m"
    and f: "ptr_field read_bool (?d m) ''enabled'' = Some (adEnabled x)"
      "field [] read_string (?d m) ''username'' = Some (adUsername x)"
      "field [] read_string (?d m) ''email'' = Some (adEmail x)"
      "ptr_field (rSelector W) (?d m) ''passwordSecretRef'' = Some (adPasswordSecretRef x)"
    using r unfolding read_AdminSpec_def
    by (elim read_defaulted [OF D AdminSpec_schema_def]) (auto simp: bind_eq_Some_conv)
  have "field [] read_string m ''email'' = Some (adEmail x)"
      "ptr_field (rSelector W) m ''passwordSecretRef'' = Some (adPasswordSecretRef x)"
    using f(3,4) by (simp_all add: field_plain [OF D] ptr_field_plain [OF D] AdminSpec_schema_def)
  moreover have "\<exists>x0. ptr_field read_bool m ''enabled'' = Some x0 \<and> filled None (Some True) x0 (adEnabled x)"
    unfolding ptr_field_def by (rule field_leaf [OF D _ _ f(1) [unfolded ptr_field_def]])
      (simp add: AdminSpec_schema_def, simp add: read_bool_def read_string_def defaultAdminUsername_def)
  moreover have "\<exists>x0. field [] read_string m ''username'' = Some x0 \<and> filled [] defaultAdminUsername x0 (adUsername x)"
    by (rule field_leaf [OF D _ _ f(2)]) (simp add: AdminSpec_schema_def, simp add: read_bool_def read_string_def defaultAdminUsername_def)
  ultimately show ?thesis
    by (auto simp: j read_AdminSpec_def fills_admin_def)
qed

lemma read_cache_defaulted:
  assumes D: "defaulting_laws dflt" and r: "read_CacheSpec W (dflt CacheSpec_schema j) = Some x"
  shows "\<exists>x0. read_CacheSpec W j = Some x0 \<and> fills_cache x0 x"
proof -
  let ?d = "default_props dflt (props CacheSpec_schema)"
  obtain m where j: "j = JObj m"
    and f: "ptr_field read_bool (?d m) ''managed'' = Some (caManaged x)"
      "field [] read_string (?d m) ''url'' = Some (caURL x)"
      "ptr_field (rSelector W) (?d m) ''urlSecretRef'' = Some (caURLSecretRef x)"
    using r unfolding read_CacheSpec_def
    by (elim read_defaulted [OF D CacheSpec_schema_def]) (auto simp: bind_eq_Some_conv)
  have "field [] read_string m ''url'' = Some (caURL x)"
      "ptr_field (rSelector W) m ''urlSecretRef'' = Some (caURLSecretRef x)"
    using f(2,3) by (simp_all add: field_plain [OF D] ptr_field_plain [OF D] CacheSpec_schema_def)
  moreover have "\<exists>x0. ptr_field read_bool m ''managed'' = Some x0 \<and> filled None (Some True) x0 (caManaged x)"
    unfolding ptr_field_def by (rule field_leaf [OF D _ _ f(1) [unfolded ptr_field_def]])
      (simp add: CacheSpec_schema_def, simp add: read_bool_def)
  ultimately show ?thesis
    by (auto simp: j read_CacheSpec_def fills_cache_def)
qed

lemma read_external_defaulted:
  assumes D: "defaulting_laws dflt" and r: "read_ExternalDatabase W (dflt ExternalDatabase_schema j) = Some x"
  shows "\<exists>x0. read_ExternalDatabase W j = Some x0 \<and> fills_external x0 x"
proof -
  let ?d = "default_props dflt (props ExternalDatabase_schema)"
  obtain m where j: "j = JObj m"
    and f: "field [] read_string (?d m) ''host'' = Some (edHost x)"
      "field 0 read_i32 (?d m) ''port'' = Some (edPort x)"
      "field [] read_string (?d m) ''name'' = Some (edName x)"
      "field \<lparr>lrName = []\<rparr> (rLocalRef W) (?d m) ''credentialsSecretRef'' = Some (edCredentialsSecretRef x)"
    using r unfolding read_ExternalDatabase_def
    by (elim read_defaulted [OF D ExternalDatabase_schema_def]) (auto simp: bind_eq_Some_conv)
  have "field [] read_string m ''host'' = Some (edHost x)"
      "field \<lparr>lrName = []\<rparr> (rLocalRef W) m ''credentialsSecretRef'' = Some (edCredentialsSecretRef x)"
    using f(1,4) by (simp_all add: field_plain [OF D] ptr_field_plain [OF D] ExternalDatabase_schema_def)
  moreover have "\<exists>x0. field 0 read_i32 m ''port'' = Some x0 \<and> filled 0 5432 x0 (edPort x)"
    by (rule field_leaf [OF D _ _ f(2)]) (simp add: ExternalDatabase_schema_def, simp add: read_i32_def read_string_def)
  moreover have "\<exists>x0. field [] read_string m ''name'' = Some x0 \<and> filled [] ''paperless'' x0 (edName x)"
    by (rule field_leaf [OF D _ _ f(3)]) (simp add: ExternalDatabase_schema_def, simp add: read_i32_def read_string_def)
  ultimately show ?thesis
    by (auto simp: j read_ExternalDatabase_def fills_external_def)
qed

lemma read_volume_defaulted:
  assumes D: "defaulting_laws dflt"
  shows "read_VolumeSpec W (dflt VolumeSpec_schema j) = read_VolumeSpec W j"
proof (cases j)
  case (JObj m)
  then show ?thesis
    by (simp add: VolumeSpec_schema_def defaultingD [OF D] read_VolumeSpec_def field_plain [OF D]
      ptr_field_plain [OF D])
qed (simp_all add: VolumeSpec_schema_def defaultingD [OF D])

text \<open>A volume gets a size only when it is absent as a whole: a size it has is kept, zero or not.\<close>

lemma volume_field_defaulted:
  assumes D: "defaulting_laws dflt" and Q: "rQuantity W (JStr q) = Some q"
    and k: "map_of ps k = Some (size_default q, VolumeSpec_schema)"
    and f: "field zero_volume (read_VolumeSpec W) (default_props dflt ps m) k = Some x"
  shows "\<exists>x0. field zero_volume (read_VolumeSpec W) m k = Some x0 \<and> fills_volume q x0 x"
proof (rule field_defaulted [OF D k f])
  fix v assume "size_default q = Some v" "read_VolumeSpec W (dflt VolumeSpec_schema v) = Some x"
  then have "read_VolumeSpec W (JObj [''size'' \<mapsto> JStr q]) = Some x"
    by (simp add: size_default_def read_volume_defaulted [OF D])
  then show "fills_volume q zero_volume x"
    using Q by (simp add: read_VolumeSpec_def field_def ptr_field_def fills_volume_def filled_def zero_volume_def)
qed (simp_all add: read_volume_defaulted [OF D] fills_volume_def filled_def)

lemma size_literals_read:
  assumes "size_wire_laws W"
  shows "rQuantity W (JStr ''5Gi'') = Some ''5Gi''" "rQuantity W (JStr ''10Gi'') = Some ''10Gi''"
    "rQuantity W (JStr ''20Gi'') = Some ''20Gi''"
  using assms by (simp_all add: size_wire_laws_def size_literals_def)

lemma read_storage_defaulted:
  assumes D: "defaulting_laws dflt" and Q: "size_wire_laws W" and r: "read_StorageSpec W (dflt StorageSpec_schema j) = Some x"
  shows "\<exists>x0. read_StorageSpec W j = Some x0 \<and> fills_storage x0 x"
proof -
  let ?d = "default_props dflt (props StorageSpec_schema)"
  obtain m where j: "j = JObj m"
    and f: "field zero_volume (read_VolumeSpec W) (?d m) ''data'' = Some (stData x)"
      "field zero_volume (read_VolumeSpec W) (?d m) ''media'' = Some (stMedia x)"
      "field zero_volume (read_VolumeSpec W) (?d m) ''consume'' = Some (stConsume x)"
      "field zero_volume (read_VolumeSpec W) (?d m) ''export'' = Some (stExport x)"
    using r unfolding read_StorageSpec_def
    by (elim read_defaulted [OF D StorageSpec_schema_def]) (auto simp: bind_eq_Some_conv)
  have "\<exists>x0. field zero_volume (read_VolumeSpec W) m ''data'' = Some x0 \<and> fills_volume DefaultDataSize x0 (stData x)"
    by (rule volume_field_defaulted [OF D _ _ f(1)])
       (simp_all add: StorageSpec_schema_def DefaultDataSize_def size_literals_read [OF Q])
  moreover have "\<exists>x0. field zero_volume (read_VolumeSpec W) m ''media'' = Some x0 \<and> fills_volume DefaultMediaSize x0 (stMedia x)"
    by (rule volume_field_defaulted [OF D _ _ f(2)])
       (simp_all add: StorageSpec_schema_def DefaultMediaSize_def size_literals_read [OF Q])
  moreover have "\<exists>x0. field zero_volume (read_VolumeSpec W) m ''consume'' = Some x0 \<and> fills_volume DefaultConsumeSize x0 (stConsume x)"
    by (rule volume_field_defaulted [OF D _ _ f(3)])
       (simp_all add: StorageSpec_schema_def DefaultConsumeSize_def size_literals_read [OF Q])
  moreover have "\<exists>x0. field zero_volume (read_VolumeSpec W) m ''export'' = Some x0 \<and> fills_volume DefaultExportSize x0 (stExport x)"
    by (rule volume_field_defaulted [OF D _ _ f(4)])
       (simp_all add: StorageSpec_schema_def DefaultExportSize_def size_literals_read [OF Q])
  ultimately show ?thesis
    by (auto simp: j read_StorageSpec_def fills_storage_def)
qed

lemma read_managed_defaulted:
  assumes D: "defaulting_laws dflt" and Q: "size_wire_laws W" and r: "read_ManagedDatabase W (dflt ManagedDatabase_schema j) = Some x"
  shows "\<exists>x0. read_ManagedDatabase W j = Some x0 \<and> fills_managed x0 x"
proof -
  let ?d = "default_props dflt (props ManagedDatabase_schema)"
  obtain m where j: "j = JObj m"
    and f: "field 0 read_i32 (?d m) ''instances'' = Some (mdInstances x)"
      "field zero_volume (read_VolumeSpec W) (?d m) ''storage'' = Some (mdStorage x)"
    using r unfolding read_ManagedDatabase_def
    by (elim read_defaulted [OF D ManagedDatabase_schema_def]) (auto simp: bind_eq_Some_conv)
  have "\<exists>x0. field 0 read_i32 m ''instances'' = Some x0 \<and> filled 0 1 x0 (mdInstances x)"
    by (rule field_leaf [OF D _ _ f(1)]) (simp add: ManagedDatabase_schema_def, simp add: read_i32_def)
  moreover have "\<exists>x0. field zero_volume (read_VolumeSpec W) m ''storage'' = Some x0 \<and> fills_volume DefaultDatabaseSize x0 (mdStorage x)"
    by (rule volume_field_defaulted [OF D _ _ f(2)])
       (simp_all add: ManagedDatabase_schema_def DefaultDatabaseSize_def size_literals_read [OF Q])
  ultimately show ?thesis
    by (auto simp: j read_ManagedDatabase_def fills_managed_def)
qed

lemma read_database_defaulted:
  assumes D: "defaulting_laws dflt" and Q: "size_wire_laws W" and r: "read_DatabaseSpec W (dflt DatabaseSpec_schema j) = Some x"
  shows "\<exists>x0. read_DatabaseSpec W j = Some x0 \<and> fills_database x0 x"
proof -
  let ?d = "default_props dflt (props DatabaseSpec_schema)"
  obtain m where j: "j = JObj m"
    and f: "ptr_field (read_ManagedDatabase W) (?d m) ''cnpg'' = Some (dbCNPG x)"
      "ptr_field (read_ExternalDatabase W) (?d m) ''external'' = Some (dbExternal x)"
    using r unfolding read_DatabaseSpec_def
    by (elim read_defaulted [OF D DatabaseSpec_schema_def]) (auto simp: bind_eq_Some_conv)
  have "\<exists>x0. ptr_field (read_ManagedDatabase W) m ''cnpg'' = Some x0 \<and> rel_option fills_managed x0 (dbCNPG x)"
    by (rule ptr_field_defaulted [OF D _ f(1) read_managed_defaulted [OF D Q]]) (simp_all add: DatabaseSpec_schema_def)
  moreover have "\<exists>x0. ptr_field (read_ExternalDatabase W) m ''external'' = Some x0 \<and> rel_option fills_external x0 (dbExternal x)"
    by (rule ptr_field_defaulted [OF D _ f(2) read_external_defaulted [OF D]]) (simp_all add: DatabaseSpec_schema_def)
  ultimately show ?thesis
    by (auto simp: j read_DatabaseSpec_def fills_database_def)
qed

text \<open>A struct with the default \<open>{}\<close>: its own fields get theirs.\<close>

lemma field_struct_defaulted:
  assumes D: "defaulting_laws dflt" and k: "map_of ps k = Some (Some (JObj Map.empty), s)"
    and f: "field zero r (default_props dflt ps m) k = Some x"
    and sub: "\<And>v x. r (dflt s v) = Some x \<Longrightarrow> \<exists>x0. r v = Some x0 \<and> fills x0 x"
    and empty: "r (JObj Map.empty) = Some zero" and zero: "fills zero zero"
  shows "\<exists>x0. field zero r m k = Some x0 \<and> fills x0 x"
proof (rule field_defaulted [where fills = fills, OF D k f])
  fix v assume "Some (JObj Map.empty) = Some v" "r (dflt s v) = Some x"
  then show "fills zero x" using sub [of "JObj Map.empty" x] empty by simp
qed (fact sub, fact zero)

lemmas zero_reads = read_ImageSpec_def read_OCRSpec_def read_AdminSpec_def read_CacheSpec_def
  read_StorageSpec_def read_VolumeSpec_def field_def ptr_field_def zero_spec_def

lemma read_spec_defaulted:
  assumes D: "defaulting_laws dflt" and Q: "size_wire_laws W"
    and r: "read_PaperlessInstanceSpec W (dflt PaperlessInstanceSpec_schema j) = Some x"
  shows "\<exists>x0. read_PaperlessInstanceSpec W j = Some x0 \<and> fills_spec x0 x"
proof -
  let ?d = "default_props dflt (props PaperlessInstanceSpec_schema)"
  obtain m where j: "j = JObj m"
    and f: "field (spImage zero_spec) (read_ImageSpec W) (?d m) ''image'' = Some (spImage x)"
      "field [] read_string (?d m) ''url'' = Some (spURL x)"
      "field [] read_string (?d m) ''timezone'' = Some (spTimezone x)"
      "field (spOCR zero_spec) read_OCRSpec (?d m) ''ocr'' = Some (spOCR x)"
      "field (spAdmin zero_spec) (read_AdminSpec W) (?d m) ''admin'' = Some (spAdmin x)"
      "ptr_field (rSelector W) (?d m) ''secretKeySecretRef'' = Some (spSecretKeySecretRef x)"
      "field (spDatabase zero_spec) (read_DatabaseSpec W) (?d m) ''database'' = Some (spDatabase x)"
      "field (spCache zero_spec) (read_CacheSpec W) (?d m) ''cache'' = Some (spCache x)"
      "field (spStorage zero_spec) (read_StorageSpec W) (?d m) ''storage'' = Some (spStorage x)"
      "field [] (rResources W) (?d m) ''resources'' = Some (spResources x)"
      "field [] (read_list (rEnvVar W)) (?d m) ''env'' = Some (spEnv x)"
      "field [] (read_list (rEnvFrom W)) (?d m) ''envFrom'' = Some (spEnvFrom x)"
      "field [] read_string (?d m) ''deletionPolicy'' = Some (spDeletionPolicy x)"
    using r unfolding read_PaperlessInstanceSpec_def
    by (elim read_defaulted [OF D PaperlessInstanceSpec_schema_def]) (auto simp: bind_eq_Some_conv)
  have "field [] read_string m ''url'' = Some (spURL x)"
      "ptr_field (rSelector W) m ''secretKeySecretRef'' = Some (spSecretKeySecretRef x)"
      "field [] (rResources W) m ''resources'' = Some (spResources x)"
      "field [] (read_list (rEnvVar W)) m ''env'' = Some (spEnv x)"
      "field [] (read_list (rEnvFrom W)) m ''envFrom'' = Some (spEnvFrom x)"
    using f(2,6,10,11,12) by (simp_all add: field_plain [OF D] ptr_field_plain [OF D] PaperlessInstanceSpec_schema_def)
  moreover have "\<exists>x0. field (spImage zero_spec) (read_ImageSpec W) m ''image'' = Some x0 \<and> fills_image x0 (spImage x)"
    by (rule field_struct_defaulted [OF D _ f(1) read_image_defaulted [OF D]])
       (simp_all add: PaperlessInstanceSpec_schema_def zero_reads fills_defs filled_def)
  moreover have "\<exists>x0. field [] read_string m ''timezone'' = Some x0 \<and> filled [] defaultTimezone x0 (spTimezone x)"
    by (rule field_leaf [OF D _ _ f(3)])
       (simp add: PaperlessInstanceSpec_schema_def, simp add: read_string_def defaultTimezone_def)
  moreover have "\<exists>x0. field (spOCR zero_spec) read_OCRSpec m ''ocr'' = Some x0 \<and> fills_ocr x0 (spOCR x)"
    by (rule field_struct_defaulted [OF D _ f(4) read_ocr_defaulted [OF D]])
       (simp_all add: PaperlessInstanceSpec_schema_def zero_reads fills_defs filled_def)
  moreover have "\<exists>x0. field (spAdmin zero_spec) (read_AdminSpec W) m ''admin'' = Some x0 \<and> fills_admin x0 (spAdmin x)"
    by (rule field_struct_defaulted [OF D _ f(5) read_admin_defaulted [OF D]])
       (simp_all add: PaperlessInstanceSpec_schema_def zero_reads fills_defs filled_def)
  moreover have "\<exists>x0. field (spDatabase zero_spec) (read_DatabaseSpec W) m ''database'' = Some x0 \<and> fills_database x0 (spDatabase x)"
    by (rule field_defaulted [OF D _ f(7) read_database_defaulted [OF D Q]])
       (simp add: PaperlessInstanceSpec_schema_def zero_spec_def fills_database_def)+
  moreover have "\<exists>x0. field (spCache zero_spec) (read_CacheSpec W) m ''cache'' = Some x0 \<and> fills_cache x0 (spCache x)"
    by (rule field_struct_defaulted [OF D _ f(8) read_cache_defaulted [OF D]])
       (simp_all add: PaperlessInstanceSpec_schema_def zero_reads fills_defs filled_def)
  moreover have "\<exists>x0. field (spStorage zero_spec) (read_StorageSpec W) m ''storage'' = Some x0 \<and> fills_storage x0 (spStorage x)"
    by (rule field_struct_defaulted [OF D _ f(9) read_storage_defaulted [OF D Q]])
       (simp_all add: PaperlessInstanceSpec_schema_def zero_reads fills_defs filled_def)
  moreover have "\<exists>x0. field [] read_string m ''deletionPolicy'' = Some x0 \<and> filled [] DeletionPolicyRetain x0 (spDeletionPolicy x)"
    by (rule field_leaf [OF D _ _ f(13)])
       (simp add: PaperlessInstanceSpec_schema_def, simp add: read_string_def DeletionPolicyRetain_def)
  ultimately show ?thesis
    by (elim exE conjE) (simp add: j read_PaperlessInstanceSpec_def fills_spec_def)
qed

section \<open>The builders\<close>

lemma fillsD:
  assumes "fills_spec x0 x"
  shows "fills_image (spImage x0) (spImage x)" "fills_ocr (spOCR x0) (spOCR x)"
    "fills_admin (spAdmin x0) (spAdmin x)" "fills_database (spDatabase x0) (spDatabase x)"
    "fills_cache (spCache x0) (spCache x)" "fills_storage (spStorage x0) (spStorage x)"
    "filled [] defaultTimezone (spTimezone x0) (spTimezone x)"
    "filled [] DeletionPolicyRetain (spDeletionPolicy x0) (spDeletionPolicy x)"
    "spURL x = spURL x0" "spSecretKeySecretRef x = spSecretKeySecretRef x0" "spEnv x = spEnv x0"
  using assms by (simp_all add: fills_spec_def)

lemma IsManaged_filled: "fills_cache x0 x \<Longrightarrow> IsManaged x = IsManaged x0"
  by (auto simp: fills_cache_def filled_def IsManaged_def)

lemma volume_filled:
  assumes "libIsZero L quantity_zero" and "\<not> libIsZero L q" and "fills_volume q x0 x"
  shows "wanted_size L x q = wanted_size L x0 q" "vsStorageClassName x = vsStorageClassName x0"
    "vsAccessModes x = vsAccessModes x0"
  using assms by (auto simp: fills_volume_def filled_def wanted_size_def zero_volume_def quantity_zero_def)

text \<open>Names and labels do not depend on the specification.\<close>

lemma names_respec:
  "SecretKeyName (inst\<lparr>piSpec := x\<rparr>) = SecretKeyName inst" "AdminSecretName (inst\<lparr>piSpec := x\<rparr>) = AdminSecretName inst"
  "DBName (inst\<lparr>piSpec := x\<rparr>) = DBName inst" "ValkeyName (inst\<lparr>piSpec := x\<rparr>) = ValkeyName inst"
  "DataPVCName (inst\<lparr>piSpec := x\<rparr>) = DataPVCName inst" "MediaPVCName (inst\<lparr>piSpec := x\<rparr>) = MediaPVCName inst"
  "ConsumePVCName (inst\<lparr>piSpec := x\<rparr>) = ConsumePVCName inst" "ExportPVCName (inst\<lparr>piSpec := x\<rparr>) = ExportPVCName inst"
  "commonLabels (inst\<lparr>piSpec := x\<rparr>) c = commonLabels inst c" "serviceDNSNames (inst\<lparr>piSpec := x\<rparr>) = serviceDNSNames inst"
  "controller_ref (inst\<lparr>piSpec := x\<rparr>) = controller_ref inst"
  "piMeta (inst\<lparr>piSpec := x\<rparr>) = piMeta inst" "piSpec (inst\<lparr>piSpec := x\<rparr>) = x"
  by (simp_all add: name_defs derivedName_def commonLabels_def serviceDNSNames_def controller_ref_def)

lemma cache_filled:
  assumes "fills_cache (spCache x0) (spCache x)"
  shows "cacheEnv (inst\<lparr>piSpec := x\<rparr>) = cacheEnv (inst\<lparr>piSpec := x0\<rparr>)"
    "cache_objects L (inst\<lparr>piSpec := x\<rparr>) = cache_objects L (inst\<lparr>piSpec := x0\<rparr>)"
proof -
  have eq: "caURL (spCache x) = caURL (spCache x0)" "caURLSecretRef (spCache x) = caURLSecretRef (spCache x0)"
      "IsManaged (spCache x) = IsManaged (spCache x0)"
    using assms IsManaged_filled by (simp_all add: fills_cache_def)
  show "cacheEnv (inst\<lparr>piSpec := x\<rparr>) = cacheEnv (inst\<lparr>piSpec := x0\<rparr>)"
    unfolding cacheEnv_def Let_def names_respec eq ..
  show "cache_objects L (inst\<lparr>piSpec := x\<rparr>) = cache_objects L (inst\<lparr>piSpec := x0\<rparr>)"
    unfolding cache_objects_def ValkeyDeployment_def ValkeyService_def ValkeyPVC_def buildPVC_def
      valkeyLabels_def Let_def names_respec eq ..
qed

lemma admin_filled:
  assumes "fills_admin (spAdmin x0) (spAdmin x)"
  shows "adminEnv (inst\<lparr>piSpec := x\<rparr>) = adminEnv (inst\<lparr>piSpec := x0\<rparr>)"
    "adUsername (spAdmin x0) \<noteq> [] \<Longrightarrow> AdminSecret L (inst\<lparr>piSpec := x\<rparr>) = AdminSecret L (inst\<lparr>piSpec := x0\<rparr>)"
proof -
  let ?user = "\<lambda>a. if adUsername a = [] then defaultAdminUsername else adUsername a"
  have eq: "adEmail (spAdmin x) = adEmail (spAdmin x0)" "IsEnabled (spAdmin x) = IsEnabled (spAdmin x0)"
      "adPasswordSecretRef (spAdmin x) = adPasswordSecretRef (spAdmin x0)"
      "?user (spAdmin x) = ?user (spAdmin x0)"
    using assms by (auto simp: fills_admin_def filled_def IsEnabled_def defaultAdminUsername_def)
  show "adminEnv (inst\<lparr>piSpec := x\<rparr>) = adminEnv (inst\<lparr>piSpec := x0\<rparr>)"
    unfolding adminEnv_def Let_def names_respec eq ..
  assume "adUsername (spAdmin x0) \<noteq> []"
  then have user: "adUsername (spAdmin x) = adUsername (spAdmin x0)"
    using assms by (auto simp: fills_admin_def filled_def)
  show "AdminSecret L (inst\<lparr>piSpec := x\<rparr>) = AdminSecret L (inst\<lparr>piSpec := x0\<rparr>)"
    unfolding AdminSecret_def Let_def names_respec eq user ..
qed

lemma secret_key_filled:
  assumes eq: "spSecretKeySecretRef x = spSecretKeySecretRef x0"
  shows "secretKeyEnv (inst\<lparr>piSpec := x\<rparr>) = secretKeyEnv (inst\<lparr>piSpec := x0\<rparr>)"
    "SecretKey L (inst\<lparr>piSpec := x\<rparr>) = SecretKey L (inst\<lparr>piSpec := x0\<rparr>)"
  unfolding secretKeyEnv_def SecretKey_def Let_def names_respec eq by (rule refl)+

lemma hosts_filled:
  assumes eq: "spURL x = spURL x0"
  shows "allowedHosts L (inst\<lparr>piSpec := x\<rparr>) = allowedHosts L (inst\<lparr>piSpec := x0\<rparr>)"
  unfolding allowedHosts_def allowedHostsList_def Let_def names_respec eq ..

lemma owners_filled:
  assumes "filled [] DeletionPolicyRetain (spDeletionPolicy x0) (spDeletionPolicy x)"
  shows "stateful_owners (inst\<lparr>piSpec := x\<rparr>) = stateful_owners (inst\<lparr>piSpec := x0\<rparr>)"
  using assms by (auto simp: stateful_owners_def DeletionPolicyOrDefault_def filled_def names_respec)

lemma claims_filled:
  assumes Q: "quantity_laws L" and Z: "libIsZero L quantity_zero"
    and x: "fills_storage (spStorage x0) (spStorage x)"
  shows "PVCs L (inst\<lparr>piSpec := x\<rparr>) = PVCs L (inst\<lparr>piSpec := x0\<rparr>)"
proof -
  have "volume_claim L (inst\<lparr>piSpec := x\<rparr>) n c v q = volume_claim L (inst\<lparr>piSpec := x0\<rparr>) n c v0 q"
    if "q \<in> set size_literals" "fills_volume q v0 v" for n c v v0 q
    unfolding volume_claim_def buildPVC_def Let_def names_respec
      volume_filled [OF Z conjunct1 [OF conjunct2 [OF size_literal [OF Q that(1)]]] that(2)] ..
  then show ?thesis
    using x unfolding PVCs_value [OF Q] names_respec fills_storage_def by simp
qed

lemma wanted_database_filled:
  assumes "rel_option fills_managed (dbCNPG (spDatabase x0)) (dbCNPG (spDatabase x))"
  shows "fills_managed (wanted_database (inst\<lparr>piSpec := x0\<rparr>)) (wanted_database (inst\<lparr>piSpec := x\<rparr>))"
proof -
  have "fills_managed m m" for m by (simp add: fills_managed_def fills_volume_def filled_def)
  then show ?thesis
    using assms by (cases "dbCNPG (spDatabase x0)"; cases "dbCNPG (spDatabase x)") (simp_all add: wanted_database_def)
qed

lemma CNPGCluster_cases:
  assumes Q: "quantity_laws L"
  shows "CNPGCluster L inst = (case validateName L (DBName inst) of Some e \<Rightarrow> Value (Inl e)
    | None \<Rightarrow> (case libSetNestedMap L Map.empty (cluster_spec L inst) [''spec''] of
         Inl e \<Rightarrow> Value (Inl (ErrorWrap ''setting cluster spec'' e))
       | Inr content \<Rightarrow> Value (Inr \<lparr>unAPIVersion = cnpgAPIVersion, unKind = cnpgKind,
           unMeta = new_meta (DBName inst) (inst_ns inst) (commonLabels inst ''database''), unObject = content\<rparr>)))"
  by (simp add: CNPGCluster_def SizeOrDefault_value [OF Q] cluster_spec_def Let_def flip: wanted_database_def
    split: option.split)

lemma cluster_filled:
  assumes Q: "quantity_laws L" and Z: "libIsZero L quantity_zero"
    and x: "rel_option fills_managed (dbCNPG (spDatabase x0)) (dbCNPG (spDatabase x))"
  shows "CNPGCluster L (inst\<lparr>piSpec := x\<rparr>) = CNPGCluster L (inst\<lparr>piSpec := x0\<rparr>)"
proof -
  let ?n = "\<lambda>m. if sint (mdInstances m) < 1 then 1 else mdInstances m"
  obtain m m0 where m: "wanted_database (inst\<lparr>piSpec := x\<rparr>) = m" and m0: "wanted_database (inst\<lparr>piSpec := x0\<rparr>) = m0" by blast
  have f: "fills_volume DefaultDatabaseSize (mdStorage m0) (mdStorage m)" and n: "?n m = ?n m0"
    using wanted_database_filled [OF x, of inst] by (auto simp: m m0 fills_managed_def filled_def)
  have "\<not> libIsZero L DefaultDatabaseSize" using size_literal [OF Q] by simp
  note v = volume_filled [OF Z this f]
  have spec: "cluster_spec L (inst\<lparr>piSpec := x\<rparr>) = cluster_spec L (inst\<lparr>piSpec := x0\<rparr>)"
    unfolding cluster_spec_def m m0 n v(1,2) ..
  show ?thesis
    unfolding CNPGCluster_cases [OF Q] names_respec spec ..
qed

section \<open>The environment\<close>

lemma database_env_filled:
  assumes "rel_option fills_external (dbExternal (spDatabase x0)) (dbExternal (spDatabase x))"
  shows "n \<notin> {''PAPERLESS_DBPORT'', ''PAPERLESS_DBNAME''} \<Longrightarrow>
      env_lookup (DatabaseEnv (inst\<lparr>piSpec := x\<rparr>)) n = env_lookup (DatabaseEnv (inst\<lparr>piSpec := x0\<rparr>)) n"
    "(\<And>e. dbExternal (spDatabase x0) = Some e \<Longrightarrow> edPort e \<noteq> 0 \<and> edName e \<noteq> []) \<Longrightarrow>
      DatabaseEnv (inst\<lparr>piSpec := x\<rparr>) = DatabaseEnv (inst\<lparr>piSpec := x0\<rparr>)"
proof (goal_cases)
  case 1
  show ?case
  proof (cases "dbExternal (spDatabase x0)")
    case None
    then show ?thesis
      using assms by (simp add: DatabaseEnv_managed cnpgServiceName_def cnpgAppSecretName_def names_respec)
  next
    case (Some e)
    then obtain e' where "dbExternal (spDatabase x) = Some e'" "fills_external e e'"
      using assms by (auto simp: option_rel_Some1)
    then show ?thesis
      using 1 Some by (auto simp: DatabaseEnv_external fills_external_def env_lookup_def)
  qed
next
  case 2
  show ?case
  proof (cases "dbExternal (spDatabase x0)")
    case None
    then show ?thesis
      using assms by (simp add: DatabaseEnv_managed cnpgServiceName_def cnpgAppSecretName_def names_respec)
  next
    case (Some e)
    then obtain e' where "dbExternal (spDatabase x) = Some e'" "fills_external e e'"
      using assms by (auto simp: option_rel_Some1)
    then show ?thesis
      using 2 Some by (auto simp: DatabaseEnv_external fills_external_def filled_def)
  qed
qed

lemma operator_env_filled:
  assumes "fills_spec x0 x"
  obtains env where
    "operatorEnv L (inst\<lparr>piSpec := x\<rparr>) = env @ DatabaseEnv (inst\<lparr>piSpec := x\<rparr>)"
    "operatorEnv L (inst\<lparr>piSpec := x0\<rparr>) = env @ DatabaseEnv (inst\<lparr>piSpec := x0\<rparr>)"
proof -
  note f = fillsD [OF assms]
  let ?tz = "\<lambda>x. if spTimezone x = [] then defaultTimezone else spTimezone x"
    and ?ocr = "\<lambda>x. if Join (ocLanguages (spOCR x)) ''+'' = [] then defaultOCRLanguage
      else Join (ocLanguages (spOCR x)) ''+''"
  have eq: "?tz x = ?tz x0" "?ocr x = ?ocr x0"
    using f(2,7) by (auto simp: fills_ocr_def filled_def defaultTimezone_def defaultOCRLanguage_def)
  show ?thesis
    by (rule that, unfold operatorEnv_def Let_def names_respec eq f(9) hosts_filled [OF f(9)]
        secret_key_filled [OF f(10)] cache_filled [OF f(5)] admin_filled(1) [OF f(3)]) (rule refl)+
qed

lemma env_filled:
  assumes "fills_spec x0 x"
  shows "n \<notin> {''PAPERLESS_DBPORT'', ''PAPERLESS_DBNAME''} \<Longrightarrow>
      env_lookup (workloadEnv L (inst\<lparr>piSpec := x\<rparr>)) n = env_lookup (workloadEnv L (inst\<lparr>piSpec := x0\<rparr>)) n"
    "(\<And>e. dbExternal (spDatabase x0) = Some e \<Longrightarrow> edPort e \<noteq> 0 \<and> edName e \<noteq> []) \<Longrightarrow>
      workloadEnv L (inst\<lparr>piSpec := x\<rparr>) = workloadEnv L (inst\<lparr>piSpec := x0\<rparr>)"
proof -
  have db: "rel_option fills_external (dbExternal (spDatabase x0)) (dbExternal (spDatabase x))"
    using fillsD(4) [OF assms] by (simp add: fills_database_def)
  obtain env where env: "operatorEnv L (inst\<lparr>piSpec := x\<rparr>) = env @ DatabaseEnv (inst\<lparr>piSpec := x\<rparr>)"
    "operatorEnv L (inst\<lparr>piSpec := x0\<rparr>) = env @ DatabaseEnv (inst\<lparr>piSpec := x0\<rparr>)"
    by (rule operator_env_filled [OF assms])
  {
    assume n: "n \<notin> {''PAPERLESS_DBPORT'', ''PAPERLESS_DBNAME''}"
    then show "env_lookup (workloadEnv L (inst\<lparr>piSpec := x\<rparr>)) n = env_lookup (workloadEnv L (inst\<lparr>piSpec := x0\<rparr>)) n"
      using user_env_wins [of L "inst\<lparr>piSpec := x\<rparr>" n] user_env_wins [of L "inst\<lparr>piSpec := x0\<rparr>" n]
        database_env_filled(1) [OF db n, of inst]
      by (simp add: env env_lookup_append fillsD(11) [OF assms] cong: option.case_cong)
  next
    assume c: "\<And>e. dbExternal (spDatabase x0) = Some e \<Longrightarrow> edPort e \<noteq> 0 \<and> edName e \<noteq> []"
    then show "workloadEnv L (inst\<lparr>piSpec := x\<rparr>) = workloadEnv L (inst\<lparr>piSpec := x0\<rparr>)"
      using database_env_filled(2) [OF db c] by (simp add: workloadEnv_def env fillsD(11) [OF assms])
  }
qed

section \<open>Properties\<close>

text \<open>
  C27: For every document the API server admits, its defaults and the fallbacks of the builders
  agree. The specification that is read after defaulting and the one read from the document as
  it was written, as a caller that bypasses the server leaves it, get the same claims, the same
  database cluster, the same cache objects, the same secret key, the same ownership, and
  the same environment, except that two variables of an external database have no fallback:
  where the document leaves out the port or the database name, the server fills in 5432 and
  \<open>paperless\<close>, while the other specification gives \<open>PAPERLESS_DBPORT\<close> and \<open>PAPERLESS_DBNAME\<close> the values 0
  and empty. Three more fields rest on the server alone: the username in the generated admin
  secret, the tag of the image where no digest is given, and the pull policy; \<open>fills_admin\<close> and
  \<open>fills_image\<close> say what the server fills in. When the document has the username, the secret is
  the same as well, and when it has a tag or a digest, the image reference is.
\<close>

theorem defaults_agree:
  assumes D: "defaulting_laws dflt" and S: "size_wire_laws W" and Q: "quantity_laws L"
    and Z: "libIsZero L quantity_zero" and a: "admitted W dflt j = Some sp"
  shows "\<exists>sp0. read_PaperlessInstanceSpec W j = Some sp0 \<and>
    (let i = inst\<lparr>piSpec := sp\<rparr>; z = inst\<lparr>piSpec := sp0\<rparr> in
      PVCs L i = PVCs L z \<and> CNPGCluster L i = CNPGCluster L z \<and>
      cache_objects L i = cache_objects L z \<and> SecretKey L i = SecretKey L z \<and>
      stateful_owners i = stateful_owners z \<and>
      (\<forall>n. n \<notin> {''PAPERLESS_DBPORT'', ''PAPERLESS_DBNAME''} \<longrightarrow>
         env_lookup (workloadEnv L i) n = env_lookup (workloadEnv L z) n) \<and>
      ((\<forall>e. dbExternal (spDatabase sp0) = Some e \<longrightarrow> edPort e \<noteq> 0 \<and> edName e \<noteq> []) \<longrightarrow>
         workloadEnv L i = workloadEnv L z) \<and>
      rel_option fills_external (dbExternal (spDatabase sp0)) (dbExternal (spDatabase sp)) \<and>
      (\<forall>e. dbExternal (spDatabase sp0) = Some e \<and> edPort e = 0 \<and> edName e = [] \<longrightarrow>
         {env_value ''PAPERLESS_DBPORT'' ''0'', env_value ''PAPERLESS_DBNAME'' []} \<subseteq> set (DatabaseEnv z)) \<and>
      fills_admin (spAdmin sp0) (spAdmin sp) \<and>
      (adUsername (spAdmin sp0) \<noteq> [] \<longrightarrow> AdminSecret L i = AdminSecret L z) \<and>
      fills_image (spImage sp0) (spImage sp) \<and>
      (imTag (spImage sp0) \<noteq> [] \<or> imDigest (spImage sp0) \<noteq> [] \<longrightarrow>
         Reference (spImage sp) = Reference (spImage sp0)))"
proof -
  have "read_PaperlessInstanceSpec W (dflt PaperlessInstanceSpec_schema j) = Some sp"
    using a by (simp add: admitted_def Let_def split: if_splits)
  from read_spec_defaulted [OF D S this] obtain sp0
    where sp0: "read_PaperlessInstanceSpec W j = Some sp0" and f: "fills_spec sp0 sp" by blast
  note fs = fillsD [OF f]
  have db: "rel_option fills_managed (dbCNPG (spDatabase sp0)) (dbCNPG (spDatabase sp))"
      "rel_option fills_external (dbExternal (spDatabase sp0)) (dbExternal (spDatabase sp))"
    using fs(4) by (simp_all add: fills_database_def)
  have image: "Reference (spImage sp) = Reference (spImage sp0)"
    if "imTag (spImage sp0) \<noteq> [] \<or> imDigest (spImage sp0) \<noteq> []"
    using that fs(1) by (auto simp: fills_image_def filled_def Reference_def Let_def)
  have zero: "Itoa 0 = ''0''" by code_simp
  have bypassed: "{env_value ''PAPERLESS_DBPORT'' ''0'', env_value ''PAPERLESS_DBNAME'' []} \<subseteq>
      set (DatabaseEnv (inst\<lparr>piSpec := sp0\<rparr>))"
    if "dbExternal (spDatabase sp0) = Some e" "edPort e = 0" "edName e = []" for e
    using that by (simp add: DatabaseEnv_external zero)
  show ?thesis
    unfolding Let_def
    by (intro exI [of _ sp0] conjI sp0 claims_filled [OF Q Z fs(6)] cluster_filled [OF Q Z db(1)]
        cache_filled [OF fs(5)] secret_key_filled [OF fs(10)] owners_filled [OF fs(8)] db(2) fs(1,3) image
        allI impI env_filled [OF f] admin_filled [OF fs(3)] bypassed) (assumption | simp)+
qed

text \<open>A managed database of which nothing is said, and an external one without port and name.\<close>

definition managed_document :: json where
  "managed_document = JObj [''database'' \<mapsto> JObj [''cnpg'' \<mapsto> JObj Map.empty]]"

lemma managed_document_admitted:
  "\<exists>sp. admitted ref_wire ref_default managed_document = Some sp \<and>
     dbCNPG (spDatabase sp) = Some \<lparr>mdInstances = 1, mdStorage = zero_volume\<lparr>vsSize := DefaultDatabaseSize\<rparr>\<rparr>"
  by (simp add: admitted_def managed_document_def Let_def schema_defs
    defaultingD [OF ref_default_laws] check_defs default_props_simps read_defs field_def ptr_field_def
    read_string_def read_bool_def read_i32_def read_list_def ref_wire_def zero_volume_def
    DefaultDatabaseSize_def
    DeletionPolicyRetain_def DeletionPolicyDelete_def del: ref_default.simps)

lemma external_document_read:
  "\<exists>sp0. read_PaperlessInstanceSpec ref_wire external_document = Some sp0 \<and>
     map_option edPort (dbExternal (spDatabase sp0)) = Some 0 \<and>
     map_option edName (dbExternal (spDatabase sp0)) = Some []"
  by (simp add: external_document_def read_defs field_def ptr_field_def read_string_def read_bool_def
    ref_wire_def)

theorem defaults_agree_witness:
  "(\<exists>sp sp0. admitted ref_wire ref_default managed_document = Some sp \<and>
     read_PaperlessInstanceSpec ref_wire managed_document = Some sp0 \<and>
     map_option mdInstances (dbCNPG (spDatabase sp)) = Some 1 \<and>
     CNPGCluster ref_lib (bare_instance ''docs'' ''ns'' ''u''\<lparr>piSpec := sp\<rparr>) =
       CNPGCluster ref_lib (bare_instance ''docs'' ''ns'' ''u''\<lparr>piSpec := sp0\<rparr>)) \<and>
   (\<exists>sp sp0. admitted ref_wire ref_default external_document = Some sp \<and>
     read_PaperlessInstanceSpec ref_wire external_document = Some sp0 \<and>
     map_option edPort (dbExternal (spDatabase sp)) = Some 5432 \<and>
     env_value ''PAPERLESS_DBPORT'' ''0'' \<in> set (DatabaseEnv (bare_instance ''docs'' ''ns'' ''u''\<lparr>piSpec := sp0\<rparr>)))"
proof -
  have W: "size_wire_laws ref_wire"
    by (simp add: size_wire_laws_def size_literals_def ref_wire_def read_string_def)
  have Z: "libIsZero ref_lib quantity_zero" by (simp add: quantity_zero_def)
  note agree = defaults_agree [OF ref_default_laws W lib_lawsD(1) [OF ref_lib_laws] Z, unfolded Let_def]
  obtain sp where sp: "admitted ref_wire ref_default managed_document = Some sp"
      "map_option mdInstances (dbCNPG (spDatabase sp)) = Some 1"
    using managed_document_admitted by fastforce
  obtain sp0 where "read_PaperlessInstanceSpec ref_wire managed_document = Some sp0"
      "CNPGCluster ref_lib (bare_instance ''docs'' ''ns'' ''u''\<lparr>piSpec := sp\<rparr>) =
       CNPGCluster ref_lib (bare_instance ''docs'' ''ns'' ''u''\<lparr>piSpec := sp0\<rparr>)"
    using agree [OF sp(1)] by metis
  note managed = sp this
  obtain sp where sp: "admitted ref_wire ref_default external_document = Some sp"
      "map_option edPort (dbExternal (spDatabase sp)) = Some 5432"
    using external_document_admitted by blast
  obtain sp0 e where sp0: "read_PaperlessInstanceSpec ref_wire external_document = Some sp0"
      "dbExternal (spDatabase sp0) = Some e" "edPort e = 0" "edName e = []"
    using external_document_read by auto
  have "env_value ''PAPERLESS_DBPORT'' ''0'' \<in> set (DatabaseEnv (bare_instance ''docs'' ''ns'' ''u''\<lparr>piSpec := sp0\<rparr>))"
    using agree [OF sp(1), of "bare_instance ''docs'' ''ns'' ''u''"] sp0 by (metis option.inject insert_subset)
  with managed sp sp0(1) show ?thesis by blast
qed

end
