(* ===== verification/Isolation.thy ===== *)
theory Isolation
  imports Reconciliation Step_Properties
begin

text \<open>
  Which objects of the cluster an instance writes, by kind, namespace and name, and which of
  them it has in common with another instance.
\<close>

section \<open>The objects of an instance\<close>

type_synonym object_key = "kind \<times> string \<times> string"

definition key_of :: "kobject \<Rightarrow> object_key" where
  "key_of obj = (kind_of obj, omNamespace (obj_meta obj), obj_name obj)"

lemma key_of_with_refs [simp]: "key_of (with_refs refs x) = key_of x"
  by (simp add: key_of_def)

text \<open>The names, with their kinds, of what each step applies.\<close>

lemma claim_keys:
  "quantity_laws L \<Longrightarrow> map (\<lambda>x. (kind_of x, obj_name x)) (claim_objects L inst) =
     [(KPVC, DataPVCName inst), (KPVC, MediaPVCName inst), (KPVC, ConsumePVCName inst), (KPVC, ExportPVCName inst)]"
  by (simp add: PVCs_value claim_objects_def volume_claim_def builder_simps)

lemma claim_names:
  assumes L: "lib_laws L" and x: "x \<in> set (claim_objects L inst)"
  shows "kind_of x = KPVC" "\<exists>s\<in>set [''data'', ''media'', ''consume'', ''export'']. obj_name x = derivedName inst s"
proof -
  have "(kind_of x, obj_name x) \<in> set (map (\<lambda>x. (kind_of x, obj_name x)) (claim_objects L inst))"
    using x by (auto intro: rev_image_eqI)
  then show "kind_of x = KPVC" "\<exists>s\<in>set [''data'', ''media'', ''consume'', ''export'']. obj_name x = derivedName inst s"
    unfolding claim_keys [OF lib_lawsD(1) [OF L]] by (auto simp: name_defs)
qed

lemma cluster_names:
  "x \<in> set (cluster_objects L inst) \<Longrightarrow> kind_of x = KUnstructured \<and> obj_name x = derivedName inst ''db''"
  by (auto simp: cluster_objects_def name_defs split: go.splits sum.splits
      dest!: CNPGCluster_meta [OF sym])

lemma cache_keys:
  "quantity_laws L \<Longrightarrow> map (\<lambda>x. (kind_of x, obj_name x)) (cache_objects L inst) =
     (if IsManaged (spCache (piSpec inst))
      then [(KDeployment, ValkeyName inst), (KService, ValkeyName inst), (KPVC, ValkeyName inst)] else [])"
proof (cases "IsManaged (spCache (piSpec inst))")
  case True
  assume "quantity_laws L"
  moreover obtain d s where "ValkeyDeployment inst = Some d" "ValkeyService inst = Some s"
    using True by (metis ValkeyDeployment_None ValkeyService_None not_None_eq)
  ultimately show ?thesis using True by (simp add: cache_objects_def ValkeyPVC_value builder_simps)
next
  case False
  then show "quantity_laws L \<Longrightarrow> ?thesis"
    by (simp add: cache_objects_def ValkeyPVC_value ValkeyDeployment_def ValkeyService_def)
qed

lemma workload_keys:
  "map (\<lambda>x. (kind_of x, obj_name x)) (workload_objects L inst) =
     [(KService, inst_name inst), (KDeployment, inst_name inst)]"
  by (simp add: workload_objects_def PaperlessService_def PaperlessDeployment_def Let_def)

text \<open>
  Everything an instance may have: its generated secrets, the claims of its documents, the
  cluster of a managed database, the cache unless it is external, and its workload.
\<close>

definition object_names :: "PaperlessInstance \<Rightarrow> (kind \<times> string) list" where
  "object_names inst =
     [(KSecret, SecretKeyName inst), (KSecret, AdminSecretName inst),
      (KPVC, DataPVCName inst), (KPVC, MediaPVCName inst), (KPVC, ConsumePVCName inst), (KPVC, ExportPVCName inst)] @
     (if IsExternal (spDatabase (piSpec inst)) then [] else [(KUnstructured, DBName inst)]) @
     (if IsManaged (spCache (piSpec inst))
      then [(KDeployment, ValkeyName inst), (KService, ValkeyName inst), (KPVC, ValkeyName inst)] else []) @
     [(KService, inst_name inst), (KDeployment, inst_name inst)]"

definition object_keys :: "PaperlessInstance \<Rightarrow> object_key list" where
  "object_keys inst = map (\<lambda>(k, n). (k, inst_ns inst, n)) (object_names inst)"

lemma object_keys_iff: "(k, ns, n) \<in> set (object_keys inst) \<longleftrightarrow> ns = inst_ns inst \<and> (k, n) \<in> set (object_names inst)"
  by (auto simp: object_keys_def intro: rev_image_eqI)

lemma step_objects_named:
  assumes L: "lib_laws L" and x: "x \<in> set (step_objects L inst s)"
  shows "(kind_of x, obj_name x) \<in> set (object_names inst)"
proof -
  let ?f = "\<lambda>x. (kind_of x, obj_name x)"
  have "?f x \<in> set (map ?f (step_objects L inst s))"
    unfolding set_map using x by (rule imageI)
  then show ?thesis
  proof (cases s)
    case StDatabase
    then show ?thesis
      using x cluster_names [of x L inst] by (auto simp: object_names_def name_defs split: if_splits)
  qed (simp_all only: step_objects.simps claim_keys cache_keys workload_keys lib_lawsD(1) [OF L],
      auto simp: object_names_def split: if_splits)
qed

lemma step_objects_keys:
  assumes L: "lib_laws L" and x: "x \<in> set (step_objects L inst s)"
  shows "key_of x \<in> set (object_keys inst)"
  using step_objects_named [OF L x] step_objects_fresh [OF x]
  by (simp add: key_of_def object_keys_iff fresh_for_def)

lemma object_keys_distinct: "distinct (object_keys inst)"
proof -
  have "distinct (inst_name inst # derived_names inst)"
    using derived_names_distinct [of inst] by (auto simp: derived_names_eq dest: sym)
  then have "distinct (object_names inst)"
    unfolding object_names_def derived_names_def by (auto simp: insert_commute)
  then show ?thesis
    unfolding object_keys_def by (auto simp: distinct_map inj_on_def)
qed

section \<open>Two instances\<close>

lemma object_names_cases:
  assumes "(k, n) \<in> set (object_names a)"
  obtains (derived) s where "s \<in> set operator_suffixes" "n = derivedName a s"
      "k \<in> {KDeployment, KService} \<Longrightarrow> s = ''valkey'' \<and> IsManaged (spCache (piSpec a))"
  | (bare) "n = inst_name a" "k \<in> {KDeployment, KService}"
proof -
  have "(\<exists>s \<in> set operator_suffixes. n = derivedName a s \<and>
      (k \<in> {KDeployment, KService} \<longrightarrow> s = ''valkey'' \<and> IsManaged (spCache (piSpec a)))) \<or>
    (n = inst_name a \<and> k \<in> {KDeployment, KService})"
    using assms unfolding object_names_def name_defs operator_suffixes_def
    by (auto split: if_splits)
  then show thesis using that by blast
qed

text \<open>
  The objects \<open>a\<close> and \<open>b\<close> both write because \<open>b\<close> is called as the cache that is managed for \<open>a\<close>.
\<close>

definition cache_clashes :: "PaperlessInstance \<Rightarrow> PaperlessInstance \<Rightarrow> object_key set" where
  "cache_clashes a b =
     (if inst_ns b = inst_ns a \<and> inst_name b = ValkeyName a \<and> IsManaged (spCache (piSpec a))
      then {(KDeployment, inst_ns a, inst_name b), (KService, inst_ns a, inst_name b)} else {})"

lemma cache_clashes_shared: "cache_clashes a b \<subseteq> set (object_keys a) \<inter> set (object_keys b)"
  by (auto simp: cache_clashes_def object_keys_iff object_names_def)

lemma shared_only_by_clash:
  assumes "(k, n) \<in> set (object_names a)" and "(k, n) \<in> set (object_names b)"
    and "inst_ns a = inst_ns b" and "inst_name a \<noteq> inst_name b"
  shows "(k, inst_ns a, n) \<in> cache_clashes a b \<union> cache_clashes b a"
  using assms(1)
proof (cases rule: object_names_cases)
  case (derived s)
  from assms(2) show ?thesis
  proof (cases rule: object_names_cases)
    case (derived t)
    then show ?thesis
      using derived.derived_name_eq [OF \<open>s \<in> _\<close> derived(1), of a b] \<open>n = derivedName a s\<close> assms(4) by simp
  next
    case bare
    then show ?thesis using derived assms(3) by (auto simp: cache_clashes_def name_defs)
  qed
next
  case bare
  from assms(2) show ?thesis
    by (cases rule: object_names_cases) (use bare assms(3,4) in \<open>auto simp: cache_clashes_def name_defs\<close>)
qed

text \<open>
  C6: Two different instances write no object in common, whatever their names and specifications,
  with one exception: in one namespace, when one of them is called after the cache that is
  managed for the other, the cache's Deployment and Service are the other's Paperless
  Deployment and Service. And no two objects of one instance are the same.
\<close>

theorem instances_share_only_cache_names:
  assumes "(inst_ns a, inst_name a) \<noteq> (inst_ns b, inst_name b)"
  shows "distinct (object_keys a) \<and>
    set (object_keys a) \<inter> set (object_keys b) = cache_clashes a b \<union> cache_clashes b a"
proof (intro conjI equalityI subsetI)
  show "distinct (object_keys a)" by (rule object_keys_distinct)
next
  fix k assume k: "k \<in> set (object_keys a) \<inter> set (object_keys b)"
  obtain kd ns n where "k = (kd, ns, n)" by (cases k)
  with k assms show "k \<in> cache_clashes a b \<union> cache_clashes b a"
    using shared_only_by_clash [of kd n a b] by (auto simp: object_keys_iff)
qed (use cache_clashes_shared [of a b] cache_clashes_shared [of b a] in auto)

theorem instances_share_only_cache_names_witness:
  "set (object_keys (bare_instance ''docs'' ''ns'' ''u'')) \<inter>
     set (object_keys (bare_instance ''docs-valkey'' ''ns'' ''v'')) =
   {(KDeployment, ''ns'', ''docs-valkey''), (KService, ''ns'', ''docs-valkey'')}"
  by (subst conjunct2 [OF instances_share_only_cache_names])
     (auto simp: bare_instance_def zero_spec_def cache_clashes_def name_defs derivedName_def IsManaged_def)

section \<open>A run writes only these\<close>

text \<open>
  An apply is the operator's own, forced, and of an object of the instance, and never of a
  secret; a secret that is created is one of the instance's.
\<close>

fun confined :: "PaperlessInstance \<Rightarrow> event \<Rightarrow> bool" where
  "confined inst (EvPatchApply obj b o' fo r) \<longleftrightarrow>
     o' = fieldOwner \<and> fo \<and> kind_of obj \<noteq> KSecret \<and> key_of obj \<in> set (object_keys inst)"
| "confined inst (EvCreateSecret s r) \<longleftrightarrow> key_of (OSecret s) \<in> set (object_keys inst)"
| "confined inst ev \<longleftrightarrow> True"

lemma step_objects_no_secret: "x \<in> set (step_objects L inst s) \<Longrightarrow> kind_of x \<noteq> KSecret"
  by (cases s) (auto simp: claim_objects_def cluster_objects_def cache_objects_def workload_objects_def
        split: go.splits sum.splits option.splits if_splits)

lemma confined_step_event:
  assumes L: "lib_laws L" and ev: "step_event L inst s ev"
  shows "confined inst ev"
proof (cases ev)
  case (EvPatchApply obj b o' fo r)
  with ev obtain x where x: "x \<in> set (step_objects L inst s)" "obj = with_refs (step_owners inst s) x"
    by auto
  then show ?thesis
    using EvPatchApply ev step_objects_keys [OF L x(1)] step_objects_no_secret [OF x(1)] by simp
next
  case (EvCreateSecret sec r)
  then show ?thesis using ev
    by (auto simp: generated_secret_names_def key_of_def object_keys_iff object_names_def)
qed auto

text \<open>
  A merge patch is the operator's own, and of a secret that was read before it, under a name of
  one of the instance's secrets.
\<close>

definition patches_read :: "PaperlessInstance \<Rightarrow> event list \<Rightarrow> bool" where
  "patches_read inst es \<longleftrightarrow> (\<forall>pre s b o' r post. es = pre @ EvPatchMerge s b o' r # post \<longrightarrow>
     o' = fieldOwner \<and> (\<exists>k \<in> set (generated_secret_names inst).
       EvGetSecret \<lparr>okNamespace = inst_ns inst, okName = k\<rparr> (Inr s) \<in> set pre))"

lemma patches_read_Nil [simp]: "patches_read inst []"
  by (simp add: patches_read_def)

lemma patches_read_append:
  assumes "patches_read inst es1" and "patches_read inst es2"
  shows "patches_read inst (es1 @ es2)"
  unfolding patches_read_def
proof (intro allI impI)
  fix pre s b o' r post assume "es1 @ es2 = pre @ EvPatchMerge s b o' r # post"
  then consider us where "es1 = pre @ EvPatchMerge s b o' r # us"
    | us where "pre = es1 @ us" "es2 = us @ EvPatchMerge s b o' r # post"
    by (auto simp: append_eq_append_conv2 Cons_eq_append_conv append_eq_Cons_conv)
  then show "o' = fieldOwner \<and> (\<exists>k \<in> set (generated_secret_names inst).
       EvGetSecret \<lparr>okNamespace = inst_ns inst, okName = k\<rparr> (Inr s) \<in> set pre)"
    using assms unfolding patches_read_def by cases fastforce+
qed

definition is_merge :: "event \<Rightarrow> bool" where
  "is_merge ev \<longleftrightarrow> (case ev of EvPatchMerge s b o' r \<Rightarrow> True | _ \<Rightarrow> False)"

lemma patches_read_none: "list_all (\<lambda>ev. \<not> is_merge ev) es \<Longrightarrow> patches_read inst es"
  by (auto simp: patches_read_def is_merge_def list_all_iff)

lemma patches_read_life:
  assumes life: "secret_life L inst name supplied es x" and name: "name \<in> set (generated_secret_names inst)"
  shows "patches_read inst es"
proof -
  have "\<not> is_merge e" if "is_draw e" for e
    using that by (auto simp: is_draw_def is_merge_def split: event.splits)
  then have dr: "list_all (\<lambda>e. \<not> is_merge e) draws" if "list_all is_draw draws" for draws
    using that by (auto simp: list_all_iff)
  from life show ?thesis
  proof (cases rule: secret_life_cases)
    case (found s rest)
    then show ?thesis
      using name unfolding patches_read_def
      by (cases rest) (auto simp: ownership_log_def only_owners_of_def Cons_eq_append_conv append_eq_Cons_conv intro!: bexI [of _ name])
  qed (auto simp: is_merge_def [of "EvGetSecret _ _"] is_merge_def [of "EvCreateSecret _ _"] dr intro!: patches_read_none)
qed

lemma patches_read_bind:
  assumes "wp p (\<lambda>es x. patches_read inst es)" and "\<And>x. wp (f x) (\<lambda>es x. patches_read inst es)"
  shows "wp (bind p f) (\<lambda>es x. patches_read inst es)"
  using assms(1)
  by (rule wp_bindI) (auto intro: wp_mono [OF assms(2)] patches_read_append)

lemma patches_read_quiet:
  "emits (\<lambda>ev. \<not> is_merge ev) p \<Longrightarrow> wp p (\<lambda>es x. patches_read inst es)"
  unfolding emits_def by (erule wp_mono) (rule patches_read_none)

lemma secrets_patches_read:
  assumes L: "lib_laws L"
  shows "wp (reconcileSecrets L inst) (\<lambda>es x. patches_read inst es)"
proof -
  have s: "wp (ensureGeneratedSecret L inst (SecretKeyName inst) (SecretKey L)) (\<lambda>es x. patches_read inst es)"
    by (rule wp_mono [OF secret_key_created_once [OF L]])
       (erule patches_read_life, simp add: generated_secret_names_def)
  have a: "wp (ensureGeneratedSecret L inst (AdminSecretName inst) (AdminSecret L)) (\<lambda>es x. patches_read inst es)"
    by (rule wp_mono [OF admin_secret_created_once [OF L]])
       (erule patches_read_life, simp add: generated_secret_names_def)
  show ?thesis
    unfolding reconcileSecrets_def check_def
    by (intro patches_read_bind [OF s]) (auto split: option.split intro!: patches_read_bind [OF a])
qed

lemma SetCondition_quiet: "emits (\<lambda>ev. \<not> is_merge ev) (SetCondition L i ty st re m)"
  by (simp add: SetCondition_def is_merge_def)

lemma stages_quiet:
  assumes L: "lib_laws L"
  shows "list_all (\<lambda>s. stage_ok L s \<and> sgTag s \<noteq> StSecrets) ss \<Longrightarrow> emits (\<lambda>ev. \<not> is_merge ev) (run_stages L ss inst)"
proof (induction ss arbitrary: inst)
  case (Cons s ss)
  then have "safe (step_event L inst (sgTag s)) (sgBody s inst)"
    using L by (simp add: stage_ok_def reconcile_step_def)
  then have "emits (\<lambda>ev. \<not> is_merge ev) (sgBody s inst)"
    unfolding safe_def emits_def using Cons.prems
    by (elim wp_mono) (auto simp: list_all_iff is_merge_def split: event.split)
  moreover have "emits (\<lambda>ev. \<not> is_merge ev) (after_stage L s (run_stages L ss) y)" for y
    using Cons
    by (cases "(L, s, run_stages L ss, y)" rule: after_stage.cases)
       (auto simp: step_failed_def database_not_ready_def intro!: emits_bind SetCondition_quiet)
  ultimately show ?case by (simp add: emits_bind)
qed simp

lemma patches_read_ignores_status:
  "only_conditions inst inst' \<Longrightarrow> patches_read inst' = patches_read inst"
  by (clarsimp simp: only_conditions_def patches_read_def fun_eq_iff)

lemma instance_patches_read:
  assumes L: "lib_laws L"
  shows "wp (reconcileInstance L inst) (\<lambda>es x. patches_read inst es)"
proof -
  obtain s ss where st: "stages L = s # ss" and bd: "sgBody s = unconditional (reconcileSecrets L)"
    and tl: "list_all (\<lambda>s. stage_ok L s \<and> sgTag s \<noteq> StSecrets) ss"
    using stages_ok [of L] unfolding stages_def by auto
  have "wp (after_stage L s (run_stages L ss) y) (\<lambda>es x. patches_read inst es)" for y
    by (rule patches_read_quiet)
       (cases "(L, s, run_stages L ss, y)" rule: after_stage.cases;
        auto simp: step_failed_def database_not_ready_def stages_quiet [OF L tl] intro!: emits_bind SetCondition_quiet)
  moreover have "wp (unconditional (reconcileSecrets L) inst) (\<lambda>es x. patches_read inst es)"
    unfolding unconditional_def
    by (rule patches_read_bind [OF secrets_patches_read [OF L]]) simp
  ultimately show ?thesis
    unfolding reconcileInstance_stages st run_stages.simps bd by (rule patches_read_bind [rotated])
qed

lemma Reconcile_patches_read:
  assumes L: "lib_laws L"
  shows "wp (Reconcile L req) (\<lambda>es x.
    case es of EvGetInstance k (Inr inst) # rest \<Rightarrow> patches_read inst rest | _ \<Rightarrow> True)"
proof -
  have inst: "wp (reconcileInstance L (set_at L t inst ty st re m)) (\<lambda>es x. patches_read inst es)" for t inst ty st re m
    using instance_patches_read [OF L, of "set_at L t inst ty st re m"]
      patches_read_ignores_status [of inst "set_at L t inst ty st re m"] by simp
  have "patches_read inst (EvNow t # es)" if "patches_read inst es" for inst t es
    using patches_read_append [OF _ that, of "[EvNow t]"] patches_read_none [of "[EvNow t]"]
    by (simp add: is_merge_def)
  then show ?thesis
    unfolding Reconcile_def Let_def bind_SetCondition
    by (auto split: sum.split prod.split option.split simp: patchStatus_def is_merge_def
      intro!: patches_read_bind patches_read_quiet wp_mono [OF patches_read_bind [OF inst]])
qed

end
