(* ===== verification/History.thy ===== *)
theory History
  imports Isolation
begin

text \<open>
  A cluster that is reconciled again and again. The API server stays unknown: it is any
  handler. A history is any interleaving of the requests of reconciliations, of any instances,
  with other changes (edits of an instance, its deletion, garbage collection).
\<close>

section \<open>Servers\<close>

text \<open>A server answers the request of an event in state \<open>w\<close> and goes to \<open>w'\<close>.\<close>

fun answers :: "'w handler \<Rightarrow> event \<Rightarrow> 'w \<Rightarrow> 'w \<Rightarrow> bool" where
  "answers h (EvGetInstance k r) w w' \<longleftrightarrow> hGetInstance h k w = (r, w')"
| "answers h (EvGetSecret k r) w w' \<longleftrightarrow> hGetSecret h k w = (r, w')"
| "answers h (EvGetCRD n r) w w' \<longleftrightarrow> hGetCRD h n w = (r, w')"
| "answers h (EvCreateSecret s r) w w' \<longleftrightarrow> hCreateSecret h s w = (r, w')"
| "answers h (EvPatchApply x b o' fo r) w w' \<longleftrightarrow> hPatchApply h x b o' fo w = (r, w')"
| "answers h (EvPatchMerge s b o' r) w w' \<longleftrightarrow> hPatchMerge h s b o' w = (r, w')"
| "answers h (EvPatchStatus i b r) w w' \<longleftrightarrow> hPatchStatus h i b w = (r, w')"
| "answers h (EvReadRand n r) w w' \<longleftrightarrow> hReadRand h n w = (r, w')"
| "answers h (EvNow t) w w' \<longleftrightarrow> hNow h w = (t, w')"

text \<open>An answer the server can give, in some state.\<close>

definition answered :: "'w handler \<Rightarrow> event \<Rightarrow> bool" where
  "answered h ev \<longleftrightarrow> (\<exists>w w'. answers h ev w w')"

lemma answeredI: "answers h ev w w' \<Longrightarrow> answered h ev"
  unfolding answered_def by blast

definition final :: "('a, 'w) outcome \<Rightarrow> 'w" where
  "final o' = snd (snd o')"

lemma final_logged [simp]: "final (logged e o') = final o'"
  by (simp add: final_def logged_def)

text \<open>One request of a tree: what is left of it, and the server's next state.\<close>

fun perform :: "'w handler \<Rightarrow> 'a prog \<Rightarrow> 'w \<Rightarrow> ('a prog \<times> 'w) option" where
  "perform h (Done x) w = None"
| "perform h (Crash m) w = None"
| "perform h (GetInstance k c) w = Some (map_prod c id (hGetInstance h k w))"
| "perform h (GetSecret k c) w = Some (map_prod c id (hGetSecret h k w))"
| "perform h (GetCRD n c) w = Some (map_prod c id (hGetCRD h n w))"
| "perform h (CreateSecret s c) w = Some (map_prod c id (hCreateSecret h s w))"
| "perform h (PatchApply x b o' fo c) w = Some (map_prod c id (hPatchApply h x b o' fo w))"
| "perform h (PatchMerge s b o' c) w = Some (map_prod c id (hPatchMerge h s b o' w))"
| "perform h (PatchStatus i b c) w = Some (map_prod c id (hPatchStatus h i b w))"
| "perform h (ReadRand n c) w = Some (map_prod c id (hReadRand h n w))"
| "perform h (Now c) w = Some (map_prod c id (hNow h w))"

lemma run_answered: "list_all (answered h) (events (run h p w))"
  by (induction p arbitrary: w)
     (auto simp: events_def [of "([], _)"] intro: answeredI [OF iffD2 [OF answers.simps(1)]]
       answeredI [OF iffD2 [OF answers.simps(2)]] answeredI [OF iffD2 [OF answers.simps(3)]]
       answeredI [OF iffD2 [OF answers.simps(4)]] answeredI [OF iffD2 [OF answers.simps(5)]]
       answeredI [OF iffD2 [OF answers.simps(6)]] answeredI [OF iffD2 [OF answers.simps(7)]]
       answeredI [OF iffD2 [OF answers.simps(8)]] answeredI [OF iffD2 [OF answers.simps(9)]]
       split: prod.split)

text \<open>
  \<open>emits_by h P p\<close>: every request of \<open>p\<close> is in \<open>P\<close> as long as the answers before it are answers
  of \<open>h\<close>.
\<close>

primrec by_log :: "'w handler \<Rightarrow> (event \<Rightarrow> bool) \<Rightarrow> event list \<Rightarrow> bool" where
  "by_log h P [] \<longleftrightarrow> True"
| "by_log h P (e # es) \<longleftrightarrow> P e \<and> (answered h e \<longrightarrow> by_log h P es)"

definition emits_by :: "'w handler \<Rightarrow> (event \<Rightarrow> bool) \<Rightarrow> 'a prog \<Rightarrow> bool" where
  "emits_by h P p \<longleftrightarrow> wp p (\<lambda>es x. by_log h P es)"

lemma emits_by_step:
  "wp p (\<lambda>es x. by_log h P (e # es)) \<longleftrightarrow> P e \<and> (answered h e \<longrightarrow> emits_by h P p)"
  by (cases "answered h e") (simp_all add: emits_by_def wp_conj)

lemma emits_by_basic [simp]:
  "emits_by h P (GetInstance k c0) \<longleftrightarrow> (\<forall>r. P (EvGetInstance k r) \<and> (answered h (EvGetInstance k r) \<longrightarrow> emits_by h P (c0 r)))"
  "emits_by h P (GetSecret k c1) \<longleftrightarrow> (\<forall>r. P (EvGetSecret k r) \<and> (answered h (EvGetSecret k r) \<longrightarrow> emits_by h P (c1 r)))"
  "emits_by h P (GetCRD n c2) \<longleftrightarrow> (\<forall>r. P (EvGetCRD n r) \<and> (answered h (EvGetCRD n r) \<longrightarrow> emits_by h P (c2 r)))"
  "emits_by h P (CreateSecret s c3) \<longleftrightarrow> (\<forall>r. P (EvCreateSecret s r) \<and> (answered h (EvCreateSecret s r) \<longrightarrow> emits_by h P (c3 r)))"
  "emits_by h P (PatchApply ob b o' fo c4) \<longleftrightarrow> (\<forall>r. P (EvPatchApply ob b o' fo r) \<and>
     (answered h (EvPatchApply ob b o' fo r) \<longrightarrow> emits_by h P (c4 r)))"
  "emits_by h P (PatchMerge s b o' c5) \<longleftrightarrow> (\<forall>r. P (EvPatchMerge s b o' r) \<and>
     (answered h (EvPatchMerge s b o' r) \<longrightarrow> emits_by h P (c5 r)))"
  "emits_by h P (PatchStatus i i' c6) \<longleftrightarrow> (\<forall>r. P (EvPatchStatus i i' r) \<and>
     (answered h (EvPatchStatus i i' r) \<longrightarrow> emits_by h P (c6 r)))"
  "emits_by h P (ReadRand j c7) \<longleftrightarrow> (\<forall>r. P (EvReadRand j r) \<and> (answered h (EvReadRand j r) \<longrightarrow> emits_by h P (c7 r)))"
  "emits_by h P (Now c8) \<longleftrightarrow> (\<forall>r. P (EvNow r) \<and> (answered h (EvNow r) \<longrightarrow> emits_by h P (c8 r)))"
  by (simp_all only: emits_by_def [of h P "GetInstance _ _"] emits_by_def [of h P "GetSecret _ _"]
      emits_by_def [of h P "GetCRD _ _"] emits_by_def [of h P "CreateSecret _ _"]
      emits_by_def [of h P "PatchApply _ _ _ _ _"] emits_by_def [of h P "PatchMerge _ _ _ _"]
      emits_by_def [of h P "PatchStatus _ _ _"] emits_by_def [of h P "ReadRand _ _"] emits_by_def [of h P "Now _"]
      wp_basic emits_by_step)

lemma perform_by:
  "perform h p w = Some (p', w') \<Longrightarrow> emits_by h P p \<Longrightarrow> \<exists>ev. P ev \<and> answers h ev w w' \<and> emits_by h P p'"
  by (cases p) (auto simp: map_prod_def split: prod.splits intro: answers.simps [THEN iffD2] answeredI)

section \<open>Histories\<close>

text \<open>
  \<open>history L h edits w ps w'\<close>: from \<open>w\<close>, with reconciliations of any instances and changes out of
  \<open>edits\<close>, in any order and number, the server has come to \<open>w'\<close>, and \<open>ps\<close> is what is left of the
  reconciliations. They may overlap, request by request, as when several workers or two
  replicas run; and one that is never continued is an operator that was killed half-way.
\<close>

inductive history :: "Lib \<Rightarrow> 'w handler \<Rightarrow> ('w \<Rightarrow> 'w) set \<Rightarrow> 'w \<Rightarrow> (Result \<times> err) prog list \<Rightarrow> 'w \<Rightarrow> bool"
    for L h edits w where
  start: "history L h edits w [] w"
| spawn: "history L h edits w ps w1 \<Longrightarrow> history L h edits w (Reconcile L req # ps) w1"
| request: "history L h edits w (ps @ p # qs) w1 \<Longrightarrow> perform h p w1 = Some (p', w2) \<Longrightarrow>
    history L h edits w (ps @ p' # qs) w2"
| edit: "history L h edits w ps w1 \<Longrightarrow> e \<in> edits \<Longrightarrow> history L h edits w ps (e w1)"

text \<open>A reconciliation that runs alone from its first request to its last is part of one.\<close>

lemma run_performs:
  "perform h p w = Some (p', w') \<Longrightarrow> final (run h p w) = final (run h p' w') \<and>
     length (events (run h p w)) = Suc (length (events (run h p' w')))"
  "perform h p w = None \<Longrightarrow> final (run h p w) = w"
  by (cases p; auto simp: final_def [of "(_, _, _)"] map_prod_def split: prod.splits)+

lemma history_run:
  "history L h edits w (p # ps) w1 \<Longrightarrow> \<exists>q. history L h edits w (q # ps) (final (run h p w1))"
proof (induction "length (events (run h p w1))" arbitrary: p w1 rule: less_induct)
  case less
  show ?case
  proof (cases "perform h p w1")
    case None
    then show ?thesis using less.prems run_performs(2) by metis
  next
    case (Some r)
    then obtain p' w2 where s: "perform h p w1 = Some (p', w2)" by (cases r) simp
    have "history L h edits w (p' # ps) w2"
      using history.request [of L h edits w "[]" p ps w1 p' w2] less.prems s by simp
    then show ?thesis using less.hyps [of p' w2] run_performs(1) [OF s] by simp
  qed
qed

text \<open>
  What a request of a reconciliation is, once an instance has been read: one a step may make,
  or the status patch; and if the server returns the secrets it is asked for, then what it
  writes is an object of the instance.
\<close>

definition reads_asked :: "event \<Rightarrow> bool" where
  "reads_asked ev \<longleftrightarrow> (case ev of EvGetSecret k (Inr s) \<Rightarrow>
     omNamespace (secMeta s) = okNamespace k \<and> omName (secMeta s) = okName k | _ \<Rightarrow> True)"

definition faithful_reads :: "'w handler \<Rightarrow> bool" where
  "faithful_reads h \<longleftrightarrow> (\<forall>ev. answered h ev \<longrightarrow> reads_asked ev)"

fun target :: "event \<Rightarrow> object_key option" where
  "target (EvCreateSecret s r) = Some (key_of (OSecret s))"
| "target (EvPatchApply obj b o' fo r) = Some (key_of obj)"
| "target (EvPatchMerge s b o' r) = Some (key_of (OSecret s))"
| "target ev = None"

definition requests_of :: "Lib \<Rightarrow> 'w handler \<Rightarrow> PaperlessInstance \<Rightarrow> event \<Rightarrow> bool" where
  "requests_of L h inst ev \<longleftrightarrow> is_status_patch ev \<or> (\<exists>s. step_event L inst s ev) \<and>
     (faithful_reads h \<longrightarrow> (\<forall>k. target ev = Some k \<longrightarrow> k \<in> set (object_keys inst)))"

text \<open>
  What is left of a reconciliation: all of it, nothing more to request, or requests of an
  instance that has been read.
\<close>

definition left_over :: "Lib \<Rightarrow> 'w handler \<Rightarrow> (PaperlessInstance \<Rightarrow> bool) \<Rightarrow> (Result \<times> err) prog \<Rightarrow> bool" where
  "left_over L h R p \<longleftrightarrow> (\<exists>req. p = Reconcile L req) \<or> emits_by h (\<lambda>ev. False) p \<or>
     (\<exists>inst. R inst \<and> emits_by h (requests_of L h inst) p)"

lemma by_logI:
  "(\<And>pre e post. es = pre @ e # post \<Longrightarrow> list_all (answered h) pre \<Longrightarrow> P e) \<Longrightarrow> by_log h P es"
proof (induction es)
  case (Cons e es)
  have "by_log h P es" if "answered h e"
  proof (rule Cons.IH)
    fix pre e' post assume "es = pre @ e' # post" "list_all (answered h) pre"
    then show "P e'" using Cons.prems [of "e # pre" e' post] that by simp
  qed
  then show ?case using Cons.prems [of "[]" e es] by simp
qed simp

lemma requests_of_log:
  assumes L: "lib_laws L" and es: "list_all (\<lambda>ev. (\<exists>s. step_event L inst s ev) \<or> is_status_patch ev) es"
    and pr: "patches_read inst es"
  shows "by_log h (requests_of L h inst) es"
proof (rule by_logI)
  fix pre e post assume e: "es = pre @ e # post" and pre: "list_all (answered h) pre"
  then have r: "(\<exists>s. step_event L inst s e) \<or> is_status_patch e" using es by simp
  show "requests_of L h inst e"
  proof (cases "is_status_patch e")
    case False
    with r obtain s where s: "step_event L inst s e" by blast
    have "k \<in> set (object_keys inst)" if k: "target e = Some k" and f: "faithful_reads h" for k
    proof (cases e)
      case (EvPatchMerge sec b o' u)
      then obtain n where n: "n \<in> set (generated_secret_names inst)"
        "EvGetSecret \<lparr>okNamespace = inst_ns inst, okName = n\<rparr> (Inr sec) \<in> set pre"
        using pr e unfolding patches_read_def by blast
      then have "reads_asked (EvGetSecret \<lparr>okNamespace = inst_ns inst, okName = n\<rparr> (Inr sec))"
        using pre f unfolding faithful_reads_def list_all_iff by blast
      then show ?thesis
        using k n(1) EvPatchMerge
        by (auto simp: reads_asked_def key_of_def object_keys_iff generated_secret_names_def object_names_def)
    qed (use k confined_step_event [OF L s] in auto)
    with s show ?thesis by (auto simp: requests_of_def)
  qed (simp add: requests_of_def)
qed

lemma Reconcile_reads:
  assumes L: "lib_laws L"
  obtains c where "Reconcile L req = GetInstance req c"
    and "\<And>e. emits_by h (\<lambda>ev. False) (c (Inl e))"
    and "\<And>inst. emits_by h (requests_of L h inst) (c (Inr inst))"
proof -
  obtain c where c: "Reconcile L req = GetInstance req c" by (simp add: Reconcile_def)
  have "wp (Reconcile L req) (\<lambda>es x. case es of EvGetInstance k (Inl e) # rest \<Rightarrow> rest = [] | _ \<Rightarrow> True)"
    by (rule wp_mono [OF Reconcile_runs [OF L]]) (auto simp: missing_run_def full_run_def)
  then have "wp (c (Inl e)) (\<lambda>es x. es = [])" for e
    unfolding c wp_basic by (drule_tac x = "Inl e" in spec) simp
  then have "emits_by h (\<lambda>ev. False) (c (Inl e))" for e
    unfolding emits_by_def by (rule wp_mono) simp
  moreover
  let ?P = "\<lambda>inst ev. (\<exists>s. step_event L inst s ev) \<or> is_status_patch ev"
  have "wp (Reconcile L req) (\<lambda>es x. (case es of
      EvGetInstance k (Inr inst) # rest \<Rightarrow> list_all (?P inst) rest | _ \<Rightarrow> True) \<and>
      (case es of EvGetInstance k (Inr inst) # rest \<Rightarrow> patches_read inst rest | _ \<Rightarrow> True))"
    unfolding wp_conj
    by (intro conjI reconcile_all_requests [OF L] Reconcile_patches_read [OF L]) (auto simp: is_status_patch_def)
  then have "emits_by h (requests_of L h inst) (c (Inr inst))" for inst
    unfolding c wp_basic emits_by_def
    by (drule_tac x = "Inr inst" in spec) (erule wp_mono, simp add: requests_of_log [OF L])
  ultimately show thesis using c that by blast
qed

text \<open>One request more: it reads an instance, or its answer is one to a request of an instance.\<close>

lemma left_over_performs:
  assumes L: "lib_laws L" and p: "left_over L h R p" and s: "perform h p w = Some (p', w')"
    and R: "\<And>req inst. hGetInstance h req w = (Inr inst, w') \<Longrightarrow> R inst"
  shows "left_over L h R p' \<and>
    ((\<exists>req r. hGetInstance h req w = (r, w')) \<or>
     (\<exists>inst ev. R inst \<and> requests_of L h inst ev \<and> answers h ev w w'))"
proof -
  from p consider (whole) req where "p = Reconcile L req" | (over) "emits_by h (\<lambda>ev. False) p"
    | (steps) inst where "R inst" "emits_by h (requests_of L h inst) p"
    unfolding left_over_def by blast
  then show ?thesis
  proof cases
    case whole
    obtain c where c: "Reconcile L req = GetInstance req c" "\<And>e. emits_by h (\<lambda>ev. False) (c (Inl e))"
      "\<And>inst. emits_by h (requests_of L h inst) (c (Inr inst))"
      using Reconcile_reads [OF L] by metis
    from s obtain r where r: "hGetInstance h req w = (r, w')" "p' = c r"
      by (auto simp: whole c(1) map_prod_def split: prod.splits)
    have "left_over L h R (c r)"
    proof (cases r)
      case (Inr inst)
      then have "R inst" using R r(1) by simp
      then show ?thesis using c(3) [of inst] unfolding left_over_def Inr by blast
    qed (use c(2) in \<open>simp add: left_over_def\<close>)
    with r show ?thesis by blast
  next
    case over
    then show ?thesis using perform_by [OF s over] by blast
  next
    case steps
    from perform_by [OF s steps(2)] steps(1) show ?thesis unfolding left_over_def by blast
  qed
qed

text \<open>
  An invariant of histories: reading an instance keeps it, every request of an instance that
  was read keeps it, writing a status keeps it, and so does every edit.
\<close>

lemma history_keeps:
  assumes L: "lib_laws L"
    and get: "\<And>req w r w'. hGetInstance h req w = (r, w') \<Longrightarrow> I w \<Longrightarrow> I w'"
    and step: "\<And>req ps w0 inst w1 s ev v v'. history L h edits w ps w0 \<Longrightarrow>
      hGetInstance h req w0 = (Inr inst, w1) \<Longrightarrow> step_event L inst s ev \<Longrightarrow> requests_of L h inst ev \<Longrightarrow>
      answers h ev v v' \<Longrightarrow> I v \<Longrightarrow> I v'"
    and status: "\<And>i b w r w'. hPatchStatus h i b w = (r, w') \<Longrightarrow> I w \<Longrightarrow> I w'"
    and edit: "\<And>e w. e \<in> edits \<Longrightarrow> I w \<Longrightarrow> I (e w)"
    and H: "history L h edits w ps w'" and init: "I w"
  shows "I w'"
proof -
  let ?R = "\<lambda>inst. \<exists>req ps w0 w1. history L h edits w ps w0 \<and> hGetInstance h req w0 = (Inr inst, w1)"
  have st: "I v'" if "?R inst" "requests_of L h inst ev" "answers h ev v v'" "I v" for inst ev v v'
  proof (cases "is_status_patch ev")
    case True
    then obtain i b u where "ev = EvPatchStatus i b u"
      by (auto simp: is_status_patch_def split: event.splits)
    then show ?thesis using status that(3,4) by simp
  next
    case False
    with that(2) obtain s where "step_event L inst s ev" unfolding requests_of_def by blast
    then show ?thesis using step that by blast
  qed
  from H have "I w' \<and> list_all (left_over L h ?R) ps"
  proof (induction rule: history.induct)
    case (spawn ps w1 req)
    then show ?case by (auto simp: left_over_def)
  next
    case (request ps p qs w1 p' w2)
    have "?R inst" if "hGetInstance h req w1 = (Inr inst, w2)" for req inst
      using request.hyps(1) that by blast
    moreover have "left_over L h ?R p" using request.IH by simp
    ultimately have "left_over L h ?R p'" and "(\<exists>req r. hGetInstance h req w1 = (r, w2)) \<or>
       (\<exists>inst ev. ?R inst \<and> requests_of L h inst ev \<and> answers h ev w1 w2)"
      using left_over_performs [OF L _ request.hyps(2), of ?R] by simp_all
    from this(2) have "I w2"
    proof (elim disjE exE conjE)
      fix req r assume "hGetInstance h req w1 = (r, w2)"
      then show "I w2" using get request.IH by blast
    qed (use st request.IH in blast)+
    with \<open>left_over L h ?R p'\<close> show ?case using request.IH by simp
  qed (use init edit in auto)
  then show ?thesis ..
qed

end
