(* ===== verification/Cluster.thy ===== *)
theory Cluster
  imports History
begin

text \<open>
  What follows for a cluster that is reconciled again and again, with two views of the server's
  state, the value of a secret and the owners of an object; what the theorems need of the
  server is stated as laws.
\<close>

section \<open>Generated secrets keep their values\<close>

text \<open>
  What is needed of the server about the values of secrets, \<open>val w k\<close>: a merge patch that only
  speaks of the owners leaves them alone, creating a secret never overwrites one, an apply
  changes no secret unless it applies one, and no other request of the operator writes.
\<close>

definition touches_secrets :: "event \<Rightarrow> bool" where
  "touches_secrets ev \<longleftrightarrow> (case ev of
     EvPatchMerge s b o' r \<Rightarrow> True
   | EvPatchApply obj b o' fo r \<Rightarrow> kind_of obj = KSecret
   | _ \<Rightarrow> False)"

definition keeps_value :: "('w \<Rightarrow> ObjectKey \<Rightarrow> 'v option) \<Rightarrow> 'w \<Rightarrow> 'w \<Rightarrow> bool" where
  "keeps_value val w w' \<longleftrightarrow> (\<forall>k v. val w k = Some v \<longrightarrow> val w' k = Some v)"

definition secret_server :: "Lib \<Rightarrow> 'w handler \<Rightarrow> ('w \<Rightarrow> ObjectKey \<Rightarrow> 'v option) \<Rightarrow> bool" where
  "secret_server L h val \<longleftrightarrow>
     (\<forall>ev w w'. answers h ev w w' \<longrightarrow> \<not> touches_secrets ev \<longrightarrow> keeps_value val w w') \<and>
     (\<forall>s b o' r refs w w'. answers h (EvPatchMerge s b o' r) w w' \<longrightarrow>
        libUnmarshalMap L b = Inr (Some (ownership_patch refs)) \<longrightarrow> keeps_value val w w')"

lemma step_keeps_values:
  assumes L: "lib_laws L" and S: "secret_server L h val"
    and ev: "step_event L inst s ev" and a: "answers h ev w w'"
  shows "keeps_value val w w'"
proof (cases "touches_secrets ev")
  case False
  then show ?thesis using S a by (simp add: secret_server_def)
next
  case True
  have "\<not> (\<exists>obj b o' fo r. ev = EvPatchApply obj b o' fo r)"
    using True confined_step_event [OF L ev] by (auto simp: touches_secrets_def)
  with True obtain sec b o' r where e: "ev = EvPatchMerge sec b o' r"
    by (auto simp: touches_secrets_def split: event.splits)
  with ev obtain refs where "libUnmarshalMap L b = Inr (Some (ownership_patch refs))" by auto
  with S a e show ?thesis unfolding secret_server_def by blast
qed

lemma quiet_keeps_values:
  "secret_server L h val \<Longrightarrow> answers h ev w w' \<Longrightarrow> \<not> touches_secrets ev \<Longrightarrow> keeps_value val w w'"
  by (simp add: secret_server_def)

text \<open>
  C11: A generated secret never rotates. However often any instances are reconciled, overlapping,
  killed half-way or not, under whatever policies, faults and answers, and whatever else
  happens in between that leaves the values of secrets alone, a secret that exists keeps its
  value: the Django key and the admin password are written once.
\<close>

theorem secrets_never_rotate:
  assumes L: "lib_laws L" and S: "secret_server L h val"
    and E: "\<And>e w. e \<in> edits \<Longrightarrow> keeps_value val w (e w)"
    and H: "history L h edits w ps w'" and V: "val w k = Some v"
  shows "val w' k = Some v"
proof (rule history_keeps [OF L _ _ _ _ H, where I = "\<lambda>w. val w k = Some v"])
  fix req u r u' assume "hGetInstance h req u = (r, u')" "val u k = Some v"
  then show "val u' k = Some v"
    using quiet_keeps_values [OF S, of "EvGetInstance req r" u u']
    by (simp add: touches_secrets_def keeps_value_def)
next
  fix i b u r u' assume "hPatchStatus h i b u = (r, u')" "val u k = Some v"
  then show "val u' k = Some v"
    using quiet_keeps_values [OF S, of "EvPatchStatus i b r" u u']
    by (simp add: touches_secrets_def keeps_value_def)
next
  fix req ps w0 inst w1 s ev u u'
  assume "step_event L inst s ev" "answers h ev u u'" "val u k = Some v"
  then show "val u' k = Some v" using step_keeps_values [OF L S] by (auto simp: keeps_value_def)
qed (use E V in \<open>auto simp: keeps_value_def\<close>)

section \<open>Retained data survives\<close>

text \<open>
  \<open>own w k\<close> are the owners the server has for an object: the UIDs in its owner references, or
  nothing when there is no such object. What is needed of the server about objects that are not secrets: an apply that states
  owners gives the applied object no others than those and the ones it had, and does not
  touch another object; no other request of the operator writes one. A server-side apply may
  leave an owner in place, since it owns only the entries its manager applied.
\<close>

definition is_apply :: "event \<Rightarrow> bool" where
  "is_apply ev \<longleftrightarrow> (case ev of EvPatchApply obj b o' fo r \<Rightarrow> True | _ \<Rightarrow> False)"

definition owner_server :: "Lib \<Rightarrow> 'w handler \<Rightarrow> ('w \<Rightarrow> object_key \<Rightarrow> string set option) \<Rightarrow> bool" where
  "owner_server L h own \<longleftrightarrow>
     (\<forall>obj b o' fo r refs w w' k. answers h (EvPatchApply obj b o' fo r) w w' \<longrightarrow>
        states_owners L b refs \<longrightarrow>
        (if k = key_of obj
         then (\<forall>us. own w k = Some us \<longrightarrow>
                 (\<exists>us'. own w' k = Some us' \<and> us' \<subseteq> us \<union> orUID ` set refs))
         else own w' k = own w k)) \<and>
     (\<forall>ev w w' k. answers h ev w w' \<longrightarrow>
        \<not> is_apply ev \<longrightarrow> fst k \<noteq> KSecret \<longrightarrow>
        own w' k = own w k)"

lemma other_requests:
  "owner_server L h own \<Longrightarrow> answers h ev w w' \<Longrightarrow> \<not> is_apply ev \<Longrightarrow> fst k \<noteq> KSecret \<Longrightarrow>
   own w' k = own w k"
  unfolding owner_server_def by blast

text \<open>The objects with an instance's documents and database: its four claims and its cluster.\<close>

definition data_keys :: "string \<Rightarrow> string \<Rightarrow> object_key set" where
  "data_keys ns n = {(KPVC, ns, n @ ''-'' @ s) | s. s \<in> set [''data'', ''media'', ''consume'', ''export'']} \<union>
     {(KUnstructured, ns, n @ ''-db'')}"

text \<open>
  Whoever applies one of these objects is an instance of that very name, and it states the
  owners the deletion policy asks for.
\<close>

lemma cache_names:
  "x \<in> set (cache_objects L inst) \<Longrightarrow> kind_of x \<noteq> KUnstructured \<and>
     (kind_of x = KPVC \<longrightarrow> obj_name x = derivedName inst ''valkey'')"
  by (auto simp: cache_objects_def builder_simps name_defs
      split: option.splits go.splits dest!: ValkeyPVC_built [OF sym] ValkeyPVC_built)

lemma workload_kinds: "x \<in> set (workload_objects L inst) \<Longrightarrow> kind_of x \<in> {KDeployment, KService}"
  by (auto simp: workload_objects_def)

lemma data_suffixes:
  "''db'' \<in> set operator_suffixes" "''valkey'' \<in> set operator_suffixes"
  "s \<in> set [''data'', ''media'', ''consume'', ''export''] \<Longrightarrow> s \<in> set operator_suffixes"
  by (auto simp: operator_suffixes_def)

lemma same_name:
  assumes "derivedName inst s = n @ ''-'' @ t" "s \<in> set operator_suffixes" "t \<in> set operator_suffixes"
  shows "inst_name inst = n \<and> s = t"
  using assms derived.same_suffix [OF assms(2,3), of "inst_name inst" n] by (simp add: derivedName_def)

lemma data_owner:
  assumes L: "lib_laws L" and ev: "step_event L inst st (EvPatchApply obj b o' fo r)"
    and k: "key_of obj \<in> data_keys ns n"
  shows "inst_ns inst = ns \<and> inst_name inst = n \<and> states_owners L b (stateful_owners inst)"
proof -
  from ev obtain x where x: "x \<in> set (step_objects L inst st)" "obj = with_refs (step_owners inst st) x"
      and b: "body_ok L obj b" by auto
  have key: "key_of obj = (kind_of x, inst_ns inst, obj_name x)"
    using x step_objects_fresh [OF x(1)] by (simp add: key_of_def fresh_for_def)
  have own: "states_owners L b (step_owners inst st)" using b x(2) by (simp add: body_ok_def)
  show ?thesis
  proof (cases st)
    case StStorage
    then have "x \<in> set (claim_objects L inst)" using x(1) by simp
    note c = claim_names [OF L this]
    from c(2) obtain s where s: "s \<in> set [''data'', ''media'', ''consume'', ''export'']"
        "obj_name x = derivedName inst s" by blast
    from k key c(1) s(2) obtain t where t: "t \<in> set [''data'', ''media'', ''consume'', ''export'']"
        "derivedName inst s = n @ ''-'' @ t" and "inst_ns inst = ns"
      by (auto simp: data_keys_def)
    then show ?thesis
      using same_name [OF t(2)] data_suffixes(3) s(1) own StStorage by auto
  next
    case StDatabase
    then have "kind_of x = KUnstructured \<and> obj_name x = derivedName inst ''db''"
      using x(1) cluster_names by (auto split: if_splits)
    then have "derivedName inst ''db'' = n @ ''-'' @ ''db''" "inst_ns inst = ns"
      using k key by (auto simp: data_keys_def)
    then show ?thesis using same_name data_suffixes(1) own StDatabase by auto
  next
    case StCache
    then have c: "x \<in> set (cache_objects L inst)" using x(1) by simp
    then obtain t where "t \<in> set [''data'', ''media'', ''consume'', ''export'']"
        "derivedName inst ''valkey'' = n @ ''-'' @ t"
      using cache_names [OF c] k key by (auto simp: data_keys_def)
    then have "''valkey'' = t" using same_name data_suffixes(2,3) by blast
    with \<open>t \<in> _\<close> have "''valkey'' \<in> set [''data'', ''media'', ''consume'', ''export'']" by metis
    then show ?thesis by simp
  next
    case StWorkload
    then have "kind_of x \<in> {KDeployment, KService}" using x(1) workload_kinds by simp
    then show ?thesis using k key by (auto simp: data_keys_def)
  qed (use x in simp)
qed

lemma step_keeps_unowned:
  assumes L: "lib_laws L" and S: "owner_server L h own"
    and ev: "step_event L inst st ev" and a: "answers h ev w w'"
    and P: "inst_name inst = n \<and> inst_ns inst = ns \<Longrightarrow> spDeletionPolicy (piSpec inst) \<noteq> DeletionPolicyDelete"
    and k: "k \<in> data_keys ns n" and I: "own w k = Some {}"
  shows "own w' k = Some {}"
proof (cases "is_apply ev")
  case False
  have "fst k \<noteq> KSecret" using k by (auto simp: data_keys_def)
  then show ?thesis using other_requests [OF S a False] I by simp
next
  case True
  then obtain obj b o' fo r where e: "ev = EvPatchApply obj b o' fo r"
    by (auto simp: is_apply_def split: event.splits)
  obtain refs where refs: "states_owners L b refs" using ev e by (auto simp: body_ok_def)
  have law: "if k = key_of obj then (\<forall>us. own w k = Some us \<longrightarrow>
        (\<exists>us'. own w' k = Some us' \<and> us' \<subseteq> us \<union> orUID ` set refs)) else own w' k = own w k"
    if "states_owners L b refs" for refs
    using S a that unfolding owner_server_def e by blast
  show ?thesis
  proof (cases "k = key_of obj")
    case False
    then show ?thesis using law [OF refs] I by simp
  next
    case True
    have d: "inst_ns inst = ns \<and> inst_name inst = n \<and> states_owners L b (stateful_owners inst)"
      by (rule data_owner [OF L ev [unfolded e]]) (use k True in simp)
    then have "stateful_owners inst = []"
      using P by (simp add: stateful_owners_def DeletionPolicyOrDefault_def)
    then show ?thesis using law [of "stateful_owners inst"] d True I by auto
  qed
qed

text \<open>
  C10: Under the policy that retains data, an instance's documents and database outlive it. As long
  as no instance of that name is read with the policy \<open>Delete\<close>, no reconciliations of this and
  of any other instances, overlapping or killed half-way, give its four claims or its cluster
  an owner; so they are there, unowned, after every change that spares objects without owners,
  such as deleting the instance and collecting what it owns.
\<close>

theorem retained_data_survives:
  assumes L: "lib_laws L" and S: "owner_server L h own"
    and P: "\<And>req qs v inst v'. history L h edits w qs v \<Longrightarrow> hGetInstance h req v = (Inr inst, v') \<Longrightarrow>
      inst_name inst = n \<and> inst_ns inst = ns \<Longrightarrow> spDeletionPolicy (piSpec inst) \<noteq> DeletionPolicyDelete"
    and E: "\<And>e w k. e \<in> edits \<Longrightarrow> own w k = Some {} \<Longrightarrow> own (e w) k = Some {}"
    and H: "history L h edits w ps w'" and k: "k \<in> data_keys ns n" and I: "own w k = Some {}"
  shows "own w' k = Some {}"
proof (rule history_keeps [OF L _ _ _ _ H, where I = "\<lambda>w. own w k = Some {}"])
  have quiet: "own u' k = own u k" if "answers h ev u u'"
      "\<not> is_apply ev" for ev u u'
    using other_requests [OF S that(1,2)] k by (auto simp: data_keys_def)
  show "own u' k = Some {}" if "hGetInstance h req u = (r, u')" "own u k = Some {}" for req u r u'
    using quiet [of "EvGetInstance req r" u u'] that by (simp add: is_apply_def)
  show "own u' k = Some {}" if "hPatchStatus h i b u = (r, u')" "own u k = Some {}" for i b u r u'
    using quiet [of "EvPatchStatus i b r" u u'] that by (simp add: is_apply_def)
  show "own u' k = Some {}"
    if "history L h edits w qs w0" "hGetInstance h req w0 = (Inr inst, w1)" "step_event L inst s ev"
      "answers h ev u u'" "own u k = Some {}" for req qs w0 inst w1 s ev u u'
    using step_keeps_unowned [OF L S that(3,4) P [OF that(1,2)] k that(5)] by blast
qed (use E I in auto)

section \<open>A reference server\<close>

text \<open>
  A small server that satisfies the laws, so they can hold: it stores instances, secrets and, for
  every other object, the owners the body of the last apply states; it finds what it stores,
  refuses to create a secret twice, puts the owners of a merge patch in place of the secret's,
  and accepts every other patch.
\<close>

record cluster =
  clInstances :: "ObjectKey \<rightharpoonup> PaperlessInstance"
  clSecrets :: "ObjectKey \<rightharpoonup> Secret"
  clOwners :: "object_key \<rightharpoonup> string set"
  clTime :: nat

definition found :: "'a option \<Rightarrow> gerror + 'a" where
  "found x = (case x of None \<Rightarrow> Inl (ErrorStatus ''NotFound'' ''not found'') | Some y \<Rightarrow> Inr y)"

definition secret_key_of :: "Secret \<Rightarrow> ObjectKey" where
  "secret_key_of s = \<lparr>okNamespace = omNamespace (secMeta s), okName = omName (secMeta s)\<rparr>"

definition stored_secret :: "cluster \<Rightarrow> ObjectKey \<Rightarrow> Secret option" where
  "stored_secret w k = (case clSecrets w k of None \<Rightarrow> None | Some s \<Rightarrow> if secret_key_of s = k then Some s else None)"

definition uid_of :: "json \<Rightarrow> string option" where
  "uid_of j = (case j of JObj m \<Rightarrow> (case m ''uid'' of Some (JStr u) \<Rightarrow> Some u | _ \<Rightarrow> None) | _ \<Rightarrow> None)"

definition uids_of :: "json option \<Rightarrow> string set" where
  "uids_of j = (case j of Some (JArr js) \<Rightarrow> set (List.map_filter uid_of js) | _ \<Rightarrow> {})"

text \<open>Owner references, decoded.\<close>

definition owner_of_json :: "json \<Rightarrow> OwnerReference" where
  "owner_of_json j =
     (let m = case j of JObj m \<Rightarrow> m | _ \<Rightarrow> Map.empty;
          str = (\<lambda>k. case m k of Some (JStr s) \<Rightarrow> s | _ \<Rightarrow> []);
          flag = (\<lambda>k. case m k of Some (JBool b) \<Rightarrow> Some b | _ \<Rightarrow> None)
      in \<lparr>orAPIVersion = str ''apiVersion'', orKind = str ''kind'', orName = str ''name'', orUID = str ''uid'',
          orController = flag ''controller'', orBlockOwnerDeletion = flag ''blockOwnerDeletion''\<rparr>)"

lemma owner_of_json_map [simp]: "owner_of_json (JObj (owner_reference_map r)) = r"
  by (cases r) (auto simp: owner_of_json_def owner_reference_map_def map_add_def split: option.split)

definition merge_owners :: "Lib \<Rightarrow> document \<Rightarrow> Secret \<Rightarrow> Secret" where
  "merge_owners L b s = (case body_field L b [''metadata'', ''ownerReferences''] of
     Some (JArr js) \<Rightarrow> s\<lparr>secMeta := (secMeta s)\<lparr>omOwnerReferences := map owner_of_json js\<rparr>\<rparr>
   | _ \<Rightarrow> s)"

lemma merge_owners_sel [simp]:
  "omName (secMeta (merge_owners L b s)) = omName (secMeta s)"
  "omNamespace (secMeta (merge_owners L b s)) = omNamespace (secMeta s)"
  "secStringData (merge_owners L b s) = secStringData s"
  "secret_key_of (merge_owners L b s) = secret_key_of s"
  by (simp_all add: merge_owners_def secret_key_of_def split: option.split json.split)

lemma merge_ownership_patch:
  "libUnmarshalMap L b = Inr (Some (ownership_patch refs)) \<Longrightarrow>
   merge_owners L b s = s\<lparr>secMeta := (secMeta s)\<lparr>omOwnerReferences := refs\<rparr>\<rparr>"
  by (simp add: merge_owners_def body_field_def ownership_patch_def owners_json_def comp_def)

definition ref_server :: "Lib \<Rightarrow> cluster handler" where
  "ref_server L = \<lparr>
     hGetInstance = (\<lambda>k w. (found (clInstances w k), w)),
     hGetSecret = (\<lambda>k w. (found (stored_secret w k), w)),
     hGetCRD = (\<lambda>n w. (None, w)),
     hCreateSecret = (\<lambda>s w.
       if clSecrets w (secret_key_of s) \<noteq> None
       then (Some (ErrorStatus ''AlreadyExists'' ''already exists''), w)
       else (None, w\<lparr>clSecrets := (clSecrets w)(secret_key_of s \<mapsto> s)\<rparr>)),
     hPatchApply = (\<lambda>obj b o' fo w.
       (Inr obj, w\<lparr>clOwners := (clOwners w)(key_of obj \<mapsto>
          uids_of (body_field L b [''metadata'', ''ownerReferences'']))\<rparr>)),
     hPatchMerge = (\<lambda>s b o' w.
       case stored_secret w (secret_key_of s) of
         None \<Rightarrow> (Some (ErrorStatus ''NotFound'' ''not found''), w)
       | Some old \<Rightarrow> (None, w\<lparr>clSecrets := (clSecrets w)(secret_key_of s \<mapsto> merge_owners L b old)\<rparr>)),
     hPatchStatus = (\<lambda>i b w.
       case clInstances w \<lparr>okNamespace = inst_ns i, okName = inst_name i\<rparr> of
         None \<Rightarrow> (Some (ErrorStatus ''NotFound'' ''not found''), w)
       | Some old \<Rightarrow> (None, w\<lparr>clInstances := (clInstances w)
           (\<lparr>okNamespace = inst_ns i, okName = inst_name i\<rparr> \<mapsto> old\<lparr>piStatus := piStatus i\<rparr>)\<rparr>)),
     hReadRand = (\<lambda>n w. (Inr (\<lambda>_. 0), w)),
     hNow = (\<lambda>w. (clTime w, w\<lparr>clTime := Suc (clTime w)\<rparr>))\<rparr>"

definition secret_value :: "cluster \<Rightarrow> ObjectKey \<Rightarrow> (string \<rightharpoonup> string) option" where
  "secret_value w k = map_option secStringData (clSecrets w k)"

lemma owner_uid: "owner_reference_map r ''uid'' = Some (JStr (orUID r))"
  by (simp add: owner_reference_map_def map_add_def split: option.split)

lemma ref_server_secrets: "secret_server L (ref_server L) secret_value"
proof -
  have "keeps_value secret_value w w'" if "answers (ref_server L) ev w w'" for ev w w'
    using that
    by (cases ev) (auto simp: ref_server_def keeps_value_def secret_value_def stored_secret_def
      split: if_splits option.splits)
  then show ?thesis unfolding secret_server_def by blast
qed

lemma ref_server_owners: "owner_server L (ref_server L) clOwners"
  unfolding owner_server_def
proof (intro conjI allI impI)
  fix obj b o' fo r refs w w' k
  assume a: "answers (ref_server L) (EvPatchApply obj b o' fo r) w w'" and b: "states_owners L b refs"
  have "uids_of (Some (owners_json refs)) \<subseteq> orUID ` set refs"
    by (auto simp: uids_of_def uid_of_def owners_json_def owner_uid map_filter_def)
  then show "if k = key_of obj
      then \<forall>us. clOwners w k = Some us \<longrightarrow>
        (\<exists>us'. clOwners w' k = Some us' \<and> us' \<subseteq> us \<union> orUID ` set refs)
      else clOwners w' k = clOwners w k"
    using a b by (auto simp: ref_server_def states_owners_def)
next
  fix ev w w' and k :: object_key
  assume "answers (ref_server L) ev w w'" "\<not> is_apply ev"
  then show "clOwners w' k = clOwners w k"
    by (cases ev) (auto simp: ref_server_def is_apply_def split: if_splits option.splits)
qed

text \<open>Deleting an instance, and collecting every object that only it owned.\<close>

definition delete_instance :: "ObjectKey \<Rightarrow> string \<Rightarrow> cluster \<Rightarrow> cluster" where
  "delete_instance k uid w = w\<lparr>
     clInstances := (clInstances w)(k := None),
     clOwners := (\<lambda>x. case clOwners w x of
        None \<Rightarrow> None
      | Some us \<Rightarrow> if us \<noteq> {} \<and> us \<subseteq> {uid} then None else Some us)\<rparr>"

definition docs_key :: ObjectKey where
  "docs_key = \<lparr>okNamespace = ''ns'', okName = ''docs''\<rparr>"

definition docs_cluster :: cluster where
  "docs_cluster = \<lparr>
     clInstances = [docs_key \<mapsto> bare_instance ''docs'' ''ns'' ''u''],
     clSecrets = [\<lparr>okNamespace = ''ns'', okName = ''docs-secret-key''\<rparr> \<mapsto>
       \<lparr>secMeta = new_meta ''docs-secret-key'' ''ns'' Map.empty, secData = Map.empty,
        secStringData = [''PAPERLESS_SECRET_KEY'' \<mapsto> ''s3cret'']\<rparr>],
     clOwners = [(KPVC, ''ns'', ''docs-media'') \<mapsto> {}],
     clTime = 0\<rparr>"

text \<open>Reconciled, deleted with everything it owned, and reconciled again: the secret is the same.\<close>

definition docs_life :: "cluster \<Rightarrow> cluster" where
  "docs_life w =
     (let reconciled = \<lambda>w. final (run (ref_server ref_lib) (Reconcile ref_lib docs_key) w)
      in reconciled (delete_instance docs_key ''u'' (reconciled w)))"

lemma docs_history:
  "\<exists>ps. history ref_lib (ref_server ref_lib) {delete_instance docs_key ''u''} docs_cluster ps (docs_life docs_cluster)"
proof -
  let ?H = "history ref_lib (ref_server ref_lib) {delete_instance docs_key ''u''} docs_cluster"
  have alone: "\<exists>qs. ?H qs (final (run (ref_server ref_lib) (Reconcile ref_lib docs_key) w))" if "?H ps w" for ps w
    using history_run [OF history.spawn [OF that]] by blast
  from alone [OF history.start] obtain ps where
    "?H ps (final (run (ref_server ref_lib) (Reconcile ref_lib docs_key) docs_cluster))" by blast
  from alone [OF history.edit [OF this, of "delete_instance docs_key ''u''"]] show ?thesis
    by (simp add: docs_life_def Let_def)
qed

theorem secrets_never_rotate_witness:
  "secret_value (docs_life docs_cluster) \<lparr>okNamespace = ''ns'', okName = ''docs-secret-key''\<rparr> =
     Some [''PAPERLESS_SECRET_KEY'' \<mapsto> ''s3cret'']"
proof -
  obtain ps where H: "history ref_lib (ref_server ref_lib) {delete_instance docs_key ''u''} docs_cluster ps
      (docs_life docs_cluster)" using docs_history by blast
  show ?thesis
  proof (rule secrets_never_rotate [OF ref_lib_laws ref_server_secrets _ H])
  show "keeps_value secret_value w (e w)" if "e \<in> {delete_instance docs_key ''u''}" for e w
    using that by (simp add: keeps_value_def secret_value_def delete_instance_def)
  show "secret_value docs_cluster \<lparr>okNamespace = ''ns'', okName = ''docs-secret-key''\<rparr> =
      Some [''PAPERLESS_SECRET_KEY'' \<mapsto> ''s3cret'']"
    by (simp add: secret_value_def docs_cluster_def)
  qed
qed

text \<open>No instance of the history asks for deletion.\<close>

definition retains :: "cluster \<Rightarrow> bool" where
  "retains w \<longleftrightarrow> (\<forall>k i. clInstances w k = Some i \<longrightarrow> spDeletionPolicy (piSpec i) \<noteq> DeletionPolicyDelete)"

lemma docs_retained:
  assumes "history ref_lib (ref_server ref_lib) {delete_instance docs_key ''u''} docs_cluster ps w"
  shows "retains w"
proof (rule history_keeps [OF ref_lib_laws _ _ _ _ assms, where I = retains])
  show "retains docs_cluster"
    by (simp add: retains_def docs_cluster_def bare_instance_def zero_spec_def DeletionPolicyDelete_def)
  have keep: "retains w'" if "answers (ref_server ref_lib) ev w w'" "retains w" for ev w w'
    using that by (cases ev) (auto simp: ref_server_def retains_def split: if_splits option.splits)
  show "retains w'" if "hGetInstance (ref_server ref_lib) req w = (r, w')" "retains w" for req w r w'
    using keep [of "EvGetInstance req r" w w'] that by simp
  show "retains w'" if "hPatchStatus (ref_server ref_lib) i b w = (r, w')" "retains w" for i b w r w'
    using keep [of "EvPatchStatus i b r" w w'] that by simp
  show "retains v'" if "answers (ref_server ref_lib) ev v v'" "retains v" for ev v v'
    using keep that .
qed (auto simp: retains_def delete_instance_def)

theorem retained_data_survives_witness:
  "clOwners (docs_life docs_cluster) (KPVC, ''ns'', ''docs-media'') = Some {}"
proof -
  obtain ps where H: "history ref_lib (ref_server ref_lib) {delete_instance docs_key ''u''} docs_cluster ps
      (docs_life docs_cluster)" using docs_history by blast
  show ?thesis
  proof (rule retained_data_survives [OF ref_lib_laws ref_server_owners _ _ H,
      where n = "''docs''" and ns = "''ns''"])
  show "spDeletionPolicy (piSpec inst) \<noteq> DeletionPolicyDelete"
    if "history ref_lib (ref_server ref_lib) {delete_instance docs_key ''u''} docs_cluster qs v"
      "hGetInstance (ref_server ref_lib) req v = (Inr inst, v')" for req qs v inst v'
    using docs_retained [OF that(1)] that(2)
    by (auto simp: retains_def ref_server_def found_def split: option.splits)
  show "clOwners (e w) k = Some {}" if "e \<in> {delete_instance docs_key ''u''}" "clOwners w k = Some {}"
    for e w and k :: object_key
    using that by (simp add: delete_instance_def)
  qed (simp_all add: data_keys_def docs_cluster_def)
qed

end
