(* ===== verification/Tenancy.thy ===== *)
theory Tenancy
  imports Cluster
begin

text \<open>
  Instances next to each other. Whatever is reconciled, and however often, the objects of an
  instance change only on its own behalf; so what a deleted instance leaves behind is left
  alone by the others.
\<close>

text \<open>
  What is needed of the server about all that it stores, \<open>view w k\<close>: a request changes no object
  but the one it names, and reading a secret returns the secret that was asked for.
\<close>

definition object_server :: "'w handler \<Rightarrow> ('w \<Rightarrow> object_key \<Rightarrow> 'v) \<Rightarrow> bool" where
  "object_server h view \<longleftrightarrow> faithful_reads h \<and>
     (\<forall>ev w w' k. answers h ev w w' \<longrightarrow> target ev \<noteq> Some k \<longrightarrow> view w' k = view w k)"

lemma untargeted:
  "object_server h view \<Longrightarrow> answers h ev w w' \<Longrightarrow> target ev \<noteq> Some k \<Longrightarrow> view w' k = view w k"
  unfolding object_server_def by blast

text \<open>Another instance, and neither is called after the other's managed cache.\<close>

definition apart :: "PaperlessInstance \<Rightarrow> PaperlessInstance \<Rightarrow> bool" where
  "apart a b \<longleftrightarrow> (inst_ns a, inst_name a) \<noteq> (inst_ns b, inst_name b) \<and>
     cache_clashes a b = {} \<and> cache_clashes b a = {}"

lemma apart_disjoint: "apart a b \<Longrightarrow> set (object_keys a) \<inter> set (object_keys b) = {}"
  using shared_only_by_clash [of _ _ a b] by (fastforce simp: apart_def object_keys_iff)

text \<open>
  C7: The operator changes an instance's objects only for that instance. As long as the only
  instances that are read are apart from it, no reconciliations, overlapping or killed
  half-way, under whatever policies, faults and answers, change anything the server has under
  the names of its secrets, claims, cluster, cache and workload: neither while the instance
  lives nor after it has been deleted.
\<close>

theorem other_instances_leave_objects_alone:
  assumes L: "lib_laws L" and S: "object_server h view"
    and P: "\<And>req qs v inst v'. history L h edits w qs v \<Longrightarrow> hGetInstance h req v = (Inr inst, v') \<Longrightarrow> apart inst me"
    and E: "\<And>e w. e \<in> edits \<Longrightarrow> view (e w) k = view w k"
    and H: "history L h edits w ps w'" and k: "k \<in> set (object_keys me)"
  shows "view w' k = view w k"
proof (rule history_keeps [OF L _ _ _ _ H, where I = "\<lambda>u. view u k = view w k"])
  show "view u' k = view w k" if "hGetInstance h req u = (r, u')" "view u k = view w k" for req u r u'
    using untargeted [OF S, of "EvGetInstance req r" u u' k] that by simp
  show "view u' k = view w k" if "hPatchStatus h i b u = (r, u')" "view u k = view w k" for i b u r u'
    using untargeted [OF S, of "EvPatchStatus i b r" u u' k] that by simp
  show "view u' k = view w k"
    if "history L h edits w qs w0" "hGetInstance h req w0 = (Inr inst, w1)" "step_event L inst s ev"
      "requests_of L h inst ev" "answers h ev u u'" "view u k = view w k" for req qs w0 inst w1 s ev u u'
  proof -
    have "faithful_reads h" using S unfolding object_server_def ..
    then have "is_status_patch ev \<or> (\<forall>k'. target ev = Some k' \<longrightarrow> k' \<in> set (object_keys inst))"
      using that(4) unfolding requests_of_def by blast
    moreover have "k \<notin> set (object_keys inst)" using apart_disjoint [OF P [OF that(1,2)]] k by blast
    moreover have "target ev = None" if "is_status_patch ev"
      using that by (cases ev) (simp_all add: is_status_patch_def)
    ultimately have "target ev \<noteq> Some k" by (metis option.distinct(1))
    then show ?thesis using untargeted [OF S that(5)] that(6) by simp
  qed
qed (use E in auto)

section \<open>Two instances on the reference server\<close>

text \<open>What the reference server has of an object.\<close>

definition stored :: "cluster \<Rightarrow> object_key \<Rightarrow> string set option \<times> Secret option" where
  "stored w k = (case k of (kd, ns, n) \<Rightarrow>
     (clOwners w k, if kd = KSecret then clSecrets w \<lparr>okNamespace = ns, okName = n\<rparr> else None))"

lemma ref_server_objects: "object_server (ref_server L) stored"
  unfolding object_server_def
proof (intro conjI allI impI)
  have "reads_asked ev" if "answers (ref_server L) ev w w'" for ev w w'
    using that by (cases ev) (auto simp: ref_server_def reads_asked_def found_def stored_secret_def
        secret_key_of_def split: option.splits if_splits sum.splits)
  then show "faithful_reads (ref_server L)" unfolding faithful_reads_def answered_def by blast
next
  fix ev w w' and k :: object_key
  assume "answers (ref_server L) ev w w'" "target ev \<noteq> Some k"
  then show "stored w' k = stored w k"
    by (cases ev; cases k) (auto simp: ref_server_def stored_def key_of_def secret_key_of_def
        split: option.splits if_splits)
qed

definition notes_key :: ObjectKey where
  "notes_key = \<lparr>okNamespace = ''ns'', okName = ''notes''\<rparr>"

text \<open>The instance \<open>docs\<close> is gone and has left its key and its media; \<open>notes\<close> is reconciled.\<close>

definition notes_cluster :: cluster where
  "notes_cluster = docs_cluster\<lparr>clInstances := [notes_key \<mapsto> bare_instance ''notes'' ''ns'' ''v'']\<rparr>"

definition only_notes :: "cluster \<Rightarrow> bool" where
  "only_notes w \<longleftrightarrow> (\<forall>k i. clInstances w k = Some i \<longrightarrow> inst_name i = ''notes'' \<and> inst_ns i = ''ns'')"

lemma only_notes_read:
  assumes "history ref_lib (ref_server ref_lib) {} notes_cluster ps w"
  shows "only_notes w"
proof (rule history_keeps [OF ref_lib_laws _ _ _ _ assms, where I = only_notes])
  show "only_notes notes_cluster"
    by (simp add: only_notes_def notes_cluster_def bare_instance_def)
  have keep: "only_notes w'" if "answers (ref_server ref_lib) ev w w'" "only_notes w" for ev w w'
    using that by (cases ev) (auto simp: ref_server_def only_notes_def split: if_splits option.splits)
  show "only_notes w'" if "hGetInstance (ref_server ref_lib) req w = (r, w')" "only_notes w" for req w r w'
    using keep [of "EvGetInstance req r" w w'] that by simp
  show "only_notes w'" if "hPatchStatus (ref_server ref_lib) i b w = (r, w')" "only_notes w" for i b w r w'
    using keep [of "EvPatchStatus i b r" w w'] that by simp
  show "only_notes v'" if "answers (ref_server ref_lib) ev v v'" "only_notes v" for ev v v'
    using keep that .
qed auto

theorem other_instances_leave_objects_alone_witness:
  "stored (final (run (ref_server ref_lib) (Reconcile ref_lib notes_key) notes_cluster)) (KPVC, ''ns'', ''docs-media'') =
   (Some {}, None)"
proof -
  let ?me = "bare_instance ''docs'' ''ns'' ''u''"
  obtain ps where H: "history ref_lib (ref_server ref_lib) {} notes_cluster ps
      (final (run (ref_server ref_lib) (Reconcile ref_lib notes_key) notes_cluster))"
    using history_run [OF history.spawn [OF history.start], of ref_lib "ref_server ref_lib" "{}" notes_cluster notes_key]
    by blast
  have "stored (final (run (ref_server ref_lib) (Reconcile ref_lib notes_key) notes_cluster)) (KPVC, ''ns'', ''docs-media'') =
      stored notes_cluster (KPVC, ''ns'', ''docs-media'')"
  proof (rule other_instances_leave_objects_alone [OF ref_lib_laws ref_server_objects _ _ H, where me = ?me])
    show "apart inst ?me"
      if "history ref_lib (ref_server ref_lib) {} notes_cluster qs v"
        "hGetInstance (ref_server ref_lib) req v = (Inr inst, v')" for req qs v inst v'
    proof -
      have "inst_name inst = ''notes''"
        using only_notes_read [OF that(1)] that(2)
        by (auto simp: only_notes_def ref_server_def found_def split: option.splits)
      then show ?thesis
        by (auto simp: apart_def cache_clashes_def ValkeyName_def derivedName_def bare_instance_def)
    qed
  qed (auto simp: object_keys_iff object_names_def name_defs derivedName_def bare_instance_def)
  then show ?thesis by (simp add: stored_def notes_cluster_def docs_cluster_def)
qed

end
