(* ===== verification/Request_Bounds.thy ===== *)
theory Request_Bounds
  imports Step_Properties
begin

text \<open>
  How many requests a piece of the operator makes, whatever the answers. \<open>within a b p\<close>: at
  most \<open>a\<close> readings (of the API server, the random source, the clock) and at most \<open>b\<close> writes.
  Nothing is assumed of the third-party functions either.
\<close>

section \<open>Counting\<close>

definition is_write :: "event \<Rightarrow> bool" where
  "is_write ev \<longleftrightarrow> (case ev of
     EvCreateSecret s r \<Rightarrow> True | EvPatchApply obj b o' fo r \<Rightarrow> True | EvPatchMerge s b o' r \<Rightarrow> True
   | EvPatchStatus i i' r \<Rightarrow> True | _ \<Rightarrow> False)"

lemma is_write_simps [simp]:
  "\<not> is_write (EvGetInstance k r0)" "\<not> is_write (EvGetSecret k r1)" "\<not> is_write (EvGetCRD n r2)"
  "is_write (EvCreateSecret s r3)" "is_write (EvPatchApply obj b o' fo r4)"
  "is_write (EvPatchMerge s b o' r5)" "is_write (EvPatchStatus i i' r6)"
  "\<not> is_write (EvReadRand j r7)" "\<not> is_write (EvNow t)"
  by (simp_all add: is_write_def)

definition readings :: "event list \<Rightarrow> nat" where
  "readings es = length (filter (\<lambda>ev. \<not> is_write ev) es)"

definition writes :: "event list \<Rightarrow> nat" where
  "writes es = length (filter is_write es)"

lemma count_simps [simp]:
  "readings [] = 0" "writes [] = 0"
  "readings (e # es) = (if is_write e then readings es else Suc (readings es))"
  "writes (e # es) = (if is_write e then Suc (writes es) else writes es)"
  "readings (es @ es') = readings es + readings es'"
  "writes (es @ es') = writes es + writes es'"
  by (simp_all add: readings_def writes_def)

lemma readings_writes: "length es = readings es + writes es"
  unfolding readings_def writes_def using sum_length_filter_compl [of is_write es] by simp

definition within :: "nat \<Rightarrow> nat \<Rightarrow> 'a prog \<Rightarrow> bool" where
  "within a b p \<longleftrightarrow> wp p (\<lambda>es x. readings es \<le> a \<and> writes es \<le> b)"

lemma within_basic [simp]:
  "within a b (Done y)"
  "within a b (Crash m)"
  "within (Suc a) b (GetInstance k c0) \<longleftrightarrow> (\<forall>r. within a b (c0 r))"
  "within (Suc a) b (GetSecret k c1) \<longleftrightarrow> (\<forall>r. within a b (c1 r))"
  "within (Suc a) b (GetCRD n c2) \<longleftrightarrow> (\<forall>r. within a b (c2 r))"
  "within a (Suc b) (CreateSecret s c3) \<longleftrightarrow> (\<forall>r. within a b (c3 r))"
  "within a (Suc b) (PatchApply ob d o' fo c4) \<longleftrightarrow> (\<forall>r. within a b (c4 r))"
  "within a (Suc b) (PatchMerge s d o' c5) \<longleftrightarrow> (\<forall>r. within a b (c5 r))"
  "within a (Suc b) (PatchStatus i i' c6) \<longleftrightarrow> (\<forall>r. within a b (c6 r))"
  "within (Suc a) b (ReadRand j c7) \<longleftrightarrow> (\<forall>r. within a b (c7 r))"
  "within (Suc a) b (Now c8) \<longleftrightarrow> (\<forall>r. within a b (c8 r))"
  by (simp_all add: within_def)

lemma within_mono: "within a b p \<Longrightarrow> a \<le> a' \<Longrightarrow> b \<le> b' \<Longrightarrow> within a' b' p"
  unfolding within_def by (erule wp_mono) simp

lemma within_bind:
  assumes "within a b p" and "\<And>x. within a' b' (f x)"
  shows "within (a + a') (b + b') (bind p f)"
  unfolding within_def
proof (rule wp_bindI)
  show "wp p (\<lambda>es x. readings es \<le> a \<and> writes es \<le> b)" using assms(1) by (simp add: within_def)
  show "wp (f x) (\<lambda>es'. \<lambda>x. readings (es @ es') \<le> a + a' \<and> writes (es @ es') \<le> b + b')"
    if "readings es \<le> a \<and> writes es \<le> b" for es x
    by (rule wp_mono [OF assms(2) [of x, unfolded within_def]]) (use that in simp)
qed auto

text \<open>The form in which it is applied: the sums are checked afterwards.\<close>

lemma within_bindI:
  "within a b p \<Longrightarrow> (\<And>x. within a' b' (f x)) \<Longrightarrow> a + a' \<le> n \<Longrightarrow> b + b' \<le> m \<Longrightarrow> within n m (bind p f)"
  by (rule within_mono [OF within_bind])

lemma within_check: 
  "within a b p \<Longrightarrow> within a' b' rest \<Longrightarrow> a + a' \<le> n \<Longrightarrow> b + b' \<le> m \<Longrightarrow> within n m (check p onerr rest)"
  unfolding check_def by (rule within_bindI) (auto split: option.split)

lemma within_lift_go [simp]: "within a b (lift_go m)"
  by (cases m) auto

section \<open>The operations\<close>

lemma within_Apply: "within 0 (Suc 0) (Apply L obj)"
  unfolding Apply_def
  by (auto split: sum.split intro!: within_bindI [of 0 0 "lift_go _" 0 1])

lemma within_applyOwned: "within 0 (Suc 0) (applyOwned L inst obj)"
  by (auto simp: applyOwned_def within_Apply split: sum.split)

lemma within_applyStateful: "within 0 (Suc 0) (applyStateful L inst obj)"
  by (auto simp: applyStateful_def within_Apply split: sum.split)

lemma within_error_of: "within a b p \<Longrightarrow> within a b (error_of p)"
  unfolding error_of_def by (rule within_bindI [of a b _ 0 0]) (auto split: sum.split)

lemma within_SetCondition [simp]: "within (Suc a) b (SetCondition L inst ty st re m)"
  by (simp add: SetCondition_def)

lemma within_ownership: "within 0 (Suc 0) (reconcileSecretOwnership L inst secret)"
  by (auto simp: reconcileSecretOwnership_def Let_def split: sum.split option.split)

lemma draws_read: "list_all is_draw es \<Longrightarrow> readings es = length es \<and> writes es = 0"
  by (induction es) (auto simp: is_draw_def split: event.splits)

context secret_builder
begin

lemma within_build: "within (Suc 0) 0 (build L inst)"
  unfolding within_def
  by (rule wp_mono [OF builds]) (elim exE conjE, simp add: draws_read)

lemma within_ensure: "within 2 1 (ensureGeneratedSecret L inst name (build L))"
proof -
  have "within (Suc (Suc 0)) (Suc 0) (ensureGeneratedSecret L inst name (build L))"
    unfolding ensureGeneratedSecret_def
    by (auto split: sum.split option.split intro!: within_bindI [OF within_build, of 0 1]
        within_mono [OF within_ownership])
  then show ?thesis by (simp add: numeral_2_eq_2)
qed

end

lemma within_reconcileSecrets: "within 4 2 (reconcileSecrets L inst)"
  unfolding reconcileSecrets_def
  by (rule within_check [OF secret_key.within_ensure within_check [OF admin_secret.within_ensure]]) auto

lemma within_applyPVCs: "within 0 (length ps) (applyPVCs L inst ps)"
  by (induction ps) (auto intro!: within_check [OF within_error_of [OF within_applyStateful]])

lemma PVCs_length: "PVCs L inst = Value ps \<Longrightarrow> length ps = 4"
  by (auto simp: PVCs_def Let_def go_bind_Value_iff)

lemma within_reconcileStorage: "within 0 4 (reconcileStorage L inst)"
proof (cases "PVCs L inst")
  case (Value ps)
  then show ?thesis
    using within_applyPVCs [of ps L inst] PVCs_length by (simp add: reconcileStorage_def)
qed (simp add: reconcileStorage_def)

lemma within_requireKeys: "within (Suc 0) 0 (requireKeys L inst ext secret keys)"
  by (induction keys) (auto intro!: within_bindI [of "Suc 0" 0 _ 0 0])

lemma within_reconcileDatabase: "within 2 1 (reconcileDatabase L inst)"
proof -
  have set: "within (Suc 0) b (bind (SetCondition L inst ty st re m) (\<lambda>i. Done (i, v)))" for b ty st re m and v :: "gerror + bool"
    by (rule within_bindI [of "Suc 0" b _ 0 0]) auto
  have "within (Suc (Suc 0)) (Suc 0) (reconcileDatabase L inst)"
    unfolding reconcileDatabase_def reconcileExternalDatabase_def reconcileManagedDatabase_def
      cnpgInstalled_def Let_def
    by (auto simp: set within_mono [OF within_requireKeys]
        intro!: within_bindI [of 0 0 "lift_go _" 1 1]
          within_bindI [OF within_error_of [OF within_applyStateful], of 1 0]
        split: option.split sum.split bool.split)
  then show ?thesis by (simp add: numeral_2_eq_2)
qed

lemma within_reconcileCache: "within 0 3 (reconcileCache L inst)"
proof -
  note own = within_error_of [OF within_applyOwned]
  show ?thesis
    unfolding reconcileCache_def
    by (rule within_check [of 0 1 _ 0 2] within_check [of 0 1 _ 0 1] within_check [of 0 1 _ 0 0]
        within_bindI [of 0 0 "lift_go _" 0 1] | auto intro!: own split: option.split)+
qed

section \<open>A whole reconciliation\<close>

lemma within_step_failed [simp]: "within (Suc a) b (step_failed L inst reason context e)"
  by (simp add: step_failed_def SetCondition_def)

lemma within_database_not_ready [simp]: "within (Suc a) b (database_not_ready L inst)"
  by (simp add: database_not_ready_def SetCondition_def)

text \<open>A workload that fails has not set the condition itself, so it is set once either way.\<close>

lemma within_workload_end:
  "within (Suc 0) 2 (bind (reconcileWorkload L inst) (\<lambda>(inst, err). case err of
       Some e \<Rightarrow> step_failed L inst ''WorkloadApplyFailed'' ''reconciling workload'' e
     | None \<Rightarrow> Done (inst, zero_result, None)))"
proof -
  have "within (Suc 0) (Suc 0 + Suc 0) (bind (reconcileWorkload L inst) (\<lambda>(inst, err). case err of
       Some e \<Rightarrow> step_failed L inst ''WorkloadApplyFailed'' ''reconciling workload'' e
     | None \<Rightarrow> Done (inst, zero_result, None)))"
    unfolding reconcileWorkload_def bind_assoc
    by (rule within_bindI [OF within_error_of [OF within_applyOwned], of "Suc 0" "Suc 0"])
       (auto simp: Let_def bind_assoc SetCondition_def
         intro!: within_bindI [OF within_applyOwned, of "Suc 0" 0] split: option.split sum.split)
  then show ?thesis by (simp add: numeral_2_eq_2)
qed

lemma within_reconcileInstance: "within 7 12 (reconcileInstance L inst)"
proof -
  have cache: "within (Suc 0) 5 (bind (reconcileCache L i) (\<lambda>err. case err of
       Some e \<Rightarrow> step_failed L i ''CacheNotReady'' ''reconciling cache'' e
     | None \<Rightarrow> bind (reconcileWorkload L i) (\<lambda>(inst, err). case err of
         Some e \<Rightarrow> step_failed L inst ''WorkloadApplyFailed'' ''reconciling workload'' e
       | None \<Rightarrow> Done (inst, zero_result, None))))" for i
    by (rule within_bindI [OF within_reconcileCache, of "Suc 0" 2])
       (auto intro: within_workload_end split: option.split)
  have database: "within 3 6 (bind (reconcileDatabase L inst) (\<lambda>(inst, dbReady). case dbReady of
       Inl e \<Rightarrow> step_failed L inst ''DatabaseNotReady'' ''reconciling database'' e
     | Inr False \<Rightarrow> database_not_ready L inst
     | Inr True \<Rightarrow> bind (reconcileCache L inst) (\<lambda>err. case err of
       Some e \<Rightarrow> step_failed L inst ''CacheNotReady'' ''reconciling cache'' e
     | None \<Rightarrow> bind (reconcileWorkload L inst) (\<lambda>(inst, err). case err of
         Some e \<Rightarrow> step_failed L inst ''WorkloadApplyFailed'' ''reconciling workload'' e
       | None \<Rightarrow> Done (inst, zero_result, None)))))"
    by (rule within_bindI [OF within_reconcileDatabase, of "Suc 0" 5])
       (auto intro: cache split: sum.split bool.split)
  have storage: "within 3 10 (bind (reconcileStorage L inst) (\<lambda>err. case err of
       Some e \<Rightarrow> step_failed L inst ''StorageNotReady'' ''reconciling storage'' e
     | None \<Rightarrow> bind (reconcileDatabase L inst) (\<lambda>(inst, dbReady). case dbReady of
       Inl e \<Rightarrow> step_failed L inst ''DatabaseNotReady'' ''reconciling database'' e
     | Inr False \<Rightarrow> database_not_ready L inst
     | Inr True \<Rightarrow> bind (reconcileCache L inst) (\<lambda>err. case err of
       Some e \<Rightarrow> step_failed L inst ''CacheNotReady'' ''reconciling cache'' e
     | None \<Rightarrow> bind (reconcileWorkload L inst) (\<lambda>(inst, err). case err of
         Some e \<Rightarrow> step_failed L inst ''WorkloadApplyFailed'' ''reconciling workload'' e
       | None \<Rightarrow> Done (inst, zero_result, None))))))"
    by (rule within_bindI [OF within_reconcileStorage, of 3 6])
       (auto intro: database within_mono [OF within_step_failed] split: option.split)
  show ?thesis
    unfolding reconcileInstance_def
    by (rule within_bindI [OF within_reconcileSecrets, of 3 10])
       (auto intro: storage within_mono [OF within_step_failed] split: option.split)
qed

lemma within_Reconcile: "within 9 13 (Reconcile L req)"
proof -
  have "within (Suc (Suc a)) b (Reconcile L req)" if "7 \<le> a" "13 \<le> b" for a b
    using that unfolding Reconcile_def patchStatus_def Let_def
    by (auto simp: SetCondition_def split: sum.split prod.split option.split
        intro!: within_bindI [OF within_reconcileInstance, of 0 "Suc 0"])
  from this [of 7 13] show ?thesis by simp
qed

text \<open>
  C16: Every reconciliation ends, and soon: whatever the API server, the random source, the clock
  and the libraries answer, it makes at most 22 requests, 13 of them writes. There is no retry
  and no loop over anything but the four claims and the two keys of a secret, so a failing
  server is asked again only through the work queue.
\<close>

theorem reconcile_is_bounded:
  "wp (Reconcile L req) (\<lambda>es x. length es \<le> 22 \<and> writes es \<le> 13)"
  by (rule wp_mono [OF within_Reconcile [unfolded within_def]]) (simp add: readings_writes)

end
