(* ===== verification/Completion.thy ===== *)
theory Completion
  imports Reconciliation Step_Properties
begin

text \<open>
  What success means. Each step that reports no error has done all of its work, whatever the
  answers were; so a reconciliation that returns neither an error nor a requeue has.
\<close>

section \<open>What a tree guarantees when it returns\<close>

definition yields :: "'a prog \<Rightarrow> (event list \<Rightarrow> 'a \<Rightarrow> bool) \<Rightarrow> bool" where
  "yields p R \<longleftrightarrow> wp p (\<lambda>es x. \<forall>y. x = Value y \<longrightarrow> R es y)"

lemma yields_basic [simp]:
  "yields (Done y) R \<longleftrightarrow> R [] y"
  "yields (Crash m) R"
  "yields (GetInstance k c0) R \<longleftrightarrow> (\<forall>r. yields (c0 r) (\<lambda>es. R (EvGetInstance k r # es)))"
  "yields (GetSecret k c1) R \<longleftrightarrow> (\<forall>r. yields (c1 r) (\<lambda>es. R (EvGetSecret k r # es)))"
  "yields (GetCRD n c2) R \<longleftrightarrow> (\<forall>r. yields (c2 r) (\<lambda>es. R (EvGetCRD n r # es)))"
  "yields (PatchApply ob b o' fo c4) R \<longleftrightarrow> (\<forall>r. yields (c4 r) (\<lambda>es. R (EvPatchApply ob b o' fo r # es)))"
  "yields (PatchStatus i i' c6) R \<longleftrightarrow> (\<forall>r. yields (c6 r) (\<lambda>es. R (EvPatchStatus i i' r # es)))"
  "yields (Now c8) R \<longleftrightarrow> (\<forall>r. yields (c8 r) (\<lambda>es. R (EvNow r # es)))"
  by (simp_all add: yields_def)

lemma yields_mono: "yields p S \<Longrightarrow> (\<And>es y. S es y \<Longrightarrow> R es y) \<Longrightarrow> yields p R"
  unfolding yields_def by (erule wp_mono) auto

lemma yields_conj: "yields p S \<Longrightarrow> yields p R \<Longrightarrow> yields p (\<lambda>es y. S es y \<and> R es y)"
  unfolding yields_def wp_def by blast

lemma yields_results: "results R p \<Longrightarrow> yields p (\<lambda>es. R)"
  unfolding yields_def results_def by (erule wp_mono) auto

lemma yields_bind:
  assumes "yields p S" and "\<And>es y. S es y \<Longrightarrow> yields (f y) (\<lambda>es'. R (es @ es'))"
  shows "yields (bind p f) R"
  unfolding yields_def
  by (rule wp_bindI [OF assms(1) [unfolded yields_def]]) (auto dest: assms(2) simp: yields_def)

lemma yields_check:
  assumes "yields p (\<lambda>es e. e = None \<longrightarrow> S es)"
    and "\<And>es. S es \<Longrightarrow> yields rest (\<lambda>es'. R (es @ es'))" and "\<And>es e. R es (onerr e)"
  shows "yields (check p onerr rest) R"
  unfolding check_def
  by (rule yields_bind [OF assms(1)]) (use assms(2,3) in \<open>auto split: option.split\<close>)

section \<open>Applied objects and secrets\<close>

text \<open>What the API server has accepted.\<close>

definition accepted :: "event list \<Rightarrow> kobject set" where
  "accepted es = {x. \<exists>b r. EvPatchApply x b fieldOwner True (Inr r) \<in> set es}"

lemma accepted_simps [simp]:
  "accepted [] = {}"
  "accepted (es @ es') = accepted es \<union> accepted es'"
  "accepted (EvPatchApply x b fieldOwner True (Inr r) # es) = insert x (accepted es)"
  by (auto simp: accepted_def)

lemma accepted_Cons: "accepted es \<subseteq> accepted (e # es)"
  by (auto simp: accepted_def)

lemma apply_log_accepted:
  "apply_log L owners objs es (Value None) \<Longrightarrow> x \<in> set objs \<Longrightarrow> with_refs owners x \<in> accepted es"
proof (induction objs arbitrary: es)
  case (Cons ob objs)
  then obtain b r es' where es: "es = EvPatchApply (with_refs owners ob) b fieldOwner True r # es'"
    and r: "case r of Inl e \<Rightarrow> es' = [] \<and> (\<exists>p p'. (Value None :: err go) = Value (Some (ErrorWrap p (ErrorWrap p' e))))
         | Inr a \<Rightarrow> apply_log L owners objs es' (Value None)" by auto
  show ?case using es r Cons.IH [of es'] Cons.prems(2) by (cases r) auto
qed simp

text \<open>Every object of a step was accepted, with the owners of its class.\<close>

definition all_applied :: "Lib \<Rightarrow> PaperlessInstance \<Rightarrow> step \<Rightarrow> event list \<Rightarrow> bool" where
  "all_applied L inst s es \<longleftrightarrow>
     (\<forall>x \<in> set (step_objects L inst s). with_refs (step_owners inst s) x \<in> accepted es)"

lemma all_applied_append [simp]:
  "all_applied L inst s es \<Longrightarrow> all_applied L inst s (es @ es')"
  "all_applied L inst s es' \<Longrightarrow> all_applied L inst s (es @ es')"
  "all_applied L inst s es \<Longrightarrow> all_applied L inst s (e # es)"
  using accepted_Cons [of es e] by (auto simp: all_applied_def)

text \<open>A secret of that name was found or has been created.\<close>

definition secured :: "PaperlessInstance \<Rightarrow> string \<Rightarrow> event list \<Rightarrow> bool" where
  "secured inst name es \<longleftrightarrow>
     (\<exists>s. EvGetSecret \<lparr>okNamespace = inst_ns inst, okName = name\<rparr> (Inr s) \<in> set es) \<or>
     (\<exists>s. EvCreateSecret s None \<in> set es \<and> omName (secMeta s) = name \<and>
        omNamespace (secMeta s) = inst_ns inst)"

lemma secured_simps [simp]:
  "secured inst name (es @ es') \<longleftrightarrow> secured inst name es \<or> secured inst name es'"
  by (auto simp: secured_def)

lemma secured_Cons: "secured inst name es \<Longrightarrow> secured inst name (e # es)"
  by (auto simp: secured_def)

lemma life_secured:
  assumes "secret_life L inst name supplied es (Value None)"
  shows "secured inst name es \<or> supplied"
  using assms by (cases rule: secret_life_cases) (auto simp: secured_def)

section \<open>The steps\<close>

text \<open>What the steps have done when they report no error and nothing to wait for.\<close>

lemma secrets_done:
  assumes L: "lib_laws L"
  shows "yields (reconcileSecrets L inst) (\<lambda>es e. e = None \<longrightarrow>
    (secured inst (SecretKeyName inst) es \<or> spSecretKeySecretRef (piSpec inst) \<noteq> None) \<and>
    (secured inst (AdminSecretName inst) es \<or> admin_supplied inst))"
proof -
  have "yields (ensureGeneratedSecret L inst (SecretKeyName inst) (SecretKey L)) (\<lambda>es e. e = None \<longrightarrow>
      secured inst (SecretKeyName inst) es \<or> spSecretKeySecretRef (piSpec inst) \<noteq> None)"
    unfolding yields_def by (rule wp_mono [OF secret_key_created_once [OF L]]) (auto dest: life_secured)
  moreover have "yields (ensureGeneratedSecret L inst (AdminSecretName inst) (AdminSecret L)) (\<lambda>es e. e = None \<longrightarrow>
      secured inst (AdminSecretName inst) es \<or> admin_supplied inst)"
    unfolding yields_def by (rule wp_mono [OF admin_secret_created_once [OF L]]) (auto dest: life_secured)
  ultimately show ?thesis
    unfolding reconcileSecrets_def by (elim yields_check) auto
qed

lemma storage_done:
  assumes L: "lib_laws L"
  shows "yields (reconcileStorage L inst) (\<lambda>es e. e = None \<longrightarrow> all_applied L inst StStorage es)"
  unfolding yields_def
  by (rule wp_mono [OF conjunct1 [OF storage_applied_in_order [OF L]]])
     (auto simp: all_applied_def dest: apply_log_accepted)

lemma cache_done:
  assumes L: "lib_laws L"
  shows "yields (reconcileCache L inst) (\<lambda>es e. e = None \<longrightarrow> all_applied L inst StCache es)"
  unfolding yields_def
  by (rule wp_mono [OF conjunct1 [OF cache_applied_in_order [OF L]]])
     (auto simp: all_applied_def dest: apply_log_accepted)

lemma apply_done:
  assumes L: "lib_laws L" and T: "typed_object x"
  shows "yields (error_of (Apply L (with_refs owners x))) (\<lambda>es e. e = None \<longrightarrow> with_refs owners x \<in> accepted es)"
proof -
  obtain b p where "Apply L (with_refs owners x) = PatchApply (with_refs owners x) b fieldOwner True
      (\<lambda>r. Done (case r of Inl e \<Rightarrow> Inl (ErrorWrap p e) | Inr obj' \<Rightarrow> Inr obj'))"
    using applied_value [OF L T] by blast
  then show ?thesis by (auto simp: error_of_def split: sum.split)
qed

definition database_ready :: "PaperlessInstance \<Rightarrow> bool" where
  "database_ready inst \<longleftrightarrow> (\<exists>re. says inst ConditionDatabaseReady ConditionTrue re)"

lemma database_ready_set: "condition_laws L \<Longrightarrow> database_ready (set_at L t inst ConditionDatabaseReady ConditionTrue re m)"
  by (auto simp: database_ready_def says_set_at)

lemma database_done:
  assumes L: "lib_laws L"
  shows "yields (reconcileDatabase L inst) (\<lambda>es x. snd x = Inr True \<longrightarrow>
    all_applied L inst StDatabase es \<and> database_ready (fst x))"
proof (cases "dbExternal (spDatabase (piSpec inst))")
  case (Some ext)
  then have "all_applied L inst StDatabase es" for es by (simp add: all_applied_def IsExternal_def)
  then show ?thesis
    using Some
    by (auto simp: reconcileDatabase_def reconcileExternalDatabase_def Let_def bind_SetCondition
        database_ready_set lib_lawsD(2) [OF L] split: sum.split)
next
  case None
  obtain r where r: "CNPGCluster L inst = Value r"
    using CNPGCluster_valid [OF lib_lawsD(1) [OF L] lib_lawsD(7) [OF L]] CNPGCluster_invalid by metis
  have cl: "yields (error_of (applyStateful L inst (OUnstructured c)))
      (\<lambda>es e. e = None \<longrightarrow> all_applied L inst StDatabase es)" if "r = Inr c" for c
  proof -
    have objs: "step_objects L inst StDatabase = [OUnstructured c]"
      using None r that by (simp add: cluster_objects_def IsExternal_def)
    then have c: "OUnstructured c \<in> set (step_objects L inst StDatabase)" by simp
    have "all_applied L inst StDatabase es \<longleftrightarrow> with_refs (stateful_owners inst) (OUnstructured c) \<in> accepted es" for es
      unfolding all_applied_def objs by simp
    with apply_done [OF L step_objects_typed [OF c], of "stateful_owners inst"] show ?thesis
      by (simp add: applyStateful_fresh [OF lib_lawsD(4) [OF L] step_objects_fresh [OF c]])
  qed
  show ?thesis
    using None r
    by (auto simp: reconcileDatabase_def reconcileManagedDatabase_def cnpgInstalled_def
        bind_SetCondition database_ready_set lib_lawsD(2) [OF L]
        split: option.split sum.split bool.split intro!: yields_bind [OF cl])
qed

text \<open>\<open>Ready\<close> is what the server's answer to the Deployment's apply says.\<close>

definition workload_reported :: "Lib \<Rightarrow> PaperlessInstance \<Rightarrow> event list \<Rightarrow> PaperlessInstance \<Rightarrow> bool" where
  "workload_reported L inst es inst' \<longleftrightarrow> (\<exists>b resp.
     EvPatchApply (with_refs [controller_ref inst] (ODeployment (PaperlessDeployment L inst)))
       b fieldOwner True (Inr resp) \<in> set es \<and>
     (if reports_ready resp then says inst' ConditionReady ConditionTrue ''WorkloadReady''
      else says inst' ConditionReady ConditionFalse ''WorkloadNotReady''))"

lemma workload_report:
  assumes L: "lib_laws L"
  shows "yields (reconcileWorkload L inst) (\<lambda>es x. snd x = None \<longrightarrow>
    all_applied L inst StWorkload es \<and> workload_reported L inst es (fst x))"
proof -
  have objs: "set (step_objects L inst StWorkload) =
      {OService (PaperlessService inst), ODeployment (PaperlessDeployment L inst)}"
    by (simp add: workload_objects_def)
  then have obj: "OService (PaperlessService inst) \<in> set (step_objects L inst StWorkload)"
      "ODeployment (PaperlessDeployment L inst) \<in> set (step_objects L inst StWorkload)" by simp_all
  have all: "all_applied L inst StWorkload es \<longleftrightarrow>
      with_refs [controller_ref inst] (OService (PaperlessService inst)) \<in> accepted es \<and>
      with_refs [controller_ref inst] (ODeployment (PaperlessDeployment L inst)) \<in> accepted es" for es
    unfolding all_applied_def objs by simp
  obtain b p where dep: "applyOwned L inst (ODeployment (PaperlessDeployment L inst)) =
      PatchApply (with_refs [controller_ref inst] (ODeployment (PaperlessDeployment L inst))) b fieldOwner True
      (\<lambda>r. Done (case r of Inl e \<Rightarrow> Inl (ErrorWrap p e) | Inr obj' \<Rightarrow> Inr obj'))"
    using applyOwned_value [OF L step_objects_fresh [OF obj(2)] step_objects_typed [OF obj(2)]] .
  have reported: "workload_reported L inst (es @ [EvPatchApply
        (with_refs [controller_ref inst] (ODeployment (PaperlessDeployment L inst))) b fieldOwner True (Inr resp),
        EvNow t]) i"
    if "if reports_ready resp then says i ConditionReady ConditionTrue ''WorkloadReady''
        else says i ConditionReady ConditionFalse ''WorkloadNotReady''" for es resp t i
    using that unfolding workload_reported_def by (intro exI [of _ b] exI [of _ resp]) simp
  have svc: "yields (error_of (applyOwned L inst (OService (PaperlessService inst)))) (\<lambda>es e. e = None \<longrightarrow>
      with_refs [controller_ref inst] (OService (PaperlessService inst)) \<in> accepted es)"
    unfolding applyOwned_fresh [OF lib_lawsD(4) [OF L] step_objects_fresh [OF obj(1)]]
    by (rule apply_done [OF L step_objects_typed [OF obj(1)]])
  show ?thesis
    unfolding reconcileWorkload_def
    by (rule yields_bind [OF svc])
       (auto simp: Let_def dep bind_SetCondition response_ready says_set_at lib_lawsD(2) [OF L] all
         split: option.split sum.split intro!: reported)
qed

section \<open>The reconciler\<close>

text \<open>The steps look at the specification only, so a condition that was set changes nothing here.\<close>

lemma applied_ignores_status: "only_conditions a b \<Longrightarrow> all_applied L b s = all_applied L a s"
  by (cases s) (auto simp: all_applied_def only_conditions_def fun_eq_iff)

lemma reported_ignores_status: "only_conditions a b \<Longrightarrow> workload_reported L b = workload_reported L a"
proof -
  assume "only_conditions a b"
  then obtain cs where b: "b = PutConditions cs a" by (auto simp: only_conditions_def)
  have "workload_objects L b = workload_objects L a" by (simp add: b)
  then have d: "PaperlessDeployment L b = PaperlessDeployment L a" by (simp add: workload_objects_def)
  show ?thesis unfolding workload_reported_def d by (simp add: b)
qed

lemma secured_ignores_status: "only_conditions a b \<Longrightarrow> secured b = secured a"
  by (auto simp: secured_def only_conditions_def fun_eq_iff)

lemma reported_mono: "workload_reported L inst es i \<Longrightarrow> set es \<subseteq> set es' \<Longrightarrow> workload_reported L inst es' i"
  unfolding workload_reported_def by blast

lemma reported_append [simp]:
  "workload_reported L inst es i \<Longrightarrow> workload_reported L inst (es' @ es) i"
  by (erule reported_mono) simp

lemma database_ready_frame: "frame {ConditionReady} a b \<Longrightarrow> database_ready b = database_ready a"
proof -
  assume fr: "frame {ConditionReady} a b"
  then have "ConditionDatabaseReady \<in> {ConditionReady} \<or>
      cond b ConditionDatabaseReady = cond a ConditionDatabaseReady"
    unfolding frame_def by blast
  then have "cond b ConditionDatabaseReady = cond a ConditionDatabaseReady"
    by (simp add: ConditionReady_def ConditionDatabaseReady_def)
  then show ?thesis by (simp add: database_ready_def says_def frame_keeps [OF fr])
qed

text \<open>Everything the instance needs has been accepted, and its secrets are there.\<close>

definition completed :: "Lib \<Rightarrow> PaperlessInstance \<Rightarrow> event list \<Rightarrow> bool" where
  "completed L inst es \<longleftrightarrow> (\<forall>s. all_applied L inst s es) \<and>
     (secured inst (SecretKeyName inst) es \<or> spSecretKeySecretRef (piSpec inst) \<noteq> None) \<and>
     (secured inst (AdminSecretName inst) es \<or> admin_supplied inst)"

lemma completed_ignores_status: "only_conditions a b \<Longrightarrow> completed L b = completed L a"
proof -
  assume oc: "only_conditions a b"
  then have "SecretKeyName b = SecretKeyName a" "AdminSecretName b = AdminSecretName a" "piSpec b = piSpec a"
    by (auto simp: only_conditions_def)
  then show ?thesis
    by (simp add: completed_def fun_eq_iff applied_ignores_status [OF oc] secured_ignores_status [OF oc]
        admin_supplied_def)
qed

lemma completed_by_steps:
  "all_applied L inst StStorage es \<Longrightarrow> all_applied L inst StDatabase es \<Longrightarrow> all_applied L inst StCache es \<Longrightarrow>
   all_applied L inst StWorkload es \<Longrightarrow>
   secured inst (SecretKeyName inst) es \<or> spSecretKeySecretRef (piSpec inst) \<noteq> None \<Longrightarrow>
   secured inst (AdminSecretName inst) es \<or> admin_supplied inst \<Longrightarrow> completed L inst es"
proof -
  assume a: "all_applied L inst StStorage es" "all_applied L inst StDatabase es" "all_applied L inst StCache es"
   "all_applied L inst StWorkload es"
   "secured inst (SecretKeyName inst) es \<or> spSecretKeySecretRef (piSpec inst) \<noteq> None"
   "secured inst (AdminSecretName inst) es \<or> admin_supplied inst"
  have "all_applied L inst s es" for s
    using a(1-4) by (cases s) (simp_all add: all_applied_def [of L inst StSecrets])
  with a(5,6) show ?thesis by (simp add: completed_def)
qed

text \<open>One stage of the pipeline, then the rest.\<close>

definition through :: "PaperlessInstance \<times> Result \<times> err \<Rightarrow> bool" where
  "through x \<longleftrightarrow> snd x = (zero_result, None)"

lemma stage_done:
  assumes "yields p (\<lambda>es x. snd x = Inr True \<longrightarrow> S es (fst x))"
    and "\<And>es i. S es i \<Longrightarrow> yields (rest i) (\<lambda>es' x. through x \<longrightarrow> R (es @ es') (fst x))"
  shows "yields (bind p (after_stage L s rest)) (\<lambda>es x. through x \<longrightarrow> R es (fst x))"
proof (rule yields_bind [OF assms(1)])
  fix es and y :: "PaperlessInstance \<times> (gerror + bool)"
  assume S: "snd y = Inr True \<longrightarrow> S es (fst y)"
  show "yields (after_stage L s rest y) (\<lambda>es' x. through x \<longrightarrow> R (es @ es') (fst x))"
    using S assms(2) [of es]
    by (cases "(L, s, rest, y)" rule: after_stage.cases)
       (auto simp: step_failed_def database_not_ready_def bind_SetCondition through_def
         zero_result_def notReadyRequeueInterval_def)
qed

lemma unconditional_done:
  "yields (p inst) (\<lambda>es e. e = None \<longrightarrow> S es) \<Longrightarrow>
   yields (unconditional p inst) (\<lambda>es x. snd x = Inr True \<longrightarrow> fst x = inst \<and> S es)"
  unfolding unconditional_def by (erule yields_bind) (auto simp: proceed_def split: option.split)

lemma workload_body_yields:
  "yields (reconcileWorkload L inst) (\<lambda>es x. snd x = None \<longrightarrow> S es (fst x)) \<Longrightarrow>
   yields (workload_body L inst) (\<lambda>es x. snd x = Inr True \<longrightarrow> S es (fst x))"
  unfolding workload_body_def by (erule yields_bind) (auto simp: proceed_def split: option.split prod.split)

lemma framed_done:
  assumes "yields p (\<lambda>es x. snd x = ok \<longrightarrow> S es (fst x))" and "results (\<lambda>x. frame tys inst (fst x)) p"
  shows "yields p (\<lambda>es x. snd x = ok \<longrightarrow> S es (fst x) \<and> frame tys inst (fst x))"
  using yields_conj [OF assms(1) yields_results [OF assms(2)]] by (rule yields_mono) auto

lemma instance_done:
  assumes L: "lib_laws L"
  shows "yields (reconcileInstance L inst) (\<lambda>es x. through x \<longrightarrow>
    completed L inst es \<and> database_ready (fst x) \<and> workload_reported L inst es (fst x))"
proof -
  note secrets = unconditional_done [of "reconcileSecrets L", OF secrets_done [OF L, of inst]]
    and storage = unconditional_done [of "reconcileStorage L", OF storage_done [OF L, of inst]]
    and database = framed_done [OF database_done [OF L, of inst] results_reconcileDatabase [OF lib_lawsD(2) [OF L]]]
  have last: "yields (run_stages L (drop 3 (stages L)) i) (\<lambda>es x. through x \<longrightarrow>
      all_applied L inst StCache es \<and> all_applied L inst StWorkload es \<and>
      database_ready (fst x) \<and> workload_reported L inst es (fst x))"
    if fr: "frame {ConditionDatabaseReady} inst i" and d: "database_ready i" for i
  proof -
    have oc: "only_conditions inst i" by (rule frame_only [OF fr])
    note ign = applied_ignores_status [OF oc] reported_ignores_status [OF oc]
    note workload = framed_done [OF workload_report [OF L, of i, unfolded ign]
        results_reconcileWorkload [OF lib_lawsD(2) [OF L]]]
    show ?thesis
      unfolding stages_def
      by (simp, rule stage_done [OF unconditional_done [of "reconcileCache L", OF cache_done [OF L, of i, unfolded ign]]],
          simp, rule stage_done [OF workload_body_yields [OF workload]])
         (use d database_ready_frame in \<open>auto simp: through_def\<close>)
  qed
  have "run_stages L (stages L) inst =
      bind (unconditional (reconcileSecrets L) inst) (after_stage L (stages L ! 0) (\<lambda>i.
      bind (unconditional (reconcileStorage L) i) (after_stage L (stages L ! 1) (\<lambda>i.
      bind (reconcileDatabase L i) (after_stage L (stages L ! 2) (run_stages L (drop 3 (stages L))))))))"
    by (simp add: stages_def)
  then show ?thesis
    unfolding reconcileInstance_stages
    apply simp
    apply (rule stage_done [OF secrets], clarify)
    apply (rule stage_done [OF storage], clarify)
    apply (rule stage_done [OF database], clarify)
    apply (rule yields_mono [OF last], assumption+)
    apply (auto intro!: completed_by_steps)
    done
qed

lemma completed_more:
  "completed L inst es \<Longrightarrow> completed L inst (e # es)" "completed L inst es \<Longrightarrow> completed L inst (es @ es')"
  by (auto simp: completed_def secured_Cons)

lemma reported_more: "workload_reported L inst es i \<Longrightarrow> workload_reported L inst (e # es @ es') i"
  by (erule reported_mono) auto

lemma says_observed_ready [simp]:
  "database_ready (observed inst) = database_ready inst"
  "workload_reported L inst es (observed i) = workload_reported L inst es i"
  by (simp_all add: database_ready_def workload_reported_def)

text \<open>What \<open>Reconcile\<close> does once it has read the instance.\<close>

definition after_read :: "Lib \<Rightarrow> PaperlessInstance \<Rightarrow> (Result \<times> err) prog" where
  "after_read L inst =
     bind (SetCondition L inst ConditionReady ConditionFalse ''Reconciling''
       ''the operator is reconciling this instance'') (\<lambda>i.
     bind (reconcileInstance L i) (\<lambda>(i, res, e). bind (patchStatus i inst) (\<lambda>r. case r of
         Some e \<Rightarrow> Done (zero_result, Some (ErrorWrap ''patching status'' e)) | None \<Rightarrow> Done (res, e))))"

lemma wp_Reconcile:
  assumes "\<And>inst. wp (after_read L inst) (Q inst)"
  shows "wp (Reconcile L req) (\<lambda>es x. case es of EvGetInstance k (Inr inst) # rest \<Rightarrow> Q inst rest x | _ \<Rightarrow> True)"
  using assms by (auto simp: Reconcile_def Let_def after_read_def split: sum.split)

lemma after_read_done:
  assumes L: "lib_laws L"
  shows "yields (after_read L inst) (\<lambda>es y. y = (zero_result, None) \<longrightarrow> completed L inst es \<and>
    (\<exists>inst'. last es = EvPatchStatus inst' inst None \<and> database_ready inst' \<and>
       workload_reported L inst es inst'))"
proof -
  let ?i = "\<lambda>t. set_at L t inst ConditionReady ConditionFalse ''Reconciling'' ''the operator is reconciling this instance''"
  have oc: "only_conditions inst (?i t)" for t by simp
  note inst = instance_done [OF L, of "?i t" for t, unfolded completed_ignores_status [OF oc] reported_ignores_status [OF oc]]
  show ?thesis
    unfolding after_read_def bind_SetCondition
    by (auto intro!: yields_bind [OF inst] simp: patchStatus_eq completed_more reported_more through_def
        split: option.split)
qed

end
