(* ===== verification/Apply_Plan.thy ===== *)
theory Apply_Plan
  imports Completion Isolation "HOL-Library.Sublist"
begin

text \<open>
  The plan of an instance: the objects it needs, with their owners, in the order of the steps.
  Every reconciliation applies a prefix of the plan, and a successful one all of it, each
  object once.
\<close>

section \<open>The plan and the applies of a log\<close>

definition step_plan :: "Lib \<Rightarrow> PaperlessInstance \<Rightarrow> step \<Rightarrow> kobject list" where
  "step_plan L inst s = map (with_refs (step_owners inst s)) (step_objects L inst s)"

definition plan :: "Lib \<Rightarrow> PaperlessInstance \<Rightarrow> kobject list" where
  "plan L inst = concat (map (step_plan L inst) [StSecrets, StStorage, StDatabase, StCache, StWorkload])"

fun apply_of :: "event \<Rightarrow> kobject list" where
  "apply_of (EvPatchApply x b o' fo r) = [x]"
| "apply_of ev = []"

definition applied :: "event list \<Rightarrow> kobject list" where
  "applied es = concat (map apply_of es)"

lemma applied_simps [simp]:
  "applied [] = []" "applied (e # es) = apply_of e @ applied es" "applied (es @ es') = applied es @ applied es'"
  by (simp_all add: applied_def)

section \<open>Following a plan\<close>

text \<open>
  \<open>follows p xs ok\<close>: \<open>p\<close> applies a prefix of \<open>xs\<close>, and all of it when its result is \<open>ok\<close>.
\<close>

definition follows :: "'a prog \<Rightarrow> kobject list \<Rightarrow> ('a \<Rightarrow> bool) \<Rightarrow> bool" where
  "follows p xs ok \<longleftrightarrow> yields p (\<lambda>es y. prefix (applied es) xs \<and> (ok y \<longrightarrow> applied es = xs))"

lemma follows_quiet: "emits (\<lambda>ev. apply_of ev = []) p \<Longrightarrow> follows p [] ok"
  unfolding follows_def yields_def emits_def
  by (erule wp_mono) (auto simp: applied_def list_all_iff)

lemma follows_bind:
  assumes "follows p xs ok" and "\<And>y. ok y \<Longrightarrow> follows (f y) ys ok'"
    and "\<And>y. \<not> ok y \<Longrightarrow> yields (f y) (\<lambda>es z. applied es = [] \<and> \<not> ok' z)"
  shows "follows (bind p f) (xs @ ys) ok'"
  unfolding follows_def
proof (rule yields_bind [OF assms(1) [unfolded follows_def]])
  fix es y assume p: "prefix (applied es) xs \<and> (ok y \<longrightarrow> applied es = xs)"
  show "yields (f y) (\<lambda>es' z. prefix (applied (es @ es')) (xs @ ys) \<and> (ok' z \<longrightarrow> applied (es @ es') = xs @ ys))"
  proof (cases "ok y")
    case True
    then show ?thesis
      using p by (intro yields_mono [OF assms(2) [OF True, unfolded follows_def]]) auto
  next
    case False
    then show ?thesis
      using p by (intro yields_mono [OF assms(3) [OF False]]) (auto intro: prefix_order.trans)
  qed
qed

lemma follows_check:
  assumes "follows p xs (\<lambda>e. e = None)" and "follows rest ys ok" and "\<And>e. \<not> ok (onerr e)"
  shows "follows (check p onerr rest) (xs @ ys) ok"
  unfolding check_def by (rule follows_bind [OF assms(1)]) (use assms(2,3) in auto)

lemma follows_Done [simp]: "follows (Done y) [] ok"
  by (simp add: follows_def)

lemma follows_Now [simp]: "follows (Now c) xs ok \<longleftrightarrow> (\<forall>t. follows (c t) xs ok)"
  by (simp add: follows_def)

lemma follows_log:
  assumes "wp p (apply_log L owners objs)"
  shows "follows p (map (with_refs owners) objs) (\<lambda>e. e = None)"
proof -
  have "prefix (applied es) (map (with_refs owners) objs) \<and> (x = Value None \<longrightarrow> applied es = map (with_refs owners) objs)"
    if "apply_log L owners objs es x" for es x
    using that
  proof (induction objs arbitrary: es)
    case (Cons ob objs)
    then obtain b r es' where es: "es = EvPatchApply (with_refs owners ob) b fieldOwner True r # es'"
      and r: "case r of Inl e \<Rightarrow> es' = [] \<and> (\<exists>p p'. x = Value (Some (ErrorWrap p (ErrorWrap p' e))))
         | Inr a \<Rightarrow> apply_log L owners objs es' x" by auto
    show ?case using es r Cons.IH [of es'] by (cases r) auto
  qed simp
  then show ?thesis unfolding follows_def yields_def by (intro wp_mono [OF assms]) blast
qed

section \<open>The steps\<close>

lemma secrets_follow:
  assumes "lib_laws L"
  shows "follows (reconcileSecrets L inst) (step_plan L inst StSecrets) (\<lambda>e. e = None)"
proof -
  have "emits (\<lambda>ev. apply_of ev = []) (reconcileSecrets L inst)"
    using safe_reconcileSecrets [OF assms, of inst] unfolding safe_def emits_def
    by (elim wp_mono) (auto simp: list_all_iff dest!: bspec elim!: step_event.elims)
  then show ?thesis by (simp add: step_plan_def follows_quiet)
qed

lemma storage_follows:
  "lib_laws L \<Longrightarrow> follows (reconcileStorage L inst) (step_plan L inst StStorage) (\<lambda>e. e = None)"
  using follows_log [OF conjunct1 [OF storage_applied_in_order]] by (simp add: step_plan_def)

lemma cache_follows:
  "lib_laws L \<Longrightarrow> follows (reconcileCache L inst) (step_plan L inst StCache) (\<lambda>e. e = None)"
  using follows_log [OF conjunct1 [OF cache_applied_in_order]] by (simp add: step_plan_def)

lemma owned_follows:
  assumes L: "lib_laws L" and x: "x \<in> set (step_objects L inst s)"
  shows "follows (applyOwned L inst x) [with_refs [controller_ref inst] x] (\<lambda>r. \<exists>y. r = Inr y)"
    and "follows (applyStateful L inst x) [with_refs (stateful_owners inst) x] (\<lambda>r. \<exists>y. r = Inr y)"
proof -
  have "follows (Apply L (with_refs owners x)) [with_refs owners x] (\<lambda>r. \<exists>y. r = Inr y)" for owners
  proof -
    obtain b p where "Apply L (with_refs owners x) = PatchApply (with_refs owners x) b fieldOwner True
        (\<lambda>r. Done (case r of Inl e \<Rightarrow> Inl (ErrorWrap p e) | Inr obj' \<Rightarrow> Inr obj'))"
      using applied_value [OF L step_objects_typed [OF x]] by blast
    then show ?thesis by (auto simp: follows_def)
  qed
  then show "follows (applyOwned L inst x) [with_refs [controller_ref inst] x] (\<lambda>r. \<exists>y. r = Inr y)"
    "follows (applyStateful L inst x) [with_refs (stateful_owners inst) x] (\<lambda>r. \<exists>y. r = Inr y)"
    by (simp_all add: applyOwned_fresh applyStateful_fresh lib_lawsD(4) [OF L] step_objects_fresh [OF x])
qed

lemma follows_error:
  "follows p xs (\<lambda>r. \<exists>y. r = Inr y) \<Longrightarrow> follows (error_of p) xs (\<lambda>e. e = None)"
  unfolding error_of_def
  by (rule follows_bind [of p xs "\<lambda>r. \<exists>y. r = Inr y" _ "[]", simplified append_Nil2]) (auto split: sum.split)

lemma database_follows:
  assumes L: "lib_laws L"
  shows "follows (reconcileDatabase L inst) (step_plan L inst StDatabase) (\<lambda>x. snd x = Inr True)"
proof (cases "dbExternal (spDatabase (piSpec inst))")
  case (Some ext)
  have keys: "emits (\<lambda>ev. apply_of ev = []) (requireKeys L inst ext secret ks)" for secret ks
    by (induction ks) (auto simp: bind_SetCondition)
  have "emits (\<lambda>ev. apply_of ev = []) (reconcileExternalDatabase L inst ext)"
    unfolding reconcileExternalDatabase_def Let_def
    by (simp add: bind_SetCondition keys split: sum.split)
  then show ?thesis
    using Some by (simp add: step_plan_def IsExternal_def reconcileDatabase_def follows_quiet)
next
  case None
  obtain r where r: "CNPGCluster L inst = Value r"
    using CNPGCluster_valid [OF lib_lawsD(1) [OF L] lib_lawsD(7) [OF L]] CNPGCluster_invalid by metis
  have pl: "step_plan L inst StDatabase = (case r of Inl e \<Rightarrow> []
      | Inr c \<Rightarrow> [with_refs (stateful_owners inst) (OUnstructured c)])"
    using None r by (simp add: step_plan_def cluster_objects_def IsExternal_def split: sum.split)
  have none: "yields (Done (inst, Inl e :: gerror + bool)) (\<lambda>es z. applied es = [] \<and> snd z \<noteq> Inr True)" for e
    by simp
  have "follows (bind (lift_go (CNPGCluster L inst)) (\<lambda>r. case r of
           Inl e \<Rightarrow> Done (inst, Inl (ErrorWrap ''building CloudNativePG cluster'' e))
         | Inr cluster \<Rightarrow>
             bind (error_of (applyStateful L inst (OUnstructured cluster))) (\<lambda>r. case r of
               Some e \<Rightarrow> Done (inst, Inl (ErrorWrap ''applying CloudNativePG cluster'' e))
             | None \<Rightarrow>
                 bind (SetCondition L inst ConditionDatabaseReady ConditionTrue
                   ''CloudNativePGClusterApplied'' ''the managed CloudNativePG cluster has been applied'')
                   (\<lambda>inst. Done (inst, Inr True))))) (step_plan L inst StDatabase) (\<lambda>x. snd x = Inr True)"
  proof (cases r)
    case (Inr c)
    then have "OUnstructured c \<in> set (step_objects L inst StDatabase)"
      using None r by (simp add: cluster_objects_def IsExternal_def)
    from follows_error [OF owned_follows(2) [OF L this]]
    have "follows (bind (error_of (applyStateful L inst (OUnstructured c))) (\<lambda>r. case r of
               Some e \<Rightarrow> Done (inst, Inl (ErrorWrap ''applying CloudNativePG cluster'' e))
             | None \<Rightarrow>
                 bind (SetCondition L inst ConditionDatabaseReady ConditionTrue
                   ''CloudNativePGClusterApplied'' ''the managed CloudNativePG cluster has been applied'')
                   (\<lambda>inst. Done (inst, Inr True))))
        ([with_refs (stateful_owners inst) (OUnstructured c)] @ []) (\<lambda>x. snd x = Inr True)"
      by (rule follows_bind) (auto simp: bind_SetCondition follows_def)
    then show ?thesis by (simp add: r Inr pl)
  qed (simp add: r pl)
  then show ?thesis
    using None
    by (auto simp: reconcileDatabase_def reconcileManagedDatabase_def cnpgInstalled_def follows_def bind_SetCondition
        split: option.split)
qed

lemma workload_follows:
  assumes L: "lib_laws L"
  shows "follows (reconcileWorkload L inst) (step_plan L inst StWorkload) (\<lambda>x. snd x = None)"
proof -
  have objs: "OService (PaperlessService inst) \<in> set (step_objects L inst StWorkload)"
      "ODeployment (PaperlessDeployment L inst) \<in> set (step_objects L inst StWorkload)"
    by (simp_all add: workload_objects_def)
  have dep: "follows (bind (applyOwned L inst (ODeployment (PaperlessDeployment L inst))) f)
      ([with_refs [controller_ref inst] (ODeployment (PaperlessDeployment L inst))] @ []) (\<lambda>x. snd x = None)"
    if "\<And>y. follows (f (Inr y)) [] (\<lambda>x. snd x = None)"
      "\<And>e. yields (f (Inl e)) (\<lambda>es z. applied es = [] \<and> snd z \<noteq> None)"
    for f :: "gerror + kobject \<Rightarrow> (PaperlessInstance \<times> err) prog"
  proof (rule follows_bind [OF owned_follows(1) [OF L objs(2)]])
    show "yields (f y) (\<lambda>es z. applied es = [] \<and> snd z \<noteq> None)" if "\<nexists>x. y = Inr x" for y
      using that \<open>\<And>e. yields (f (Inl e)) _\<close> by (cases y) auto
  qed (use that in auto)
  have pl: "step_plan L inst StWorkload = [with_refs [controller_ref inst] (OService (PaperlessService inst))] @
      [with_refs [controller_ref inst] (ODeployment (PaperlessDeployment L inst))] @ []"
    by (simp add: step_plan_def workload_objects_def)
  show ?thesis
    unfolding reconcileWorkload_def pl Let_def
    by (rule follows_bind [OF follows_error [OF owned_follows(1) [OF L objs(1)]]])
       (auto intro!: dep [simplified] simp: bind_SetCondition split: option.split prod.split)
qed

section \<open>The reconciler\<close>

lemma plan_stage:
  assumes "follows p xs (\<lambda>x. snd x = Inr True)" and "results (\<lambda>x. only_conditions inst (fst x)) p"
    and "\<And>i. only_conditions inst i \<Longrightarrow> follows (rest i) ys through"
  shows "follows (bind p (after_stage L s rest)) (xs @ ys) through"
proof -
  let ?R = "\<lambda>es (y :: PaperlessInstance \<times> (gerror + bool)). prefix (applied es) xs \<and>
      (snd y = Inr True \<longrightarrow> applied es = xs) \<and> only_conditions inst (fst y)"
  have "yields p ?R"
    using yields_conj [OF assms(1) [unfolded follows_def] yields_results [OF assms(2)]]
    by (rule yields_mono) simp
  then show ?thesis
    unfolding follows_def
  proof (rule yields_bind)
    fix es and y :: "PaperlessInstance \<times> (gerror + bool)"
    assume R: "?R es y"
    show "yields (after_stage L s rest y) (\<lambda>es' x. prefix (applied (es @ es')) (xs @ ys) \<and>
        (through x \<longrightarrow> applied (es @ es') = xs @ ys))"
    proof (cases "snd y = Inr True")
      case True
      then show ?thesis
        using R yields_mono [OF assms(3) [of "fst y", unfolded follows_def]]
        by (cases "(L, s, rest, y)" rule: after_stage.cases) auto
    next
      case False
      then show ?thesis
        using R
        by (cases "(L, s, rest, y)" rule: after_stage.cases)
           (auto simp: step_failed_def database_not_ready_def bind_SetCondition through_def
             zero_result_def notReadyRequeueInterval_def)
    qed
  qed
qed

lemma unconditional_follows:
  "follows (p inst) xs (\<lambda>e. e = None) \<Longrightarrow> follows (unconditional p inst) xs (\<lambda>x. snd x = Inr True)"
  unfolding unconditional_def
  by (drule follows_bind [of _ xs _ _ "[]", simplified append_Nil2]) (auto simp: proceed_def split: option.split)

lemma workload_body_follows:
  "follows (reconcileWorkload L inst) xs (\<lambda>x. snd x = None) \<Longrightarrow>
   follows (workload_body L inst) xs (\<lambda>x. snd x = Inr True)"
  unfolding workload_body_def
  by (drule follows_bind [of _ xs _ _ "[]", simplified append_Nil2]) (auto simp: proceed_def split: option.split prod.split)

lemma stage_body_follows:
  assumes "lib_laws L" and "s \<in> set (stages L)"
  shows "follows (sgBody s inst) (step_plan L inst (sgTag s)) (\<lambda>x. snd x = Inr True)"
  using assms
  by (auto simp: stages_def intro!: unconditional_follows workload_body_follows secrets_follow
      storage_follows database_follows cache_follows workload_follows)

lemma plan_ignores_status: "only_conditions a b \<Longrightarrow> step_plan L b s = step_plan L a s"
  by (cases s) (auto simp: step_plan_def only_conditions_def)

text \<open>The stages follow the concatenation of any plans \<open>P\<close> their steps follow.\<close>

lemma stages_follow:
  assumes L: "lib_laws L"
    and P: "\<And>s i. s \<in> set (stages L) \<Longrightarrow> only_conditions inst i \<Longrightarrow>
      follows (sgBody s i) (P (sgTag s)) (\<lambda>x. snd x = Inr True)"
  shows "set ss \<subseteq> set (stages L) \<Longrightarrow> only_conditions inst i \<Longrightarrow>
    follows (run_stages L ss i) (concat (map P (map sgTag ss))) through"
proof (induction ss arbitrary: i)
  case (Cons s ss)
  then have s: "s \<in> set (stages L)" by simp
  then have "stage_ok L s" using stages_ok [of L] by (simp add: list_all_iff)
  then have fr: "results (\<lambda>x. frame (sgTouches s) i (fst x)) (sgBody s i)"
    using L by (simp add: stage_ok_def reconcile_step_def)
  have oc: "results (\<lambda>x. only_conditions i (fst x)) (sgBody s i)"
    using results_bind [OF fr, of "\<lambda>x. only_conditions i (fst x)" Done] frame_only by simp
  have "follows (run_stages L ss j) (concat (map P (map sgTag ss))) through" if "only_conditions i j" for j
    using Cons.IH [of j] Cons.prems only_conditions_trans [OF Cons.prems(2) that] by simp
  then show ?case
    using plan_stage [OF P [OF s Cons.prems(2)] oc] by simp
qed (simp add: follows_def)

lemma instance_follows:
  assumes L: "lib_laws L"
  shows "follows (reconcileInstance L inst) (plan L inst) through"
proof -
  have "follows (sgBody s i) (step_plan L inst (sgTag s)) (\<lambda>x. snd x = Inr True)"
    if "s \<in> set (stages L)" and "only_conditions inst i" for s i
    using stage_body_follows [OF L that(1), of i] by (simp add: plan_ignores_status [OF that(2)])
  from stages_follow [OF L this subset_refl, of inst] show ?thesis
    by (simp add: reconcileInstance_stages stages_def plan_def)
qed

text \<open>When the cluster cannot be built, there is no plan that a step could end.\<close>

lemma unbuilt_follows:
  assumes "libIsDNS1123Subdomain L (DBName inst) \<noteq> []" and "dbExternal (spDatabase (piSpec inst)) = None"
  shows "follows (reconcileDatabase L inst) xs (\<lambda>x. snd x = Inr True)"
  using CNPGCluster_invalid [OF assms(1)] assms(2)
  by (auto simp: reconcileDatabase_def reconcileManagedDatabase_def cnpgInstalled_def follows_def
      bind_SetCondition split: option.split)

lemma unbuilt_instance_follows:
  assumes L: "lib_laws L"
    and c: "libIsDNS1123Subdomain L (DBName inst) \<noteq> []" "dbExternal (spDatabase (piSpec inst)) = None"
  shows "follows (reconcileInstance L inst) (step_plan L inst StStorage @ xs @
    step_plan L inst StCache @ step_plan L inst StWorkload) through"
proof -
  let ?P = "(step_plan L inst)(StDatabase := xs)"
  have no_secrets: "step_plan L inst StSecrets = []" by (simp add: step_plan_def)
  have "follows (sgBody s i) (?P (sgTag s)) (\<lambda>x. snd x = Inr True)"
    if s: "s \<in> set (stages L)" and oc: "only_conditions inst i" for s i
  proof (cases "sgTag s = StDatabase")
    case True
    then have "sgBody s i = reconcileDatabase L i" using s by (auto simp: stages_def)
    moreover have "DBName i = DBName inst" "piSpec i = piSpec inst"
      using oc by (auto simp: only_conditions_def name_defs derivedName_def)
    ultimately show ?thesis using True c by (simp add: unbuilt_follows)
  next
    case False
    then show ?thesis
      using stage_body_follows [OF L s, of i] no_secrets by (simp add: plan_ignores_status [OF oc])
  qed
  from stages_follow [OF L this subset_refl, of inst] show ?thesis
    by (simp add: reconcileInstance_stages stages_def no_secrets)
qed

lemma through_built:
  assumes L: "lib_laws L" and "dbExternal (spDatabase (piSpec inst)) = None"
  shows "yields (reconcileInstance L inst) (\<lambda>es x. through x \<longrightarrow> libIsDNS1123Subdomain L (DBName inst) = [])"
proof (cases "libIsDNS1123Subdomain L (DBName inst) = []")
  case False
  note un = unbuilt_instance_follows [OF L False assms(2), unfolded follows_def]
  show ?thesis
    using un [of "[]"] un [of "[OService (PaperlessService inst)]"]
    by (rule yields_mono [OF yields_conj]) auto
qed (simp add: yields_def wp_def)

section \<open>The objects of the plan\<close>

lemma step_keys:
  "map key_of (step_plan L inst s) =
   map (\<lambda>(k, n). (k, inst_ns inst, n)) (map (\<lambda>x. (kind_of x, obj_name x)) (step_objects L inst s))"
  using step_objects_fresh [of _ L inst s] by (auto simp: step_plan_def key_of_def fresh_for_def)

text \<open>The plan is for everything an instance may have, except for its two secrets.\<close>

lemma plan_keys:
  assumes L: "lib_laws L"
    and "dbExternal (spDatabase (piSpec inst)) = None \<Longrightarrow> libIsDNS1123Subdomain L (DBName inst) = []"
  shows "map key_of (plan L inst) = drop 2 (object_keys inst)"
proof -
  have db: "map (\<lambda>x. (kind_of x, obj_name x)) (step_objects L inst StDatabase) =
      (if IsExternal (spDatabase (piSpec inst)) then [] else [(KUnstructured, DBName inst)])"
    using assms(2) CNPGCluster_valid [OF lib_lawsD(1) [OF L] lib_lawsD(7) [OF L]]
    by (simp add: cluster_objects_def IsExternal_def split: option.splits)
  show ?thesis
    unfolding plan_def map_concat list.map comp_apply step_keys db
    by (simp add: claim_keys [OF lib_lawsD(1) [OF L]] cache_keys [OF lib_lawsD(1) [OF L]]
        workload_keys object_keys_def object_names_def)
qed

section \<open>The reconciliation\<close>

text \<open>
  A reconciliation applies a prefix of the plan; when it succeeds, all of it, which is then
  everything the instance may have except for its two secrets.
\<close>

definition plan_done :: "Lib \<Rightarrow> PaperlessInstance \<Rightarrow> event list \<Rightarrow> bool" where
  "plan_done L inst es \<longleftrightarrow> applied es = plan L inst \<and> map key_of (plan L inst) = drop 2 (object_keys inst)"

lemma instance_follows_all:
  assumes L: "lib_laws L"
  shows "yields (reconcileInstance L inst) (\<lambda>es x. prefix (applied es) (plan L inst) \<and>
    (through x \<longrightarrow> plan_done L inst es))"
proof (cases "dbExternal (spDatabase (piSpec inst)) = None")
  case True
  show ?thesis
    using yields_conj [OF instance_follows [OF L, of inst, unfolded follows_def] through_built [OF L True]]
    by (rule yields_mono) (use plan_keys [OF L] in \<open>auto simp: plan_done_def\<close>)
next
  case False
  then show ?thesis
    using yields_mono [OF instance_follows [OF L, of inst, unfolded follows_def]] plan_keys [OF L, of inst]
    by (auto simp: plan_done_def)
qed

lemma plan_done_quiet: "apply_of ev = [] \<Longrightarrow> plan_done L inst (ev # es) = plan_done L inst es"
  "apply_of ev = [] \<Longrightarrow> plan_done L inst (es @ [ev]) = plan_done L inst es"
  by (simp_all add: plan_done_def)

lemma after_read_follows:
  assumes L: "lib_laws L"
  shows "yields (after_read L inst) (\<lambda>es y. prefix (applied es) (plan L inst) \<and>
    (y = (zero_result, None) \<longrightarrow> plan_done L inst es))"
proof -
  let ?i = "\<lambda>t. set_at L t inst ConditionReady ConditionFalse ''Reconciling'' ''the operator is reconciling this instance''"
  have oc: "only_conditions inst (?i t)" for t by simp
  have plan: "plan L (?i t) = plan L inst" for t
    unfolding plan_def plan_ignores_status [OF oc, of L, THEN ext] ..
  have "object_keys (?i t) = object_keys inst" for t
    by (simp add: object_keys_def object_names_def name_defs derivedName_def)
  with plan have "plan_done L (?i t) es = plan_done L inst es" for t es
    unfolding plan_done_def by simp
  note inst = instance_follows_all [OF L, of "?i t" for t, unfolded plan this]
  show ?thesis
    unfolding after_read_def bind_SetCondition
    by (auto intro!: yields_bind [OF inst] simp: patchStatus_eq through_def plan_done_quiet split: option.split)
qed

end
