(* ===== verification/Progress.thy ===== *)
theory Progress
  imports Tenancy Completion Apply_Plan
begin

text \<open>
  Progress. A reconciliation whose requests are all served gets through: it reports no error,
  has applied every object of the instance, and both generated secrets are there. What
  "served" asks of each answer is the list of all reasons for which a reconciliation stops
  half-way.
\<close>

section \<open>What a tree delivers when it is served\<close>

text \<open>\<open>delivers G p R\<close>: if every answer is in \<open>G\<close>, then \<open>p\<close> returns a value in \<open>R\<close>.\<close>

definition delivers :: "(event \<Rightarrow> bool) \<Rightarrow> 'a prog \<Rightarrow> ('a \<Rightarrow> bool) \<Rightarrow> bool" where
  "delivers G p R \<longleftrightarrow> wp p (\<lambda>es x. list_all G es \<longrightarrow> (\<exists>y. x = Value y \<and> R y))"

lemma delivers_step:
  "wp p (\<lambda>es x. list_all G (e # es) \<longrightarrow> (\<exists>y. x = Value y \<and> R y)) \<longleftrightarrow> (G e \<longrightarrow> delivers G p R)"
  by (cases "G e") (simp_all add: delivers_def)

lemma delivers_basic [simp]:
  "delivers G (Done y) R \<longleftrightarrow> R y"
  "delivers G (GetInstance k c0) R \<longleftrightarrow> (\<forall>r. G (EvGetInstance k r) \<longrightarrow> delivers G (c0 r) R)"
  "delivers G (GetSecret k c1) R \<longleftrightarrow> (\<forall>r. G (EvGetSecret k r) \<longrightarrow> delivers G (c1 r) R)"
  "delivers G (GetCRD n c2) R \<longleftrightarrow> (\<forall>r. G (EvGetCRD n r) \<longrightarrow> delivers G (c2 r) R)"
  "delivers G (CreateSecret s c3) R \<longleftrightarrow> (\<forall>r. G (EvCreateSecret s r) \<longrightarrow> delivers G (c3 r) R)"
  "delivers G (PatchApply ob b o' fo c4) R \<longleftrightarrow> (\<forall>r. G (EvPatchApply ob b o' fo r) \<longrightarrow> delivers G (c4 r) R)"
  "delivers G (PatchMerge s b o' c5) R \<longleftrightarrow> (\<forall>r. G (EvPatchMerge s b o' r) \<longrightarrow> delivers G (c5 r) R)"
  "delivers G (PatchStatus i i' c6) R \<longleftrightarrow> (\<forall>r. G (EvPatchStatus i i' r) \<longrightarrow> delivers G (c6 r) R)"
  "delivers G (ReadRand j c7) R \<longleftrightarrow> (\<forall>r. G (EvReadRand j r) \<longrightarrow> delivers G (c7 r) R)"
  "delivers G (Now c8) R \<longleftrightarrow> (\<forall>r. G (EvNow r) \<longrightarrow> delivers G (c8 r) R)"
  by (simp_all only: delivers_def [of G "GetInstance _ _"]
      delivers_def [of G "GetSecret _ _"] delivers_def [of G "GetCRD _ _"]
      delivers_def [of G "CreateSecret _ _"] delivers_def [of G "PatchApply _ _ _ _ _"]
      delivers_def [of G "PatchMerge _ _ _ _"] delivers_def [of G "PatchStatus _ _ _"]
      delivers_def [of G "ReadRand _ _"] delivers_def [of G "Now _"] wp_basic delivers_step)
     (simp add: delivers_def)

lemma delivers_mono: "delivers G p S \<Longrightarrow> (\<And>y. S y \<Longrightarrow> R y) \<Longrightarrow> delivers G p R"
  unfolding delivers_def by (erule wp_mono) auto

lemma delivers_bind:
  assumes "delivers G p S" and "\<And>y. S y \<Longrightarrow> delivers G (f y) R"
  shows "delivers G (bind p f) R"
  unfolding delivers_def
proof (rule wp_bindI [OF assms(1) [unfolded delivers_def]])
  fix es x assume S: "list_all G es \<longrightarrow> (\<exists>y. Value x = Value y \<and> S y)"
  show "wp (f x) (\<lambda>es'. \<lambda>x. list_all G (es @ es') \<longrightarrow> (\<exists>y. x = Value y \<and> R y))"
  proof (cases "list_all G es")
    case True
    with S assms(2) [of x] show ?thesis by (simp add: delivers_def)
  qed simp
qed auto

lemma delivers_check:
  "delivers G p (\<lambda>e. e = None) \<Longrightarrow> delivers G rest R \<Longrightarrow> delivers G (check p onerr rest) R"
  unfolding check_def by (erule delivers_bind) simp

text \<open>What holds of every value a tree returns holds of what it delivers.\<close>

lemma delivers_results: "delivers G p S \<Longrightarrow> results R p \<Longrightarrow> delivers G p (\<lambda>y. S y \<and> R y)"
  unfolding delivers_def results_def wp_def by fastforce

section \<open>Answers that serve a reconciliation\<close>

text \<open>The secret of an external database.\<close>

definition is_external_key :: "PaperlessInstance \<Rightarrow> ObjectKey \<Rightarrow> bool" where
  "is_external_key inst k \<longleftrightarrow>
     (case dbExternal (spDatabase (piSpec inst)) of
        None \<Rightarrow> False | Some ext \<Rightarrow> k = external_secret_key inst ext)"

text \<open>
  Writes and draws succeed; CloudNativePG is installed; a secret is found, in the namespace
  asked for, or said to be missing; and the secret of an external database is there with
  its two keys.
\<close>

fun served :: "Lib \<Rightarrow> PaperlessInstance \<Rightarrow> event \<Rightarrow> bool" where
  "served L inst (EvGetInstance k r) \<longleftrightarrow> True"
| "served L inst (EvGetSecret k r) \<longleftrightarrow> (case r of
     Inl e \<Rightarrow> libIsNotFound L (Some e) \<and> \<not> is_external_key inst k
   | Inr s \<Rightarrow> omNamespace (secMeta s) = okNamespace k \<and>
       (is_external_key inst k \<longrightarrow> secData s ''username'' \<noteq> None \<and> secData s ''password'' \<noteq> None))"
| "served L inst (EvGetCRD n r) \<longleftrightarrow> r = None"
| "served L inst (EvCreateSecret s r) \<longleftrightarrow> r = None"
| "served L inst (EvPatchApply obj b o' fo r) \<longleftrightarrow> (\<exists>obj'. r = Inr obj')"
| "served L inst (EvPatchMerge s b o' r) \<longleftrightarrow> r = None"
| "served L inst (EvPatchStatus i b r) \<longleftrightarrow> r = None"
| "served L inst (EvReadRand n r) \<longleftrightarrow> (\<exists>raw. r = Inr raw)"
| "served L inst (EvNow t) \<longleftrightarrow> True"

text \<open>The names derived from the instance's are valid names of objects.\<close>

definition nameable :: "Lib \<Rightarrow> PaperlessInstance \<Rightarrow> bool" where
  "nameable L inst \<longleftrightarrow>
     (\<forall>n \<in> set [SecretKeyName inst, AdminSecretName inst, DBName inst]. libIsDNS1123Subdomain L n = [])"

section \<open>Secrets\<close>

lemma ownership_delivers:
  assumes L: "lib_laws L" and ns: "omNamespace (secMeta s) = inst_ns inst"
  shows "delivers (served L inst) (reconcileSecretOwnership L inst s) (\<lambda>e. e = None)"
proof (cases "owns_matches L inst s")
  case False
  obtain b p where "reconcileSecretOwnership L inst s = PatchMerge s b fieldOwner
      (\<lambda>r. Done (case r of Some e \<Rightarrow> Some (ErrorWrap p e) | None \<Rightarrow> None))"
    using reconcileSecretOwnership_patch [OF lib_lawsD(5,4) [OF L] ns False] by blast
  then show ?thesis by simp
qed (simp add: ownership_matches_noop)

text \<open>A builder that succeeds whenever the random source does.\<close>

locale reliable_builder = secret_builder +
  assumes draws: "libIsDNS1123Subdomain L (secret_name inst) = [] \<Longrightarrow>
    delivers (served L inst) (build L inst) (\<lambda>r. \<exists>s. r = Inr s)"
begin

lemma fresh_draws:
  assumes "libIsDNS1123Subdomain L (secret_name inst) = []"
  shows "delivers (served L inst) (build L inst) (\<lambda>r. \<exists>s. r = Inr s \<and>
    (\<forall>s'. s = Some s' \<longrightarrow> fresh_secret inst (secret_name inst) s'))"
  using delivers_results [OF draws [OF assms] result_fresh] by (rule delivers_mono) auto

lemma ensured:
  assumes L: "lib_laws L" and V: "libIsDNS1123Subdomain L (secret_name inst) = []"
  shows "delivers (served L inst) (ensureGeneratedSecret L inst (secret_name inst) (build L)) (\<lambda>e. e = None)"
proof -
  have owner: "libSetControllerReference L inst (secMeta s) =
      Inr ((secMeta s)\<lparr>omOwnerReferences := [controller_ref inst]\<rparr>)"
    if "fresh_secret inst (secret_name inst) s" for s
    using that lib_lawsD(4) [OF L] by (simp add: fresh_secret_def owner_laws_def)
  show ?thesis
    unfolding ensureGeneratedSecret_def
    using owner
    by (auto split: sum.split option.split
        intro!: ownership_delivers [OF L] delivers_bind [OF fresh_draws [OF V]])
qed

end

interpretation reliable_key: reliable_builder SecretKey SecretKeyName
  "\<lambda>inst. spSecretKeySecretRef (piSpec inst) \<noteq> None"
  by unfold_locales (auto simp: SecretKey_def validateName_def Let_def RandomKey_def)

interpretation reliable_admin: reliable_builder AdminSecret AdminSecretName admin_supplied
  by unfold_locales (auto simp: AdminSecret_def validateName_def Let_def RandomKey_def admin_supplied_def)

section \<open>The steps\<close>

lemma secrets_deliver:
  assumes L: "lib_laws L" and V: "nameable L inst"
  shows "delivers (served L inst) (reconcileSecrets L inst) (\<lambda>e. e = None)"
  unfolding reconcileSecrets_def
  using V by (auto simp: nameable_def
      intro!: delivers_check [OF reliable_key.ensured [OF L]] delivers_check [OF reliable_admin.ensured [OF L]])

lemma apply_log_served: "apply_log L owners objs es x \<Longrightarrow> list_all (served L inst) es \<Longrightarrow> x = Value None"
  by (induction objs arbitrary: es) auto

lemma storage_delivers:
  "lib_laws L \<Longrightarrow> delivers (served L inst) (reconcileStorage L inst) (\<lambda>e. e = None)"
  unfolding delivers_def
  by (rule wp_mono [OF conjunct1 [OF storage_applied_in_order]]) (auto dest: apply_log_served)

lemma cache_delivers:
  "lib_laws L \<Longrightarrow> delivers (served L inst) (reconcileCache L inst) (\<lambda>e. e = None)"
  unfolding delivers_def
  by (rule wp_mono [OF conjunct1 [OF cache_applied_in_order]]) (auto dest: apply_log_served)

lemma owned_delivers:
  assumes L: "lib_laws L" and x: "x \<in> set (step_objects L inst s)"
  shows "delivers (served L inst) (applyOwned L inst x) (\<lambda>r. \<exists>x'. r = Inr x')"
    and "delivers (served L inst) (applyStateful L inst x) (\<lambda>r. \<exists>x'. r = Inr x')"
proof -
  note ap = applied_value [OF L step_objects_typed [OF x]]
  obtain b p where "Apply L (with_refs [controller_ref inst] x) = PatchApply (with_refs [controller_ref inst] x)
      b fieldOwner True (\<lambda>r. Done (case r of Inl e \<Rightarrow> Inl (ErrorWrap p e) | Inr obj' \<Rightarrow> Inr obj'))"
    using ap [of "[controller_ref inst]"] by blast
  then show "delivers (served L inst) (applyOwned L inst x) (\<lambda>r. \<exists>x'. r = Inr x')"
    by (auto simp: applyOwned_fresh [OF lib_lawsD(4) [OF L] step_objects_fresh [OF x]])
  obtain b p where "Apply L (with_refs (stateful_owners inst) x) = PatchApply (with_refs (stateful_owners inst) x)
      b fieldOwner True (\<lambda>r. Done (case r of Inl e \<Rightarrow> Inl (ErrorWrap p e) | Inr obj' \<Rightarrow> Inr obj'))"
    using ap [of "stateful_owners inst"] by blast
  then show "delivers (served L inst) (applyStateful L inst x) (\<lambda>r. \<exists>x'. r = Inr x')"
    by (auto simp: applyStateful_fresh [OF lib_lawsD(4) [OF L] step_objects_fresh [OF x]])
qed

lemma error_delivers: "delivers G p (\<lambda>r. \<exists>x'. r = Inr x') \<Longrightarrow> delivers G (error_of p) (\<lambda>e. e = None)"
  unfolding error_of_def by (erule delivers_bind) auto

lemma database_delivers:
  assumes L: "lib_laws L" and V: "nameable L inst"
  shows "delivers (served L inst) (reconcileDatabase L inst) (\<lambda>x. snd x = Inr True)"
proof (cases "dbExternal (spDatabase (piSpec inst))")
  case (Some ext)
  then have k: "is_external_key inst (external_secret_key inst ext)" by (simp add: is_external_key_def)
  show ?thesis
    using Some lib_lawsD(3) [OF L]
    by (auto simp: reconcileDatabase_def reconcileExternalDatabase_def Let_def k not_found_laws_def
        bind_SetCondition split: sum.split)
next
  case None
  from V have "libIsDNS1123Subdomain L (DBName inst) = []" by (simp add: nameable_def)
  then obtain c where c: "CNPGCluster L inst = Value (Inr c)"
    using CNPGCluster_valid [OF lib_lawsD(1) [OF L] lib_lawsD(7) [OF L]] by blast
  then have "OUnstructured c \<in> set (step_objects L inst StDatabase)"
    using None by (simp add: cluster_objects_def IsExternal_def)
  from error_delivers [OF owned_delivers(2) [OF L this]] show ?thesis
    using None
    by (auto simp: reconcileDatabase_def reconcileManagedDatabase_def cnpgInstalled_def c
        bind_SetCondition intro!: delivers_bind)
qed

lemma workload_delivers:
  assumes L: "lib_laws L"
  shows "delivers (served L inst) (reconcileWorkload L inst) (\<lambda>x. snd x = None)"
proof -
  have objs: "OService (PaperlessService inst) \<in> set (step_objects L inst StWorkload)"
      "ODeployment (PaperlessDeployment L inst) \<in> set (step_objects L inst StWorkload)"
    by (simp_all add: workload_objects_def)
  show ?thesis
    unfolding reconcileWorkload_def Let_def
    by (rule delivers_bind [OF error_delivers [OF owned_delivers(1) [OF L objs(1)]]])
       (auto simp: bind_SetCondition intro!: delivers_bind [OF owned_delivers(1) [OF L objs(2)]])
qed

section \<open>The reconciler\<close>

lemma served_ignores_status: "only_conditions a b \<Longrightarrow> served L b = served L a"
proof -
  assume "only_conditions a b"
  then obtain cs where b: "b = PutConditions cs a" by (auto simp: only_conditions_def)
  show ?thesis
  proof
    have "is_external_key b = is_external_key a"
      by (auto simp: b is_external_key_def fun_eq_iff split: option.split)
    then show "served L b ev = served L a ev" for ev by (cases ev) (simp_all split: sum.split)
  qed
qed

lemma nameable_ignores_status: "only_conditions a b \<Longrightarrow> nameable L b = nameable L a"
  by (auto simp: nameable_def only_conditions_def DBName_def)

text \<open>One stage of the pipeline, then the rest, which may count on what the stage changes.\<close>

lemma stage_delivers:
  assumes "delivers G p (\<lambda>x. snd x = Inr True)" and "results (\<lambda>x. only_conditions inst (fst x)) p"
    and "\<And>i. only_conditions inst i \<Longrightarrow> delivers G (rest i) R"
  shows "delivers G (bind p (after_stage L s rest)) R"
  by (rule delivers_bind [OF delivers_results [OF assms(1,2)]]) (auto intro: assms(3))

lemma unconditional_delivers:
  "delivers G (p inst) (\<lambda>e. e = None) \<Longrightarrow> delivers G (unconditional p inst) (\<lambda>x. snd x = Inr True)"
  unfolding unconditional_def by (erule delivers_bind) simp

lemma workload_body_delivers:
  "delivers G (reconcileWorkload L inst) (\<lambda>x. snd x = None) \<Longrightarrow>
   delivers G (workload_body L inst) (\<lambda>x. snd x = Inr True)"
  unfolding workload_body_def by (erule delivers_bind) auto

lemma stage_body_delivers:
  assumes "lib_laws L" and "nameable L inst" and "s \<in> set (stages L)"
  shows "delivers (served L inst) (sgBody s inst) (\<lambda>x. snd x = Inr True)"
  using assms
  by (auto simp: stages_def intro!: unconditional_delivers workload_body_delivers secrets_deliver
      storage_delivers database_delivers cache_delivers workload_delivers)

lemma stages_deliver:
  assumes L: "lib_laws L"
  shows "set ss \<subseteq> set (stages L) \<Longrightarrow> nameable L inst \<Longrightarrow>
    delivers (served L inst) (run_stages L ss inst) through"
proof (induction ss arbitrary: inst)
  case (Cons s ss)
  then have s: "s \<in> set (stages L)" by simp
  then have "stage_ok L s" using stages_ok [of L] by (simp add: list_all_iff)
  then have fr: "results (\<lambda>x. frame (sgTouches s) inst (fst x)) (sgBody s inst)"
    using L by (simp add: stage_ok_def reconcile_step_def)
  have "results (\<lambda>x. only_conditions inst (fst x)) (sgBody s inst)"
    using results_bind [OF fr, of "\<lambda>x. only_conditions inst (fst x)" Done] frame_only by simp
  moreover have "delivers (served L inst) (run_stages L ss i) through" if oc: "only_conditions inst i" for i
    using Cons.IH [of i] Cons.prems
    by (simp add: served_ignores_status [OF oc] nameable_ignores_status [OF oc])
  ultimately show ?case
    unfolding run_stages.simps by (rule stage_delivers [OF stage_body_delivers [OF L Cons.prems(2) s]])
qed (simp add: through_def)

lemma after_read_delivers:
  assumes L: "lib_laws L" and V: "nameable L inst"
  shows "delivers (served L inst) (after_read L inst) (\<lambda>y. y = (zero_result, None))"
proof -
  let ?i = "\<lambda>t. set_at L t inst ConditionReady ConditionFalse ''Reconciling'' ''the operator is reconciling this instance''"
  have oc: "only_conditions inst (?i t)" for t by simp
  have "delivers (served L inst) (reconcileInstance L (?i t)) through" for t
    using stages_deliver [OF L, of "stages L" "?i t"] V
    by (simp add: reconcileInstance_stages served_ignores_status [OF oc] nameable_ignores_status [OF oc])
  then show ?thesis
    unfolding after_read_def bind_SetCondition
    by (auto intro!: delivers_bind simp: patchStatus_eq through_def)
qed

lemma after_read_completes:
  assumes "lib_laws L" and "nameable L inst"
  shows "wp (after_read L inst) (\<lambda>rest x. list_all (served L inst) rest \<longrightarrow>
      x = Value (zero_result, None) \<and> completed L inst rest \<and>
      (\<exists>inst'. last rest = EvPatchStatus inst' inst None \<and> database_ready inst' \<and>
         workload_reported L inst rest inst'))"
proof -
  have "wp (after_read L inst) (\<lambda>es x.
      (list_all (served L inst) es \<longrightarrow> (\<exists>y. x = Value y \<and> y = (zero_result, None))) \<and>
      (\<forall>y. x = Value y \<longrightarrow> y = (zero_result, None) \<longrightarrow> completed L inst es \<and>
        (\<exists>inst'. last es = EvPatchStatus inst' inst None \<and> database_ready inst' \<and>
          workload_reported L inst es inst')))"
    unfolding wp_conj
    using after_read_delivers [OF assms, unfolded delivers_def] after_read_done [OF assms(1), unfolded yields_def] ..
  then show ?thesis by (rule wp_mono) blast
qed

text \<open>
  C12: A reconciliation carries out its plan, and success means that the work is done. Whatever
  the API server answers, a reconciliation that ends with a result has applied a prefix of
  \<open>plan L inst\<close>: the instance's objects with the owners of their class, in the order of the
  steps, nothing skipped and nothing repeated; or it read no instance and did nothing else. If
  it returns no error and asks for no requeue, the instance was gone, or it has completed:
  the applies are exactly those of all the objects the instance may have, except for its two
  secrets, each once; the API server accepted every one of them; both generated secrets were
  found or created (unless the user supplies them); and the status it wrote, which was
  accepted too, says that the database is ready, and of \<open>Ready\<close> what the server's answer to the
  Deployment said.
\<close>

theorem success_means_completed:
  assumes "lib_laws L"
  shows "wp (Reconcile L req) (\<lambda>es x. \<forall>y. x = Value y \<longrightarrow>
    (case es of
       EvGetInstance k (Inr inst) # rest \<Rightarrow>
         prefix (applied rest) (plan L inst) \<and>
         (y = (zero_result, None) \<longrightarrow>
            applied rest = plan L inst \<and> map key_of (plan L inst) = drop 2 (object_keys inst) \<and>
            completed L inst rest \<and>
            (\<exists>inst'. last rest = EvPatchStatus inst' inst None \<and> database_ready inst' \<and>
               workload_reported L inst rest inst'))
     | EvGetInstance k (Inl e) # rest \<Rightarrow>
         rest = [] \<and> (y = (zero_result, None) \<longrightarrow> libIsNotFound L (Some e))
     | _ \<Rightarrow> False))"
proof -
  have "wp (after_read L inst) (\<lambda>rest x. \<forall>y. x = Value y \<longrightarrow> prefix (applied rest) (plan L inst) \<and>
      (y = (zero_result, None) \<longrightarrow>
         applied rest = plan L inst \<and> map key_of (plan L inst) = drop 2 (object_keys inst) \<and>
         completed L inst rest \<and>
         (\<exists>inst'. last rest = EvPatchStatus inst' inst None \<and> database_ready inst' \<and>
            workload_reported L inst rest inst')))" for inst
    using yields_conj [OF after_read_done [OF assms] after_read_follows [OF assms]]
    unfolding yields_def plan_done_def by (rule wp_mono) blast
  then show ?thesis
    by (auto simp: Reconcile_def Let_def after_read_def ignore_not_found [OF lib_lawsD(3) [OF assms]]
        split: sum.split if_splits)
qed

text \<open>
  C13: A reconciliation that is served completes. Suppose the names derived from the instance's for
  the two generated secrets and the cluster are valid object names (\<open>nameable\<close>), and every
  request after reading the instance is served (\<open>served\<close>: writes and draws succeed, CloudNativePG
  is installed, a secret is found or said to be missing, that of an external database is there
  with its two keys). Then it returns no error and no requeue; the secret key was found or
  created unless the user supplies it, and the admin secret unless the user supplies the
  password or disables the account; every claim, the cluster of a managed database, the objects
  of a managed cache, the Service and the Deployment were accepted by the API server with the
  owners of their class; and the status it wrote says that the database is ready, and of
  \<open>Ready\<close> what the server's answer to the Deployment said. So for an instance with valid names
  only an answer that is not served stops a reconciliation half-way.
\<close>

theorem served_reconciliation_completes:
  assumes "lib_laws L"
  shows "wp (Reconcile L req) (\<lambda>es x. case es of
      EvGetInstance k (Inr inst) # rest \<Rightarrow>
        nameable L inst \<longrightarrow> list_all (served L inst) rest \<longrightarrow>
        x = Value (zero_result, None) \<and> completed L inst rest \<and>
        (\<exists>inst'. last rest = EvPatchStatus inst' inst None \<and> database_ready inst' \<and>
           workload_reported L inst rest inst')
    | _ \<Rightarrow> True)"
  by (rule wp_Reconcile) (use after_read_completes [OF assms] in \<open>auto simp: wp_def\<close>)

text \<open>
  A server that serves every request, and whose Deployments have a ready replica: it has one
  instance, no secret, accepts everything, and its clock shows \<open>t\<close>.
\<close>

definition with_replica :: "kobject \<Rightarrow> kobject" where
  "with_replica obj = (case obj of ODeployment d \<Rightarrow> ODeployment (d\<lparr>depReadyReplicas := 1\<rparr>) | _ \<Rightarrow> obj)"

definition serving :: "PaperlessInstance \<Rightarrow> nat \<Rightarrow> unit handler" where
  "serving inst t = \<lparr>
     hGetInstance = (\<lambda>k w. (Inr inst, w)),
     hGetSecret = (\<lambda>k w. (Inl (ErrorStatus ''NotFound'' ''not found''), w)),
     hGetCRD = (\<lambda>n w. (None, w)),
     hCreateSecret = (\<lambda>s w. (None, w)),
     hPatchApply = (\<lambda>obj b o' fo w. (Inr (with_replica obj), w)),
     hPatchMerge = (\<lambda>s b o' w. (None, w)),
     hPatchStatus = (\<lambda>i b w. (None, w)),
     hReadRand = (\<lambda>n w. (Inr (\<lambda>_. 0), w)),
     hNow = (\<lambda>w. (t, w))\<rparr>"

lemma serving_serves:
  assumes "dbExternal (spDatabase (piSpec inst)) = None" and "list_all (answered (serving inst t)) es"
  shows "list_all (served ref_lib inst) es"
  using assms(2)
proof (rule list.pred_mono_strong)
  fix ev assume "answered (serving inst t) ev"
  then show "served ref_lib inst ev"
    using assms(1) unfolding answered_def
    by (cases ev) (auto simp: serving_def is_external_key_def ref_is_not_found_def)
qed

lemma serving_ready:
  "answered (serving inst t) (EvPatchApply (with_refs refs (ODeployment d)) b o' fo (Inr resp)) \<Longrightarrow> reports_ready resp"
  by (auto simp: answered_def serving_def with_replica_def reports_ready_def with_refs_def)

text \<open>What its log looks like.\<close>

lemma serving_log:
  obtains rest where "events (run (serving inst t) (Reconcile L k) w) = EvGetInstance k (Inr inst) # rest"
    and "list_all (answered (serving inst t)) rest"
proof -
  obtain rest where ev: "events (run (serving inst t) (Reconcile L k) w) = EvGetInstance k (Inr inst) # rest"
    by (simp add: Reconcile_def serving_def)
  then show thesis using that run_answered [of "serving inst t" "Reconcile L k" w] by simp
qed

lemma serving_says_ready:
  assumes "list_all (answered (serving inst t)) es" and "workload_reported L inst es inst'"
  shows "says inst' ConditionReady ConditionTrue ''WorkloadReady'' \<and> es \<noteq> []"
proof -
  obtain b resp where e: "EvPatchApply (with_refs [controller_ref inst]
      (ODeployment (PaperlessDeployment L inst))) b fieldOwner True (Inr resp) \<in> set es"
    and s: "if reports_ready resp then says inst' ConditionReady ConditionTrue ''WorkloadReady''
      else says inst' ConditionReady ConditionFalse ''WorkloadNotReady''"
    using assms(2) unfolding workload_reported_def by blast
  have "reports_ready resp" using assms(1) e serving_ready unfolding list_all_iff by blast
  with s e show ?thesis by auto
qed

lemma docs_nameable: "nameable ref_lib ((bare_instance ''docs'' ''ns'' ''u'')\<lparr>piStatus := st\<rparr>)"
proof -
  let ?i = "(bare_instance ''docs'' ''ns'' ''u'')\<lparr>piStatus := st\<rparr>"
  have names: "SecretKeyName ?i = ''docs-secret-key''" "AdminSecretName ?i = ''docs-admin''" "DBName ?i = ''docs-db''"
    by (simp_all add: bare_instance_def name_defs derivedName_def)
  have "libIsDNS1123Subdomain ref_lib ''docs-secret-key'' = []" "libIsDNS1123Subdomain ref_lib ''docs-admin'' = []"
    "libIsDNS1123Subdomain ref_lib ''docs-db'' = []"
    by code_simp+
  then show ?thesis unfolding nameable_def names by simp
qed

text \<open>
  A name that passes the check can still be refused: it is also the value of a label, which
  Kubernetes limits to 63 characters, and the name of a Service, which must not contain a dot.
\<close>

lemma long_names_pass:
  "let inst = bare_instance (replicate 64 (CHR ''a'')) ''ns'' ''u''
   in nameable ref_lib inst \<and>
      (\<exists>v. commonLabels inst component ''app.kubernetes.io/instance'' = Some v \<and> 63 < length v)"
proof -
  let ?i = "bare_instance (replicate 64 (CHR ''a'')) ''ns'' ''u''"
  have n: "inst_name ?i = replicate 64 (CHR ''a'')" by (simp add: bare_instance_def)
  have "libIsDNS1123Subdomain ref_lib (replicate 64 (CHR ''a'') @ ''-'' @ s) = []"
    if "s \<in> {''secret-key'', ''admin'', ''db''}" for s
    using that by (elim insertE emptyE) (simp_all only:, code_simp+)
  then have "nameable ref_lib ?i" by (simp add: nameable_def name_defs derivedName_def n)
  then show ?thesis by (simp add: n commonLabels_def)
qed

lemma dotted_names_pass:
  "nameable ref_lib (bare_instance ''docs.v2'' ''ns'' ''u'') \<and>
   CHR ''.'' \<in> set (omName (svcMeta (PaperlessService (bare_instance ''docs.v2'' ''ns'' ''u''))))"
proof -
  let ?i = "bare_instance ''docs.v2'' ''ns'' ''u''"
  have n: "inst_name ?i = ''docs.v2''" by (simp add: bare_instance_def)
  have "libIsDNS1123Subdomain ref_lib (''docs.v2'' @ ''-'' @ s) = []"
    if "s \<in> {''secret-key'', ''admin'', ''db''}" for s
    using that by (elim insertE emptyE) (simp_all only:, code_simp+)
  then have "nameable ref_lib ?i" by (simp add: nameable_def name_defs derivedName_def n)
  then show ?thesis by (simp add: PaperlessService_def n Let_def)
qed

text \<open>Its run for the instance \<open>docs\<close>.\<close>

lemma docs_served:
  defines "i \<equiv> bare_instance ''docs'' ''ns'' ''u''"
  obtains rest where "events (run (serving i 7) (Reconcile ref_lib docs_key) ()) = EvGetInstance docs_key (Inr i) # rest"
    and "list_all (answered (serving i 7)) rest" and "nameable ref_lib i" and "list_all (served ref_lib i) rest"
proof -
  obtain rest where ev: "events (run (serving i 7) (Reconcile ref_lib docs_key) ()) = EvGetInstance docs_key (Inr i) # rest"
    and ans: "list_all (answered (serving i 7)) rest" by (rule serving_log)
  have "nameable ref_lib i" using docs_nameable [of "piStatus i"] by (simp add: i_def)
  moreover have "list_all (served ref_lib i) rest"
    by (rule serving_serves [OF _ ans]) (simp add: i_def bare_instance_def zero_spec_def)
  ultimately show thesis using that ev ans by blast
qed

theorem success_means_completed_witness:
  "let i = bare_instance ''docs'' ''ns'' ''u'';
       es = tl (events (run (serving i 7) (Reconcile ref_lib docs_key) ()))
   in completed ref_lib i es \<and> map key_of (applied es) = drop 2 (object_keys i)"
proof -
  let ?i = "bare_instance ''docs'' ''ns'' ''u''"
  let ?o = "run (serving ?i 7) (Reconcile ref_lib docs_key) ()"
  obtain rest where ev: "events ?o = EvGetInstance docs_key (Inr ?i) # rest"
    and "nameable ref_lib ?i" "list_all (served ref_lib ?i) rest" by (rule docs_served)
  then have "result ?o = Value (zero_result, None)"
    using wp_run [OF wp_Reconcile [of ref_lib "\<lambda>inst rest x. nameable ref_lib inst \<longrightarrow>
        list_all (served ref_lib inst) rest \<longrightarrow> x = Value (zero_result, None)" docs_key], of "serving ?i 7" "()"]
      after_read_completes [OF ref_lib_laws]
    by (auto simp: wp_def)
  then show ?thesis
    using wp_run [OF success_means_completed [OF ref_lib_laws, of docs_key], of "serving ?i 7" "()"] by (simp add: ev Let_def)
qed

theorem served_reconciliation_completes_witness:
  "let i = bare_instance ''docs'' ''ns'' ''u''; o' = run (serving i 7) (Reconcile ref_lib docs_key) ()
   in result o' = Value (zero_result, None) \<and>
      (\<exists>inst'. last (events o') = EvPatchStatus inst' i None \<and>
         says inst' ConditionReady ConditionTrue ''WorkloadReady'')"
proof -
  let ?i = "bare_instance ''docs'' ''ns'' ''u''"
  let ?o = "run (serving ?i 7) (Reconcile ref_lib docs_key) ()"
  obtain rest where ev: "events ?o = EvGetInstance docs_key (Inr ?i) # rest"
    and ans: "list_all (answered (serving ?i 7)) rest"
    and s: "nameable ref_lib ?i" "list_all (served ref_lib ?i) rest" by (rule docs_served)
  from s have "result ?o = Value (zero_result, None)"
      "\<exists>inst'. last rest = EvPatchStatus inst' ?i None \<and> database_ready inst' \<and>
        workload_reported ref_lib ?i rest inst'"
    using wp_run [OF served_reconciliation_completes [OF ref_lib_laws, of docs_key], of "serving ?i 7" "()"]
    unfolding ev by simp_all
  then show ?thesis
    using ev serving_says_ready [OF ans] by (fastforce simp: Let_def)
qed

end
