(* ===== verification/Status_Settles.thy ===== *)
theory Status_Settles
  imports Completion
begin

text \<open>
  What a reconciliation writes to the status of an instance that is not ready: with the same
  verdicts as before, nothing new.
\<close>

section \<open>The conditions as a list\<close>

text \<open>Conditions are appended, never dropped or reordered, and no type gets a second entry.\<close>

definition extends :: "PaperlessInstance \<Rightarrow> PaperlessInstance \<Rightarrow> bool" where
  "extends a b \<longleftrightarrow> (\<exists>ts. map cdType (GetConditions b) = map cdType (GetConditions a) @ ts \<and>
     (distinct (map cdType (GetConditions a)) \<longrightarrow> distinct (map cdType (GetConditions b))))"

lemma extends_refl [simp]: "extends a a"
  by (simp add: extends_def)

lemma GetConditions_Put [simp]: "GetConditions (PutConditions cs inst) = cs"
  by (simp add: GetConditions_def PutConditions_def)

lemma extends_set_at: "condition_laws L \<Longrightarrow> extends a b \<Longrightarrow> extends a (set_at L t b ty st re m)"
proof -
  assume C: "condition_laws L" and "extends a b"
  then obtain ts where ts: "map cdType (GetConditions b) = map cdType (GetConditions a) @ ts"
    and d: "distinct (map cdType (GetConditions a)) \<Longrightarrow> distinct (map cdType (GetConditions b))"
    unfolding extends_def by blast
  have "map cdType (GetConditions (set_at L t b ty st re m)) =
      (if ty \<in> set (map cdType (GetConditions b)) then map cdType (GetConditions b)
       else map cdType (GetConditions b) @ [ty])"
    using C by (simp add: set_at_def condition_laws_def)
  then show ?thesis
    unfolding extends_def using ts d distinct_set_at [OF C, of b t ty st re m] by auto
qed

text \<open>With the same types in the same order, lists with the same condition of each type are the same.\<close>

lemma conditions_equal:
  assumes "map cdType cs = map cdType ds" and "distinct (map cdType cs)"
    and "\<And>ty. find_condition cs ty = find_condition ds ty"
  shows "cs = ds"
proof (rule nth_equalityI)
  show len: "length cs = length ds" using assms(1) by (metis length_map)
  have find: "find_condition xs (cdType (xs ! i)) = Some (xs ! i)" if "i < length xs" "distinct (map cdType xs)"
    for xs :: "Condition list" and i
  proof -
    have "\<not> j < i" if "cdType (xs ! j) = cdType (xs ! i)" for j
      using nth_eq_iff_index_eq [OF \<open>distinct (map cdType xs)\<close>, of j i] that \<open>i < length xs\<close> by auto
    then show ?thesis unfolding find_condition_def using that(1)
      by (auto simp: find_Some_iff intro!: exI [of _ i])
  qed
  fix i assume i: "i < length cs"
  have "cdType (cs ! i) = cdType (ds ! i)" using assms(1) i len by (metis nth_map)
  then show "cs ! i = ds ! i"
    using find [OF i assms(2)] find [of i ds] assms len i by simp
qed


section \<open>Through the steps\<close>

text \<open>The database step sets its condition at most once, the workload step only when it succeeds.\<close>

definition sets :: "Lib \<Rightarrow> string \<Rightarrow> PaperlessInstance \<Rightarrow> PaperlessInstance \<Rightarrow> bool" where
  "sets L ty inst i \<longleftrightarrow> (\<exists>t st re m. st \<in> {ConditionTrue, ConditionFalse} \<and> i = set_at L t inst ty st re m)"

lemma sets_set_at [simp]:
  "sets L ty inst (set_at L t inst ty ConditionTrue re m)" "sets L ty inst (set_at L t inst ty ConditionFalse re m)"
  unfolding sets_def by blast+

definition at_most_sets :: "Lib \<Rightarrow> string \<Rightarrow> PaperlessInstance \<Rightarrow> PaperlessInstance \<Rightarrow> bool" where
  "at_most_sets L ty inst i \<longleftrightarrow> i = inst \<or> sets L ty inst i"

lemma at_most_sets_simps [simp]:
  "at_most_sets L ty inst inst"
  "at_most_sets L ty inst (set_at L t inst ty ConditionTrue re m)"
  "at_most_sets L ty inst (set_at L t inst ty ConditionFalse re m)"
  unfolding at_most_sets_def by simp_all

lemma keys_sets: "results (\<lambda>x. at_most_sets L ConditionDatabaseReady inst (fst x)) (requireKeys L inst ext secret ks)"
  by (induction ks) (auto simp: bind_SetCondition)

lemma database_sets:
  "results (\<lambda>x. at_most_sets L ConditionDatabaseReady inst (fst x)) (reconcileDatabase L inst)"
  unfolding reconcileDatabase_def reconcileExternalDatabase_def reconcileManagedDatabase_def Let_def
  by (auto simp: bind_SetCondition keys_sets
      intro!: results_bind_any split: option.split sum.split bool.split)

lemma workload_sets:
  "results (\<lambda>x. if snd x = Inr True then sets L ConditionReady inst (fst x) else fst x = inst) (workload_body L inst)"
  unfolding workload_body_def reconcileWorkload_def bind_assoc
proof (rule results_bind_any, goal_cases)
  case (1 r)
  show ?case
  proof (cases r)
    case None
    show ?thesis
      unfolding None option.case Let_def bind_assoc
      by (rule results_bind_any) (auto simp: bind_SetCondition bind_assoc split: sum.split)
  qed simp
qed

text \<open>
  The transition time of a condition is the one that was read, when its status is.
\<close>

definition steady :: "string \<Rightarrow> PaperlessInstance \<Rightarrow> PaperlessInstance \<Rightarrow> bool" where
  "steady ty a b \<longleftrightarrow> (\<forall>c c'. cond a ty = Some c \<longrightarrow> cond b ty = Some c' \<longrightarrow> cdStatus c' = cdStatus c \<longrightarrow>
     cdLastTransitionTime c' = cdLastTransitionTime c)"

lemma steady_same: "cond b ty = cond a ty \<Longrightarrow> steady ty a b"
  unfolding steady_def by (metis option.inject)

lemma steady_cong: "steady ty a b \<Longrightarrow> cond b' ty = cond b ty \<Longrightarrow> steady ty a b'"
  unfolding steady_def by metis

definition pending :: "PaperlessInstance \<Rightarrow> PaperlessInstance \<Rightarrow> bool" where
  "pending a b \<longleftrightarrow> (\<exists>c. cond b ConditionReady = Some c \<and> cdStatus c = ConditionFalse) \<and> steady ConditionReady a b"

lemma pending_set_at:
  assumes C: "condition_laws L" and P: "pending a b"
  shows "pending a (set_at L t b ConditionReady ConditionFalse re m)"
proof -
  obtain c where c: "cond b ConditionReady = Some c" "cdStatus c = ConditionFalse"
    and s: "steady ConditionReady a b" using P unfolding pending_def by blast
  obtain c' where c': "cond (set_at L t b ConditionReady ConditionFalse re m) ConditionReady = Some c'"
    "cdStatus c' = ConditionFalse" "cdLastTransitionTime c' = cdLastTransitionTime c"
    using c by (simp add: cond_set_at [OF C] stamped_def)
  show ?thesis
    using s unfolding pending_def steady_def c c' by (simp add: c c')
qed

lemma pending_first:
  assumes C: "condition_laws L"
  shows "pending a (set_at L t a ConditionReady ConditionFalse re m)"
  unfolding pending_def steady_def cond_set_at [OF C] by (simp add: stamped_def)

text \<open>From the instance as read to the one of a step, and to the one that is written.\<close>

definition underway :: "bool \<Rightarrow> PaperlessInstance \<Rightarrow> PaperlessInstance \<Rightarrow> bool" where
  "underway asked a b \<longleftrightarrow> extends a b \<and> pending a b \<and>
     (if asked then steady ConditionDatabaseReady a b
      else cond b ConditionDatabaseReady = cond a ConditionDatabaseReady)"

definition settled :: "PaperlessInstance \<Rightarrow> PaperlessInstance \<Rightarrow> bool" where
  "settled a b \<longleftrightarrow> extends a b \<and> steady ConditionDatabaseReady a b \<and>
     (\<exists>c. cond b ConditionReady = Some c \<and>
        (cdStatus c = ConditionTrue \<or> cdStatus c = ConditionFalse \<and> steady ConditionReady a b))"

lemma underway_first:
  assumes C: "condition_laws L"
  shows "underway False a (set_at L t a ConditionReady ConditionFalse re m)"
proof -
  have "cond (set_at L t a ConditionReady ConditionFalse re m) ConditionDatabaseReady = cond a ConditionDatabaseReady"
    by (simp add: cond_set_at [OF C] ConditionReady_def ConditionDatabaseReady_def)
  then show ?thesis
    using extends_set_at [OF C extends_refl] pending_first [OF C] by (simp add: underway_def)
qed

lemma underway_mono: "underway q a b \<Longrightarrow> underway True a b"
  unfolding underway_def by (cases q) (simp_all add: steady_same)

lemma underway_database:
  assumes C: "condition_laws L" and U: "underway False a b" and i: "at_most_sets L ConditionDatabaseReady b i"
  shows "underway True a i"
proof (cases "i = b")
  case False
  with i obtain t st re m where i: "i = set_at L t b ConditionDatabaseReady st re m"
    by (auto simp: at_most_sets_def sets_def)
  have r: "cond i ConditionReady = cond b ConditionReady"
    by (simp add: i cond_set_at [OF C] ConditionReady_def ConditionDatabaseReady_def)
  obtain c' where c': "cond i ConditionDatabaseReady = Some c'" and
    t: "cdLastTransitionTime c' = (case cond a ConditionDatabaseReady of None \<Rightarrow> t
      | Some o' \<Rightarrow> if cdStatus o' = cdStatus c' then cdLastTransitionTime o' else t)"
    using U by (cases "cond a ConditionDatabaseReady") (simp_all add: i cond_set_at [OF C] underway_def stamped_def)
  have "steady ConditionDatabaseReady a i"
    unfolding steady_def c' using t by simp
  moreover have "extends a i" unfolding i using U by (intro extends_set_at [OF C]) (simp add: underway_def)
  moreover have "pending a i"
    using U r steady_cong [OF _ r] unfolding underway_def pending_def by simp
  ultimately show ?thesis by (simp add: underway_def)
qed (use underway_mono [OF U] in simp)

lemma settled_set:
  assumes C: "condition_laws L" and U: "underway q a b" and i: "sets L ConditionReady b i"
  shows "settled a i"
proof -
  from i obtain t st re m where st: "st = ConditionTrue \<or> st = ConditionFalse"
    and i: "i = set_at L t b ConditionReady st re m" by (auto simp: sets_def)
  have U: "extends a b" "pending a b" "steady ConditionDatabaseReady a b"
    using underway_mono [OF U] by (simp_all add: underway_def)
  have "cond i ConditionDatabaseReady = cond b ConditionDatabaseReady"
    by (simp add: i cond_set_at [OF C] ConditionReady_def ConditionDatabaseReady_def)
  then have db: "steady ConditionDatabaseReady a i" by (rule steady_cong [OF U(3)])
  have ex: "extends a i" unfolding i by (rule extends_set_at [OF C U(1)])
  from st show ?thesis
  proof
    assume "st = ConditionTrue"
    then show ?thesis using db ex by (simp add: settled_def i cond_set_at [OF C])
  next
    assume "st = ConditionFalse"
    then have "pending a i" unfolding i using pending_set_at [OF C U(2)] by simp
    then show ?thesis using db ex unfolding settled_def pending_def by blast
  qed
qed

lemma settles_stage:
  assumes C: "condition_laws L" and p: "results (\<lambda>x. underway q a (fst x)) p"
    and rest: "\<And>i. underway q a i \<Longrightarrow> results (\<lambda>x. settled a (fst x)) (rest i)"
  shows "results (\<lambda>x. settled a (fst x)) (bind p (after_stage L s rest))"
proof (rule results_bind [OF p])
  fix y :: "PaperlessInstance \<times> (gerror + bool)" assume u: "underway q a (fst y)"
  then show "results (\<lambda>x. settled a (fst x)) (after_stage L s rest y)"
    using rest settled_set [OF C u]
    by (cases "(L, s, rest, y)" rule: after_stage.cases)
       (auto simp: step_failed_def database_not_ready_def bind_SetCondition)
qed

lemma settles_last:
  assumes C: "condition_laws L" and U: "underway True a inst"
  shows "results (\<lambda>x. settled a (fst x)) (bind (workload_body L inst) (after_stage L s (run_stages L [])))"
proof (rule results_bind [OF workload_sets])
  fix y :: "PaperlessInstance \<times> (gerror + bool)"
  assume y: "if snd y = Inr True then sets L ConditionReady inst (fst y) else fst y = inst"
  show "results (\<lambda>x. settled a (fst x)) (after_stage L s (run_stages L []) y)"
    using y settled_set [OF C U]
    by (cases "(L, s, run_stages L [], y)" rule: after_stage.cases)
       (auto simp: step_failed_def database_not_ready_def bind_SetCondition)
qed

lemma unconditional_keeps: "P inst \<Longrightarrow> results (\<lambda>x. P (fst x)) (unconditional p inst)"
  unfolding unconditional_def by (rule results_bind_any) simp

lemma instance_settles:
  assumes C: "condition_laws L" and U: "underway False a inst"
  shows "results (\<lambda>x. settled a (fst x)) (reconcileInstance L inst)"
proof -
  have db: "results (\<lambda>x. underway True a (fst x)) (reconcileDatabase L i)" if "underway False a i" for i
    using results_bind [OF database_sets [of L i], of "\<lambda>x. underway True a (fst x)" Done]
      underway_database [OF C that] by simp
  have wl: "results (\<lambda>x. settled a (fst x)) (bind (workload_body L i) (after_stage L s (\<lambda>inst. Done (inst, zero_result, None))))"
    if "underway True a i" for i s
    using settles_last [OF C that, of s] by simp
  show ?thesis
    unfolding reconcileInstance_stages stages_def run_stages.simps stage.simps
    by (rule settles_stage [OF C unconditional_keeps [of "underway False a", OF U]],
        rule settles_stage [OF C unconditional_keeps [of "underway False a"]], assumption,
        rule settles_stage [OF C db], assumption,
        rule settles_stage [OF C unconditional_keeps [of "underway True a"]], assumption, rule wl)
qed

section \<open>The status that is written\<close>

definition not_ready :: "PaperlessInstance \<Rightarrow> bool" where
  "not_ready inst \<longleftrightarrow> (\<forall>c. cond inst ConditionReady = Some c \<longrightarrow> cdStatus c \<noteq> ConditionTrue)"

text \<open>What a condition says, without its transition time.\<close>

definition verdict :: "PaperlessInstance \<Rightarrow> string \<Rightarrow> (string \<times> string \<times> string \<times> i64) option" where
  "verdict inst ty = map_option (\<lambda>c. (cdStatus c, cdReason c, cdMessage c, cdObservedGeneration c)) (cond inst ty)"

lemma find_condition_type: "find_condition cs ty = Some c \<Longrightarrow> cdType c = ty"
  by (auto simp: find_condition_def find_Some_iff)

lemma same_condition:
  assumes "verdict b ty = verdict a ty" and "steady ty a b"
  shows "cond b ty = cond a ty"
proof (cases "cond a ty")
  case (Some c)
  then obtain c' where c': "cond b ty = Some c'" using assms(1) by (auto simp: verdict_def)
  have "cdType c = ty" "cdType c' = ty" using Some c' by (simp_all add: cond_def find_condition_type)
  then show ?thesis
    using assms Some c' by (cases c; cases c') (simp add: verdict_def steady_def)
qed (use assms in \<open>simp add: verdict_def\<close>)

lemma find_condition_None: "find_condition cs ty = None \<longleftrightarrow> ty \<notin> set (map cdType cs)"
  by (auto simp: find_condition_def find_None_iff)

lemma extends_same:
  assumes "extends a b" and "distinct (map cdType (GetConditions a))" and same: "\<And>ty. cond b ty = cond a ty"
  shows "GetConditions b = GetConditions a"
proof -
  from assms(1,2) obtain ts where ts: "map cdType (GetConditions b) = map cdType (GetConditions a) @ ts"
    and d: "distinct (map cdType (GetConditions b))" unfolding extends_def by blast
  have "ts = []"
  proof (rule ccontr)
    assume "ts \<noteq> []"
    then obtain ty where "ty \<in> set ts" by (cases ts) auto
    then have "ty \<in> set (map cdType (GetConditions b))" "ty \<notin> set (map cdType (GetConditions a))"
      using d unfolding ts by auto
    then show False using same [of ty] unfolding cond_def by (metis find_condition_None)
  qed
  with ts d same show ?thesis by (intro conditions_equal) (simp_all add: cond_def)
qed

text \<open>
  An unchanged verdict that is not "ready": the status computed from the generation the status
  was already computed from is the status that was read.
\<close>

lemma status_same:
  assumes fr: "frame {ConditionReady, ConditionDatabaseReady} a b" and st: "settled a b"
    and d: "distinct (map cdType (GetConditions a))" and nt: "not_ready b"
    and v: "verdict b ConditionReady = verdict a ConditionReady"
      "verdict b ConditionDatabaseReady = verdict a ConditionDatabaseReady"
    and g: "psObservedGeneration (piStatus a) = omGeneration (piMeta a)"
  shows "piStatus (observed b) = piStatus a"
proof -
  from st obtain c where "cond b ConditionReady = Some c"
      "cdStatus c = ConditionTrue \<or> cdStatus c = ConditionFalse \<and> steady ConditionReady a b"
    unfolding settled_def by blast
  with nt have "steady ConditionReady a b" unfolding not_ready_def by blast
  then have "cond b ConditionReady = cond a ConditionReady" by (rule same_condition [OF v(1)])
  moreover from st have "steady ConditionDatabaseReady a b" unfolding settled_def by blast
  then have "cond b ConditionDatabaseReady = cond a ConditionDatabaseReady" by (rule same_condition [OF v(2)])
  ultimately have "cond b ty = cond a ty" if "ty = ConditionReady \<or> ty = ConditionDatabaseReady" for ty
    using that by metis
  moreover have "cond b ty = cond a ty" if "\<not> (ty = ConditionReady \<or> ty = ConditionDatabaseReady)" for ty
    using fr that unfolding frame_def by blast
  ultimately have same: "cond b ty = cond a ty" for ty by metis
  have "GetConditions b = GetConditions a"
    using extends_same [OF _ d same] st unfolding settled_def by blast
  moreover obtain cs where "b = PutConditions cs a" using frame_only [OF fr] by (auto simp: only_conditions_def)
  ultimately show ?thesis
    using g by (simp add: observed_def PutConditions_def GetConditions_def)
qed

text \<open>
  What a run writes: the transition time of \<open>DatabaseReady\<close> moves only when its status does, that
  of a \<open>Ready\<close> that is not true likewise, and with unchanged verdicts, read from a status that
  observed the current generation, the status of an instance that is not ready is written as
  it was read, so the patch is empty and nothing happens in the cluster.
\<close>

definition settles_status :: "PaperlessInstance \<Rightarrow> event list \<Rightarrow> bool" where
  "settles_status inst es \<longleftrightarrow> (\<exists>pre inst' r. es = pre @ [EvPatchStatus inst' inst r] \<and>
     steady ConditionDatabaseReady inst inst' \<and>
     (not_ready inst' \<longrightarrow> steady ConditionReady inst inst' \<and>
       (distinct (map cdType (GetConditions inst)) \<longrightarrow>
        verdict inst' ConditionReady = verdict inst ConditionReady \<longrightarrow>
        verdict inst' ConditionDatabaseReady = verdict inst ConditionDatabaseReady \<longrightarrow>
        psObservedGeneration (piStatus inst) = omGeneration (piMeta inst) \<longrightarrow>
        piStatus inst' = piStatus inst)))"

lemma observed_views [simp]:
  "steady ty a (observed b) = steady ty a b"
  "not_ready (observed b) = not_ready b"
  "verdict (observed b) ty = verdict b ty"
  by (simp_all add: steady_def not_ready_def verdict_def)

lemma settles_statusI:
  assumes "frame {ConditionReady, ConditionDatabaseReady} inst i" and st: "settled inst i"
  shows "settles_status inst (pre @ [EvPatchStatus (observed i) inst r])"
proof -
  have "steady ConditionReady inst i" if "not_ready i"
    using st that unfolding settled_def not_ready_def by blast
  moreover have "steady ConditionDatabaseReady inst i" using st unfolding settled_def by blast
  ultimately show ?thesis
    using status_same [OF assms] unfolding settles_status_def by auto
qed

lemma after_read_settles:
  assumes C: "condition_laws L"
  shows "wp (after_read L inst) (\<lambda>es x. is_value x \<longrightarrow>
    (\<exists>pre i r. es = pre @ [EvPatchStatus (observed i) inst r] \<and> settled inst i))"
proof -
  have inst: "yields (reconcileInstance L (set_at L t inst ConditionReady ConditionFalse re m)) (\<lambda>es x. settled inst (fst x))" for t re m
    by (rule yields_results [OF instance_settles [OF C underway_first [OF C]]])
  have "yields (after_read L inst) (\<lambda>es y. \<exists>pre i r. es = pre @ [EvPatchStatus (observed i) inst r] \<and> settled inst i)"
    unfolding after_read_def bind_SetCondition
    by (auto intro!: yields_bind [OF inst] simp: patchStatus_eq split: option.split)
  then show ?thesis
    unfolding yields_def
  proof (rule wp_mono)
    fix es and x :: "(Result \<times> err) go"
    assume "\<forall>y. x = Value y \<longrightarrow> (\<exists>pre i r. es = pre @ [EvPatchStatus (observed i) inst r] \<and> settled inst i)"
    then show "is_value x \<longrightarrow> (\<exists>pre i r. es = pre @ [EvPatchStatus (observed i) inst r] \<and> settled inst i)"
      by (cases x) simp_all
  qed
qed

lemma Reconcile_settles:
  assumes L: "lib_laws L"
  shows "wp (Reconcile L req) (\<lambda>es x. case es of
      EvGetInstance k (Inr inst) # rest \<Rightarrow> settles_status inst rest | _ \<Rightarrow> True)"
proof -
  have "wp (Reconcile L req) (\<lambda>es x. (case es of EvGetInstance k (Inr inst) # rest \<Rightarrow>
      is_value x \<longrightarrow> (\<exists>pre i r. rest = pre @ [EvPatchStatus (observed i) inst r] \<and> settled inst i) | _ \<Rightarrow> True) \<and>
      (missing_run L req es x \<or> (\<exists>inst tags mid inst' r res e. full_run L req inst tags mid inst' r res e es x)))"
    unfolding wp_conj
    using wp_Reconcile [OF after_read_settles [OF lib_lawsD(2) [OF L]]] Reconcile_runs [OF L] by blast
  then show ?thesis
  proof (rule wp_mono, elim conjE disjE exE, goal_cases)
    case (2 es x inst tags mid inst' r res e)
    then have es: "es = EvGetInstance req (Inr inst) # mid @ [EvPatchStatus (observed inst') inst r]"
      and fr: "frame {ConditionReady, ConditionDatabaseReady} inst inst'" and v: "is_value x"
      unfolding full_run_def by auto
    from 2(2) v obtain pre i r' where
      eq: "mid @ [EvPatchStatus (observed inst') inst r] = pre @ [EvPatchStatus (observed i) inst r']"
      and st: "settled inst i" unfolding es by auto
    from eq have ob: "observed i = observed inst'" by simp
    have "GetConditions i = GetConditions inst'"
      using arg_cong [OF ob, of GetConditions] by (simp add: observed_def GetConditions_def)
    then have "settled inst inst' = settled inst i"
      unfolding settled_def extends_def steady_def cond_def by (simp only:)
    with st have "settled inst inst'" by simp
    from settles_statusI [OF fr this] show ?case by (simp add: es)
  qed (auto simp: missing_run_def)
qed

end
