(* ===== verification/Status_Writes.thy ===== *)
theory Status_Writes
  imports Progress Status_Settles
begin

text \<open>
  What a reconciliation writes to the status of an instance that is already ready. \<open>Reconcile\<close>
  sets \<open>Ready\<close> to false before its steps run and the workload step sets it to true again, so
  its transition time is always one of this very reconciliation.
\<close>

section \<open>The transition time of \<open>Ready\<close>\<close>

text \<open>If \<open>Ready\<close> is true, it became so at a time that was read in this log.\<close>

definition turned_now :: "event list \<Rightarrow> PaperlessInstance \<Rightarrow> bool" where
  "turned_now es inst \<longleftrightarrow> (\<forall>c. cond inst ConditionReady = Some c \<longrightarrow> cdStatus c = ConditionTrue \<longrightarrow>
     EvNow (cdLastTransitionTime c) \<in> set es)"

lemma turned_not_ready: "not_ready inst \<Longrightarrow> turned_now es inst"
  by (auto simp: turned_now_def not_ready_def)

lemma turned_mono: "turned_now es inst \<Longrightarrow> set es \<subseteq> set es' \<Longrightarrow> turned_now es' inst"
  by (auto simp: turned_now_def)

lemma turned_Cons: "turned_now es inst \<Longrightarrow> turned_now (e # es) inst"
  by (erule turned_mono) auto

lemma append_right: "set es' \<subseteq> set (es @ es')"
  by simp

lemma set_not_ready [simp]:
  "condition_laws L \<Longrightarrow> not_ready (set_at L t inst ConditionReady ConditionFalse re m)"
  by (simp add: not_ready_def cond_set_at)

lemma not_ready_frame: "frame {ConditionDatabaseReady} a b \<Longrightarrow> not_ready a \<Longrightarrow> not_ready b"
proof -
  assume fr: "frame {ConditionDatabaseReady} a b" and "not_ready a"
  moreover from fr have "ConditionReady \<in> {ConditionDatabaseReady} \<or> cond b ConditionReady = cond a ConditionReady"
    unfolding frame_def by blast
  ultimately show ?thesis by (simp add: not_ready_def ConditionReady_def ConditionDatabaseReady_def)
qed

text \<open>A condition that was not true and becomes so gets the present as its transition time.\<close>

lemma turned_set_at:
  "condition_laws L \<Longrightarrow> not_ready inst \<Longrightarrow> EvNow t \<in> set es \<Longrightarrow>
   turned_now es (set_at L t inst ConditionReady st re m)"
  by (auto simp: turned_now_def not_ready_def cond_set_at stamped_def split: option.splits)

section \<open>Through the steps\<close>

text \<open>The instance a tree returns next to its log.\<close>

definition turns :: "(PaperlessInstance \<times> 'a) prog \<Rightarrow> bool" where
  "turns p \<longleftrightarrow> wp p (\<lambda>es x. \<forall>i r. x = Value (i, r) \<longrightarrow> turned_now es i)"

lemma turns_bind:
  assumes "results S p" and "\<And>y. S y \<Longrightarrow> turns (f y)"
  shows "turns (bind p f)"
  unfolding turns_def
proof (rule wp_bindI)
  show "wp p (\<lambda>es x. case x of Value y \<Rightarrow> S y | Panic m \<Rightarrow> True)"
    using assms(1) by (simp add: results_def)
  show "wp (f y) (\<lambda>es'. \<lambda>x. \<forall>i r. x = Value (i, r) \<longrightarrow> turned_now (es @ es') i)"
    if "case Value y of Value y \<Rightarrow> S y | Panic m \<Rightarrow> True" for es y
    by (rule wp_mono [OF assms(2) [of y, unfolded turns_def]])
       (use that in \<open>auto intro: turned_mono [OF _ append_right]\<close>)
qed simp

lemma turns_failed [simp]: "condition_laws L \<Longrightarrow> turns (step_failed L inst reason context e)"
  by (simp add: turns_def step_failed_def bind_SetCondition turned_not_ready)

lemma turns_waiting [simp]: "condition_laws L \<Longrightarrow> turns (database_not_ready L inst)"
  by (simp add: turns_def database_not_ready_def bind_SetCondition turned_not_ready)

lemma turns_stage:
  assumes C: "condition_laws L" and p: "results (\<lambda>(i, r). not_ready i) p"
    and rest: "\<And>i. not_ready i \<Longrightarrow> turns (rest i)"
  shows "turns (bind p (after_stage L s rest))"
proof (rule turns_bind [OF p])
  fix y :: "PaperlessInstance \<times> (gerror + bool)" assume "case y of (i, r) \<Rightarrow> not_ready i"
  then show "turns (after_stage L s rest y)"
    using C rest by (cases "(L, s, rest, y)" rule: after_stage.cases) auto
qed

lemma results_unconditional: "R (inst, Inr True) \<Longrightarrow> (\<And>e. R (inst, Inl e)) \<Longrightarrow> results R (unconditional p inst)"
  unfolding unconditional_def by (rule results_bind_any) (auto simp: proceed_def split: option.split)

lemma turns_workload:
  assumes C: "condition_laws L" and N: "not_ready inst"
  shows "turns (bind (workload_body L inst) (after_stage L s (run_stages L [])))"
proof -
  have set: "turns (Now (\<lambda>t. Done (set_at L t inst ConditionReady st re m, zero_result, None :: err)))" for st re m
    by (simp add: turns_def turned_set_at [OF C N])
  show ?thesis
    unfolding workload_body_def reconcileWorkload_def bind_assoc
  proof (rule turns_bind [OF results_True], goal_cases)
    case (1 r)
    show ?case
    proof (cases r)
      case None
      show ?thesis
        unfolding None option.case Let_def bind_assoc
        by (rule turns_bind [OF results_True])
           (auto simp: C set bind_SetCondition bind_assoc split: sum.split)
    qed (simp add: C)
  qed
qed

lemma turns_instance:
  assumes C: "condition_laws L" and N: "not_ready inst"
  shows "turns (reconcileInstance L inst)"
proof -
  have db: "results (\<lambda>(i, r). not_ready i) (reconcileDatabase L i)" if "not_ready i" for i
    using results_bind [OF results_reconcileDatabase [OF C, of i], of "\<lambda>(i, r). not_ready i" Done]
      not_ready_frame that by auto
  have wl: "turns (bind (workload_body L i) (after_stage L s (\<lambda>inst. Done (inst, zero_result, None))))"
    if "not_ready i" for i s
    using turns_workload [OF C that, of s] by simp
  show ?thesis
    unfolding reconcileInstance_stages stages_def run_stages.simps stage.simps
    by (intro turns_stage [OF C] results_unconditional db wl) (simp_all add: N)
qed

section \<open>The status that is written\<close>

text \<open>
  \<open>Ready\<close>, if the written status has it true, turned true during this reconciliation; and
  when the clock has moved on since the transition the instance was read with, what is
  written differs from what was read.
\<close>

definition rewrites_status :: "PaperlessInstance \<Rightarrow> event list \<Rightarrow> bool" where
  "rewrites_status inst es \<longleftrightarrow> (\<exists>pre inst' r. es = pre @ [EvPatchStatus inst' inst r] \<and>
     turned_now pre inst' \<and>
     ((\<exists>c. cond inst ConditionReady = Some c \<and> EvNow (cdLastTransitionTime c) \<in> set pre) \<or>
      (\<forall>re. says inst' ConditionReady ConditionTrue re \<longrightarrow> piStatus inst' \<noteq> piStatus inst)))"

lemma rewrites_statusI:
  assumes "turned_now pre inst'"
  shows "rewrites_status inst (pre @ [EvPatchStatus inst' inst r])"
proof -
  have "\<exists>c. cond inst ConditionReady = Some c \<and> EvNow (cdLastTransitionTime c) \<in> set pre"
    if "says inst' ConditionReady ConditionTrue re" "piStatus inst' = piStatus inst" for re
    using assms that by (auto simp: turned_now_def says_def cond_def GetConditions_def)
  then show ?thesis using assms unfolding rewrites_status_def by blast
qed

lemma turned_observed [simp]: "turned_now es (observed inst) = turned_now es inst"
  by (simp add: turned_now_def)

lemma after_read_turns:
  assumes C: "condition_laws L"
  shows "wp (after_read L inst) (\<lambda>es x. is_value x \<longrightarrow> rewrites_status inst es)"
  unfolding after_read_def bind_SetCondition wp_basic
proof
  fix t
  let ?i = "set_at L t inst ConditionReady ConditionFalse ''Reconciling'' ''the operator is reconciling this instance''"
  have "wp (reconcileInstance L ?i) (\<lambda>es x. \<forall>j r. x = Value (j, r) \<longrightarrow> turned_now es j)"
    using turns_instance [OF C, of ?i] C by (simp add: turns_def)
  then show "wp (bind (reconcileInstance L ?i) (\<lambda>(i, res, e). bind (patchStatus i inst) (\<lambda>r. case r of
         Some e \<Rightarrow> Done (zero_result, Some (ErrorWrap ''patching status'' e)) | None \<Rightarrow> Done (res, e))))
     (\<lambda>es x. is_value x \<longrightarrow> rewrites_status inst (EvNow t # es))"
  proof (rule wp_bindI)
    fix es and y :: "PaperlessInstance \<times> Result \<times> err"
    assume t: "\<forall>j r. Value y = Value (j, r) \<longrightarrow> turned_now es j"
    have "rewrites_status inst (EvNow t # es @ [EvPatchStatus (observed j) inst r])" if "y = (j, q)" for j q r
      using rewrites_statusI [of "EvNow t # es" "observed j" inst r] t that
      by (auto intro: turned_Cons)
    then show "wp (case y of (i, res, e) \<Rightarrow> bind (patchStatus i inst) (\<lambda>r. case r of
         Some e \<Rightarrow> Done (zero_result, Some (ErrorWrap ''patching status'' e)) | None \<Rightarrow> Done (res, e)))
       (\<lambda>es'. \<lambda>x. is_value x \<longrightarrow> rewrites_status inst (EvNow t # es @ es'))"
      by (cases y) (simp add: patchStatus_eq split: option.split)
  qed simp
qed

lemma Reconcile_returns: "lib_laws L \<Longrightarrow> wp (Reconcile L req) (\<lambda>es x. is_value x)"
  by (erule wp_mono [OF Reconcile_runs]) (auto simp: missing_run_def full_run_def split: option.split)

text \<open>
  C15: Only a ready instance is written again by every reconciliation. The transition time of a
  \<open>Ready\<close> that is written as true is always a time read in this very reconciliation, never
  the one the instance was read with; so unless the clock stands still, the status written
  for an instance that is ready differs from the one it had, although nothing about it
  changed. The update is an event on a kind the controller watches without a predicate, and
  starts the next reconciliation. While the instance is not ready its transition times move
  only with the statuses, and a status whose verdicts and generation are unchanged is
  written as it was read, so there the reconciliations come to rest.
\<close>

theorem ready_status_always_rewritten:
  assumes L: "lib_laws L"
  shows "wp (Reconcile L req) (\<lambda>es x. case es of
      EvGetInstance k (Inr inst) # rest \<Rightarrow> rewrites_status inst rest \<and> settles_status inst rest | _ \<Rightarrow> True)"
proof -
  have "wp (Reconcile L req) (\<lambda>es x. ((case es of EvGetInstance k (Inr inst) # rest \<Rightarrow>
      is_value x \<longrightarrow> rewrites_status inst rest | _ \<Rightarrow> True) \<and> is_value x) \<and>
      (case es of EvGetInstance k (Inr inst) # rest \<Rightarrow> settles_status inst rest | _ \<Rightarrow> True))"
    unfolding wp_conj
    using wp_Reconcile [OF after_read_turns [OF lib_lawsD(2) [OF L]]] Reconcile_returns [OF L] Reconcile_settles [OF L]
    by blast
  then show ?thesis
    by (rule wp_mono) (auto split: list.splits event.splits sum.splits)
qed

text \<open>
  On a server that serves every request: the instance was ready since time 3, is reconciled
  at time 7 and later, and its status is written with a new transition time.
\<close>

definition ready_docs :: PaperlessInstance where
  "ready_docs = (bare_instance ''docs'' ''ns'' ''u'')
     \<lparr>piStatus := \<lparr>psConditions = [\<lparr>cdType = ConditionReady, cdStatus = ConditionTrue,
        cdObservedGeneration = 0, cdLastTransitionTime = 3, cdReason = ''WorkloadReady'',
        cdMessage = ''the Deployment reports at least one ready replica''\<rparr>],
        psObservedGeneration = 0, psURL = [], psVersion = []\<rparr>\<rparr>"

lemma serving_status:
  assumes "nameable ref_lib inst" and "dbExternal (spDatabase (piSpec inst)) = None"
    and "events (run (serving inst t) (Reconcile ref_lib k) w) = EvGetInstance k (Inr inst) # rest"
  shows "\<exists>inst'. last rest = EvPatchStatus inst' inst None \<and> says inst' ConditionReady ConditionTrue ''WorkloadReady''"
proof -
  have ans: "list_all (answered (serving inst t)) rest"
    using run_answered [of "serving inst t" "Reconcile ref_lib k" w] assms(3) by simp
  have "wp (after_read ref_lib i) (\<lambda>es x. list_all (served ref_lib i) es \<longrightarrow> i = inst \<longrightarrow>
      (\<exists>inst'. last es = EvPatchStatus inst' i None \<and> workload_reported ref_lib i es inst'))" for i
  proof (cases "i = inst")
    case True
    with assms(1) show ?thesis
      by (intro wp_mono [OF after_read_completes [OF ref_lib_laws]]) auto
  qed simp
  from wp_run [OF wp_Reconcile [OF this, of k], of "serving inst t" w]
  have "list_all (served ref_lib inst) rest \<longrightarrow>
      (\<exists>inst'. last rest = EvPatchStatus inst' inst None \<and> workload_reported ref_lib inst rest inst')"
    unfolding assms(3) by simp
  then show ?thesis
    using serving_serves [OF assms(2) ans] serving_says_ready [OF ans] by blast
qed

text \<open>
  When the API server times out on the secrets at every attempt, the instance that was found so
  at time 3 gets the very status it has at time 7.
\<close>

definition stuck_docs :: PaperlessInstance where
  "stuck_docs = (bare_instance ''docs'' ''ns'' ''u'')
     \<lparr>piStatus := \<lparr>psConditions = [\<lparr>cdType = ConditionReady, cdStatus = ConditionFalse,
        cdObservedGeneration = 0, cdLastTransitionTime = 3, cdReason = ''SecretsNotReady'',
        cdMessage = ''ensuring secret key: getting secret docs-secret-key: timeout''\<rparr>],
        psObservedGeneration = 0, psURL = [], psVersion = []\<rparr>\<rparr>"

definition timing_out :: "PaperlessInstance \<Rightarrow> nat \<Rightarrow> unit handler" where
  "timing_out inst t = (serving inst t)\<lparr>hGetSecret := (\<lambda>k w. (Inl (ErrorMsg ''timeout''), w))\<rparr>"

lemma stuck_docs_settle:
  "\<exists>inst'. last (events (run (timing_out stuck_docs 7) (Reconcile ref_lib docs_key) ())) = EvPatchStatus inst' stuck_docs None \<and>
     piStatus inst' = piStatus stuck_docs"
  unfolding Reconcile_def reconcileInstance_def reconcileSecrets_def ensureGeneratedSecret_def step_failed_def
  by (simp add: timing_out_def serving_def SetCondition_def check_def ref_is_not_found_def patchStatus_def Let_def
      stuck_docs_def bare_instance_def name_defs derivedName_def PutConditions_def GetConditions_def stamped_def events_def [of "([], _)"] new_meta_def)

theorem ready_status_always_rewritten_witness:
  "\<exists>inst'. last (events (run (serving ready_docs 7) (Reconcile ref_lib docs_key) ())) = EvPatchStatus inst' ready_docs None \<and>
     says inst' ConditionReady ConditionTrue ''WorkloadReady'' \<and> piStatus inst' \<noteq> piStatus ready_docs"
proof -
  let ?o = "run (serving ready_docs 7) (Reconcile ref_lib docs_key) ()"
  obtain rest where ev: "events ?o = EvGetInstance docs_key (Inr ready_docs) # rest"
    and ans: "list_all (answered (serving ready_docs 7)) rest" by (rule serving_log)
  have "nameable ref_lib ready_docs" unfolding ready_docs_def by (rule docs_nameable)
  moreover have "dbExternal (spDatabase (piSpec ready_docs)) = None"
    by (simp add: ready_docs_def bare_instance_def zero_spec_def)
  ultimately obtain inst' where i: "last rest = EvPatchStatus inst' ready_docs None"
    "says inst' ConditionReady ConditionTrue ''WorkloadReady''"
    using serving_status [OF _ _ ev] by blast
  have "rewrites_status ready_docs rest"
    using wp_run [OF ready_status_always_rewritten [OF ref_lib_laws, of docs_key], of "serving ready_docs 7" "()"]
    unfolding ev by simp
  then obtain pre j r where rest: "rest = pre @ [EvPatchStatus j ready_docs r]" and
    "(\<exists>c. cond ready_docs ConditionReady = Some c \<and> EvNow (cdLastTransitionTime c) \<in> set pre) \<or>
      (\<forall>re. says j ConditionReady ConditionTrue re \<longrightarrow> piStatus j \<noteq> piStatus ready_docs)"
    unfolding rewrites_status_def by blast
  moreover have "EvNow 3 \<notin> set pre"
    using ans rest by (auto simp: list_all_iff answered_def serving_def)
  moreover have "cdLastTransitionTime c = 3" if "cond ready_docs ConditionReady = Some c" for c
    using that by (auto simp: ready_docs_def cond_def GetConditions_def find_condition_def)
  ultimately show ?thesis using i ev by auto
qed

end
