(* ===== verification/Startup.thy ===== *)
theory Startup
  imports Manager
begin

text \<open>
  \<open>cmd/main.go\<close>: the command line and the start-up of the manager. Go's package \<open>flag\<close> is
  modelled as far as \<open>flag.Parse\<close> uses it; the flags other packages register (\<open>zap\<close>, the
  kubeconfig) are a parameter. The calls into controller-runtime are recorded, and whether
  each fails is a parameter.
\<close>

section \<open>The command line\<close>

text \<open>
  Flags of other packages: \<open>ffBool\<close> is nothing for an unknown name, and otherwise whether the
  flag is a switch; \<open>ffSet\<close> sets one in the state \<open>'z\<close> or complains.
\<close>

record 'z foreign_flags =
  ffBool :: "string \<Rightarrow> bool option"
  ffSet :: "string \<Rightarrow> string \<Rightarrow> 'z \<Rightarrow> string + 'z"

text \<open>\<open>strconv.ParseBool\<close>.\<close>

definition ParseBool :: "string \<Rightarrow> bool option" where
  "ParseBool s =
     (if s \<in> set [''1'', ''t'', ''T'', ''true'', ''TRUE'', ''True''] then Some True
      else if s \<in> set [''0'', ''f'', ''F'', ''false'', ''FALSE'', ''False''] then Some False
      else None)"

text \<open>The three flags \<open>main\<close> registers, then those of others.\<close>

definition flag_kind :: "'z foreign_flags \<Rightarrow> string \<Rightarrow> bool option" where
  "flag_kind F name =
     (if name = ''leader-elect'' then Some True
      else if name = ''metrics-bind-address'' \<or> name = ''health-probe-bind-address'' then Some False
      else ffBool F name)"

definition set_flag ::
    "'z foreign_flags \<Rightarrow> string \<Rightarrow> string \<Rightarrow> Config \<times> 'z \<Rightarrow> string + Config \<times> 'z" where
  "set_flag F name value st = (case st of (cfg, z) \<Rightarrow>
     if name = ''metrics-bind-address'' then Inr (cfg\<lparr>cfMetricsAddress := value\<rparr>, z)
     else if name = ''health-probe-bind-address'' then Inr (cfg\<lparr>cfProbeAddress := value\<rparr>, z)
     else if name = ''leader-elect'' then
       (case ParseBool value of
          None \<Rightarrow> Inl ''parse error''
        | Some b \<Rightarrow> Inr (cfg\<lparr>cfLeaderElection := b\<rparr>, z))
     else (case ffSet F name value z of Inl e \<Rightarrow> Inl e | Inr z' \<Rightarrow> Inr (cfg, z')))"

text \<open>\<open>flag.ErrHelp\<close>, or any other error with its message.\<close>

datatype flag_error = ErrHelp | Usage string

definition cut_value :: "string \<Rightarrow> string \<times> string option" where
  "cut_value name = (takeWhile (\<lambda>c. c \<noteq> CHR ''='') name,
     case dropWhile (\<lambda>c. c \<noteq> CHR ''='') name of [] \<Rightarrow> None | c # value \<Rightarrow> Some value)"

definition invalid_value :: "string \<Rightarrow> string \<Rightarrow> string \<Rightarrow> flag_error" where
  "invalid_value name value e = Usage (''invalid value '' @ Quote value @ '' for flag -'' @ name @ '': '' @ e)"

definition invalid_boolean :: "string \<Rightarrow> string \<Rightarrow> string \<Rightarrow> flag_error" where
  "invalid_boolean name value e = Usage (''invalid boolean value '' @ Quote value @ '' for -'' @ name @ '': '' @ e)"

text \<open>
  \<open>FlagSet.Parse\<close>: the loop over \<open>parseOne\<close>. An argument without a minus, a single minus, or a
  double one ends the flags; a switch needs no value, any other flag takes one after \<open>=\<close> or
  from the next argument.
\<close>

fun Parse :: "'z foreign_flags \<Rightarrow> string list \<Rightarrow> Config \<times> 'z \<Rightarrow> flag_error + Config \<times> 'z" where
  "Parse F [] st = Inr st"
| "Parse F (s # args) st =
     (if length s < 2 \<or> hd s \<noteq> CHR ''-'' \<or> s = ''--'' then Inr st
      else
        let arg = (if s ! 1 = CHR ''-'' then drop 2 s else drop 1 s) in
        if arg = [] \<or> hd arg = CHR ''-'' \<or> hd arg = CHR ''='' then Inl (Usage (''bad flag syntax: '' @ s))
        else
          let (name, given) = cut_value arg in
          (case flag_kind F name of
             None \<Rightarrow> Inl (if name = ''help'' \<or> name = ''h'' then ErrHelp
                           else Usage (''flag provided but not defined: -'' @ name))
           | Some True \<Rightarrow>
               let value = (case given of Some v \<Rightarrow> v | None \<Rightarrow> ''true'') in
               (case set_flag F name value st of
                  Inl e \<Rightarrow> Inl (invalid_boolean name value e)
                | Inr st' \<Rightarrow> Parse F args st')
           | Some False \<Rightarrow>
               (case given of
                  Some value \<Rightarrow> (case set_flag F name value st of
                      Inl e \<Rightarrow> Inl (invalid_value name value e)
                    | Inr st' \<Rightarrow> Parse F args st')
                | None \<Rightarrow> (case args of
                      [] \<Rightarrow> Inl (Usage (''flag needs an argument: -'' @ name))
                    | value # args' \<Rightarrow> (case set_flag F name value st of
                          Inl e \<Rightarrow> Inl (invalid_value name value e)
                        | Inr st' \<Rightarrow> Parse F args' st')))))"

section \<open>The start-up\<close>

text \<open>
  The calls into controller-runtime, in the order of the source. \<open>Complete\<close> is the controller
  that \<open>SetupWithManager\<close> builds, with the kind it is \<open>For\<close> and the kinds it \<open>Owns\<close>.
\<close>

datatype 's boot_call =
    GetConfigOrDie
  | NewManager "'s Options"
  | AddHealthzCheck string
  | AddReadyzCheck string
  | Complete "string \<times> string" "(string \<times> string) list"
  | StartManager

definition SetupWithManager :: "'s boot_call" where
  "SetupWithManager = Complete (''paperless.p3l1.de'', ''paperlessinstances'')
     [(''apps'', ''deployments''), ([], ''services''), ([], ''persistentvolumeclaims'')]"

text \<open>How the process ends: with an exit code, or with a panic.\<close>

datatype ending = Exit nat | Panics string

text \<open>\<open>if err := call; err != nil { os.Exit(1) }\<close>, then the rest; the calls made and the ending.\<close>

definition or_exit ::
    "('s boot_call \<Rightarrow> err) \<Rightarrow> 's boot_call \<Rightarrow> 's boot_call list \<times> ending \<Rightarrow> 's boot_call list \<times> ending" where
  "or_exit env call rest = (case env call of
     Some e \<Rightarrow> ([call], Exit 1) | None \<Rightarrow> (call # fst rest, snd rest))"

definition main ::
    "'z foreign_flags \<Rightarrow> 'z \<Rightarrow> 's scheme_lib \<Rightarrow> ('s boot_call \<Rightarrow> err) \<Rightarrow> string list \<Rightarrow> 's boot_call list \<times> ending" where
  "main F z S env args =
     (case Parse F args (default_config, z) of
        Inl ErrHelp \<Rightarrow> ([], Exit 0)
      | Inl (Usage m) \<Rightarrow> ([], Exit 2)
      | Inr (cfg, z') \<Rightarrow>
          or_exit env GetConfigOrDie
         (case ControllerOptions S cfg of
            Panic m \<Rightarrow> ([], Panics m)
          | Value opts \<Rightarrow>
         (or_exit env (NewManager opts)
         (or_exit env (AddHealthzCheck ''healthz'')
         (or_exit env (AddReadyzCheck ''readyz'')
         (or_exit env SetupWithManager
         (or_exit env StartManager ([], Exit 0))))))))"

section \<open>Lemmas\<close>

text \<open>The first call that fails ends the program.\<close>

definition boot :: "('s boot_call \<Rightarrow> err) \<Rightarrow> 's boot_call list \<Rightarrow> 's boot_call list \<times> ending" where
  "boot env calls =
     (let ok = takeWhile (\<lambda>c. env c = None) calls in
      if length ok = length calls then (calls, Exit 0) else (take (Suc (length ok)) calls, Exit 1))"

lemma boot_Nil [simp]: "boot env [] = ([], Exit 0)"
  by (simp add: boot_def)

lemma or_exit_boot: "or_exit env c (boot env cs) = boot env (c # cs)"
  by (auto simp: or_exit_def boot_def Let_def split: option.split)

lemma boot_eq: "boot env cs = (if \<forall>c \<in> set cs. env c = None then (cs, Exit 0)
    else (take (Suc (length (takeWhile (\<lambda>c. env c = None) cs))) cs, Exit 1))"
proof (cases "\<forall>c \<in> set cs. env c = None")
  case True
  then have "takeWhile (\<lambda>c. env c = None) cs = cs" by (simp only: takeWhile_eq_all_conv)
  then have l: "length (takeWhile (\<lambda>c. env c = None) cs) = length cs" by (rule arg_cong)
  show ?thesis unfolding boot_def Let_def l using True by simp
next
  case False
  then have "takeWhile (\<lambda>c. env c = None) cs \<noteq> cs" by (simp only: takeWhile_eq_all_conv) simp
  then have l: "length (takeWhile (\<lambda>c. env c = None) cs) \<noteq> length cs"
    by (metis takeWhile_eq_take take_all_iff order_refl)
  show ?thesis unfolding boot_def Let_def using False l by (simp only: if_False)
qed

text \<open>What the program does once it has its configuration and its options.\<close>

definition boot_calls :: "'s Options \<Rightarrow> 's boot_call list" where
  "boot_calls opts = [GetConfigOrDie, NewManager opts, AddHealthzCheck ''healthz'', AddReadyzCheck ''readyz'',
     SetupWithManager, StartManager]"

lemma main_boot:
  "Parse F args (default_config, z) = Inr (cfg, z') \<Longrightarrow> ControllerOptions S cfg = Value opts \<Longrightarrow>
   main F z S env args = boot env (boot_calls opts)"
  by (simp add: main_def boot_calls_def or_exit_boot [symmetric])

text \<open>The flags that give a configuration, with the values after an equals sign or apart.\<close>

definition value_flag :: "bool \<Rightarrow> string \<Rightarrow> string \<Rightarrow> string list" where
  "value_flag apart name value =
     (if apart then [''--'' @ name, value] else [''--'' @ name @ ''='' @ value])"

definition config_flags :: "bool \<Rightarrow> Config \<Rightarrow> string list" where
  "config_flags apart cfg =
     value_flag apart ''metrics-bind-address'' (cfMetricsAddress cfg) @
     value_flag apart ''health-probe-bind-address'' (cfProbeAddress cfg) @
     (if cfLeaderElection cfg then [''--leader-elect''] else [])"

lemma cut_value_eq: "CHR ''='' \<notin> set name \<Longrightarrow> cut_value (name @ CHR ''='' # v) = (name, Some v)"
  by (simp add: cut_value_def takeWhile_append dropWhile_append)

lemma cut_value_none: "CHR ''='' \<notin> set name \<Longrightarrow> cut_value name = (name, None)"
proof -
  assume "CHR ''='' \<notin> set name"
  then have "\<forall>c \<in> set name. c \<noteq> CHR ''=''" by auto
  then have "takeWhile (\<lambda>c. c \<noteq> CHR ''='') name = name" "dropWhile (\<lambda>c. c \<noteq> CHR ''='') name = []"
    by (simp_all only: takeWhile_eq_all_conv dropWhile_eq_Nil_conv)
  then show ?thesis by (simp only: cut_value_def list.case)
qed

text \<open>One flag that takes a value, in both forms.\<close>

lemma Parse_flag:
  assumes "name \<noteq> []" "hd name \<noteq> CHR ''-''" "CHR ''='' \<notin> set name"
    and "flag_kind F name = Some False" and "set_flag F name v st = Inr st'"
  shows "Parse F (value_flag apart name v @ args) st = Parse F args st'"
proof -
  have "hd name \<noteq> CHR ''=''" using assms(1,3) by (cases name) auto
  then have "Parse F ((CHR ''-'' # CHR ''-'' # name @ CHR ''='' # v) # args) st = Parse F args st'"
    and "Parse F ((CHR ''-'' # CHR ''-'' # name) # v # args) st = Parse F args st'"
    using assms by (simp_all add: cut_value_eq cut_value_none Suc_le_eq not_less)
  then show ?thesis by (simp add: value_flag_def del: Parse.simps)
qed

lemma Parse_addresses:
  "Parse F (value_flag apart ''metrics-bind-address'' v @ args) (cfg, z) =
     Parse F args (cfg\<lparr>cfMetricsAddress := v\<rparr>, z)"
  "Parse F (value_flag apart ''health-probe-bind-address'' v @ args) (cfg, z) =
     Parse F args (cfg\<lparr>cfProbeAddress := v\<rparr>, z)"
  by (rule Parse_flag; simp add: flag_kind_def set_flag_def)+

lemma Parse_leader:
  "Parse F (''--leader-elect'' # args) (cfg, z) = Parse F args (cfg\<lparr>cfLeaderElection := True\<rparr>, z)"
  using cut_value_none [of "''leader-elect''"]
  by (simp add: flag_kind_def set_flag_def ParseBool_def)

lemma Parse_config_flags: "Parse F (config_flags apart cfg) (default_config, z) = Inr (cfg, z)"
  by (cases cfg)
     (simp add: config_flags_def Parse_addresses default_config_def Parse_leader del: Parse.simps(2))

section \<open>Properties\<close>

text \<open>
  C24: The manager starts as it is configured. Given the flags of any configuration, with the
  values after an equals sign or as arguments of their own, the program makes the start-up
  calls in their order with the options of that very configuration (the scheme with
  client-go's and the operator's types, secrets out of the cache, the addresses, leader
  election): it stops with exit code 1 at the first that fails, and otherwise makes them all,
  the start of the manager last, and exits with 0. The controller it builds watches exactly
  the kinds the permissions cover. When client-go's types cannot be registered it panics with
  that error before a manager exists.
\<close>

theorem main_boots_as_configured:
  assumes "scheme_laws S"
  shows "main F z S env (config_flags apart cfg) =
    (case slClientgoAddToScheme S (slNewScheme S) of
       (Some e, scheme) \<Rightarrow> ([GetConfigOrDie],
          if env GetConfigOrDie = None then Panics (Error e) else Exit 1)
     | (None, scheme) \<Rightarrow>
         (let calls = [GetConfigOrDie,
            NewManager \<lparr>opScheme = slAddToGroupVersion S GroupVersion
                (slAddKnownTypes S GroupVersion [''PaperlessInstance'', ''PaperlessInstanceList''] scheme),
              opCacheDisableFor = [KSecret], opMetricsBindAddress = cfMetricsAddress cfg,
              opHealthProbeBindAddress = cfProbeAddress cfg, opLeaderElection = cfLeaderElection cfg,
              opLeaderElectionID = LeaderElectionID\<rparr>,
            AddHealthzCheck ''healthz'', AddReadyzCheck ''readyz'', Complete (hd watched) (tl watched), StartManager]
          in if \<forall>c \<in> set calls. env c = None then (calls, Exit 0)
             else (take (Suc (length (takeWhile (\<lambda>c. env c = None) calls))) calls, Exit 1)))"
proof -
  obtain e scheme where cg: "slClientgoAddToScheme S (slNewScheme S) = (e, scheme)" by fastforce
  have w: "Complete (hd watched) (tl watched) = SetupWithManager" by (simp add: watched_def SetupWithManager_def)
  show ?thesis
  proof (cases e)
    case None
    note opts = ControllerOptions_value [OF assms, of cfg, unfolded cg None prod.case option.case full_scheme_def]
    show ?thesis
      unfolding main_boot [OF Parse_config_flags opts] boot_eq boot_calls_def cg None prod.case option.case Let_def w
      by (rule refl)
  next
    case (Some m)
    note opts = ControllerOptions_value [OF assms, of cfg, unfolded cg Some prod.case option.case]
    show ?thesis
      by (cases "env GetConfigOrDie") (simp_all add: main_def or_exit_def Parse_config_flags opts cg Some)
  qed
qed

text \<open>A scheme as the list of the kinds registered in it.\<close>

definition list_scheme :: "(string \<times> string \<times> string) list scheme_lib" where
  "list_scheme = \<lparr>slNewScheme = [], slClientgoAddToScheme = (\<lambda>s. (None, (''apps'', ''v1'', ''Deployment'') # s)),
     slAddKnownTypes = (\<lambda>gv kinds s. map (\<lambda>k. (fst gv, snd gv, k)) kinds @ s),
     slAddToGroupVersion = (\<lambda>gv s. (fst gv, snd gv, ''WatchEvent'') # s),
     slBuilderAddToScheme = register_all\<rparr>"

theorem main_boots_as_configured_witness:
  "\<exists>opts. main \<lparr>ffBool = (\<lambda>n. None), ffSet = (\<lambda>n v z. Inl ''unknown'')\<rparr> () list_scheme
     (\<lambda>c. if c = AddReadyzCheck ''readyz'' then Some (ErrorMsg ''taken'') else None)
     [''--metrics-bind-address'', ''0'', ''--health-probe-bind-address'', '':9440'', ''--leader-elect''] =
   ([GetConfigOrDie, NewManager opts, AddHealthzCheck ''healthz'', AddReadyzCheck ''readyz''], Exit 1) \<and>
   (''apps'', ''v1'', ''Deployment'') \<in> set (opScheme opts) \<and>
   (''paperless.p3l1.de'', ''v1alpha1'', ''PaperlessInstance'') \<in> set (opScheme opts) \<and> opLeaderElection opts"
proof -
  have "scheme_laws list_scheme" by (simp add: scheme_laws_def list_scheme_def)
  from main_boots_as_configured [OF this, of "\<lparr>ffBool = (\<lambda>n. None), ffSet = (\<lambda>n v z. Inl ''unknown'')\<rparr>" "()"
      "\<lambda>c. if c = AddReadyzCheck ''readyz'' then Some (ErrorMsg ''taken'') else None" True
      "\<lparr>cfMetricsAddress = ''0'', cfProbeAddress = '':9440'', cfLeaderElection = True\<rparr>"]
  show ?thesis
    by (simp add: config_flags_def value_flag_def list_scheme_def GroupVersion_def)
qed

end
