(* ===== verification/Idempotence.thy ===== *)
theory Idempotence
  imports Progress
begin

text \<open>
  Reconciling again. Once a reconciliation has got through, the generated secrets are as the
  policy wants them, and stay so; the next reconciliation of the same instance then writes no
  secret and repeats the applies of the first.
\<close>

section \<open>What a reconciliation does about the secrets\<close>

definition secret_key_for :: "PaperlessInstance \<Rightarrow> string \<Rightarrow> ObjectKey" where
  "secret_key_for inst n = \<lparr>okNamespace = inst_ns inst, okName = n\<rparr>"

definition user_supplied :: "PaperlessInstance \<Rightarrow> string \<Rightarrow> bool" where
  "user_supplied inst n \<longleftrightarrow>
     (if n = SecretKeyName inst then spSecretKeySecretRef (piSpec inst) \<noteq> None else admin_supplied inst)"

lemma supplied_names [simp]:
  "user_supplied inst (SecretKeyName inst) \<longleftrightarrow> spSecretKeySecretRef (piSpec inst) \<noteq> None"
  "user_supplied inst (AdminSecretName inst) \<longleftrightarrow> admin_supplied inst"
  by (simp_all add: user_supplied_def name_defs derivedName_def)

text \<open>The same instance up to its status.\<close>

definition resembles :: "PaperlessInstance \<Rightarrow> PaperlessInstance \<Rightarrow> bool" where
  "resembles a b \<longleftrightarrow> piMeta b = piMeta a \<and> piSpec b = piSpec a"

lemma only_conditions_resembles: "only_conditions a b \<Longrightarrow> resembles a b"
  by (simp add: resembles_def only_conditions_sel)

lemma resembles_status: "resembles a b \<Longrightarrow> b = a\<lparr>piStatus := piStatus b\<rparr>"
  by (simp add: resembles_def)

lemma resembles_same:
  assumes "resembles a b"
  shows "secret_key_for b = secret_key_for a" "user_supplied b = user_supplied a"
    "owns_matches L b = owns_matches L a" "stateful_owners b = stateful_owners a"
    "generated_secret_names b = generated_secret_names a" "step_plan L b s = step_plan L a s"
proof -
  obtain st where b: "b = a\<lparr>piStatus := st\<rparr>" using resembles_status [OF assms] by blast
  show "secret_key_for b = secret_key_for a" "user_supplied b = user_supplied a"
    "owns_matches L b = owns_matches L a" "stateful_owners b = stateful_owners a"
    "generated_secret_names b = generated_secret_names a"
    unfolding b by (simp_all add: fun_eq_iff secret_key_for_def user_supplied_def admin_supplied_def
        owns_matches_def isControlledBy_def any_status split: option.split)
  show "step_plan L b s = step_plan L a s"
    unfolding b by (cases s) (simp_all add: step_plan_def any_status)
qed

text \<open>An event after which the secret is as the policy wants it.\<close>

fun upholds :: "Lib \<Rightarrow> PaperlessInstance \<Rightarrow> string \<Rightarrow> event \<Rightarrow> bool" where
  "upholds L inst n (EvGetSecret k r) \<longleftrightarrow> k = secret_key_for inst n \<and> (case r of
     Inr s \<Rightarrow> owns_matches L inst s | Inl e \<Rightarrow> libIsNotFound L (Some e) \<and> user_supplied inst n)"
| "upholds L inst n (EvCreateSecret s r) \<longleftrightarrow> r = None \<and> secret_key_of s = secret_key_for inst n \<and>
     omOwnerReferences (secMeta s) = stateful_owners inst"
| "upholds L inst n (EvPatchMerge s b o' r) \<longleftrightarrow> r = None \<and> secret_key_of s = secret_key_for inst n \<and>
     libUnmarshalMap L b = Inr (Some (ownership_patch (stateful_owners inst)))"
| "upholds L inst n ev \<longleftrightarrow> False"

text \<open>A read that leaves nothing to do, and a request that does nothing to a secret.\<close>

fun calm :: "Lib \<Rightarrow> PaperlessInstance \<Rightarrow> event \<Rightarrow> bool" where
  "calm L inst (EvGetSecret k r) \<longleftrightarrow> (\<forall>n \<in> set (generated_secret_names inst). k = secret_key_for inst n \<longrightarrow>
     (case r of Inr s \<Rightarrow> owns_matches L inst s | Inl e \<Rightarrow> libIsNotFound L (Some e) \<longrightarrow> user_supplied inst n))"
| "calm L inst ev \<longleftrightarrow> True"

fun no_secret_write :: "event \<Rightarrow> bool" where
  "no_secret_write (EvCreateSecret s r) \<longleftrightarrow> False"
| "no_secret_write (EvPatchMerge s b o' r) \<longleftrightarrow> False"
| "no_secret_write (EvReadRand n r) \<longleftrightarrow> False"
| "no_secret_write ev \<longleftrightarrow> True"

lemma life_upholds:
  assumes life: "secret_life L inst n (user_supplied inst n) es (Value None)" and r: "list_all reads_asked es"
  shows "list_ex (upholds L inst n) es"
  using life
proof (cases rule: secret_life_cases)
  case (found s rest)
  then have s: "omNamespace (secMeta s) = inst_ns inst" "omName (secMeta s) = n"
    using r by (simp_all add: reads_asked_def)
  show ?thesis
  proof (cases "owns_matches L inst s")
    case False
    with found s obtain b where "rest = [EvPatchMerge s b fieldOwner None]"
      and "only_owners_of L inst s (EvPatchMerge s b fieldOwner None)"
      by (auto simp: ownership_log_def)
    with s found(1) show ?thesis
      by (auto simp: only_owners_of_def secret_key_of_def secret_key_for_def)
  qed (simp add: found(1) secret_key_for_def)
next
  case (supplied e)
  with life show ?thesis by (simp add: secret_life_def secret_key_for_def split: if_splits)
next
  case (created e draws s r')
  with life show ?thesis
    by (auto simp: secret_life_def secret_key_of_def secret_key_for_def split: if_splits)
qed auto

lemma life_calm:
  assumes life: "secret_life L inst n (user_supplied inst n) es x" and n: "n \<in> set (generated_secret_names inst)"
    and c: "list_all (calm L inst) es"
  shows "list_all no_secret_write es"
proof -
  obtain r rest where es: "es = EvGetSecret (secret_key_for inst n) r # rest"
    using life by (auto simp: secret_life_def secret_key_for_def)
  then have "case r of Inr s \<Rightarrow> owns_matches L inst s | Inl e \<Rightarrow> libIsNotFound L (Some e) \<longrightarrow> user_supplied inst n"
    using c n by simp
  then have "rest = []"
    using life es by (auto simp: secret_life_def ownership_log_def secret_key_for_def split: sum.splits if_splits)
  then show ?thesis by (simp add: es)
qed

lemma generated_lives:
  assumes "lib_laws L"
  shows "wp (ensureGeneratedSecret L inst (SecretKeyName inst) (SecretKey L))
      (secret_life L inst (SecretKeyName inst) (user_supplied inst (SecretKeyName inst)))"
    and "wp (ensureGeneratedSecret L inst (AdminSecretName inst) (AdminSecret L))
      (secret_life L inst (AdminSecretName inst) (user_supplied inst (AdminSecretName inst)))"
  using secret_key_created_once [OF assms] admin_secret_created_once [OF assms] by simp_all

section \<open>When it gets through\<close>

definition upheld_by :: "Lib \<Rightarrow> PaperlessInstance \<Rightarrow> event list \<Rightarrow> bool" where
  "upheld_by L inst es \<longleftrightarrow> (list_all reads_asked es \<longrightarrow>
     (\<forall>n \<in> set (generated_secret_names inst). list_ex (upholds L inst n) es))"

lemma upheld_by_more:
  "upheld_by L inst es \<Longrightarrow> upheld_by L inst (es @ es')" "upheld_by L inst es \<Longrightarrow> upheld_by L inst (e # es)"
  by (auto simp: upheld_by_def)

lemma secrets_upheld:
  assumes L: "lib_laws L"
  shows "yields (reconcileSecrets L inst) (\<lambda>es e. e = None \<longrightarrow> upheld_by L inst es)"
proof -
  have one: "yields p (\<lambda>es e. e = None \<longrightarrow> list_all reads_asked es \<longrightarrow> list_ex (upholds L inst n) es)"
    if "wp p (secret_life L inst n (user_supplied inst n))" for p n
    unfolding yields_def by (rule wp_mono [OF that]) (auto dest: life_upholds)
  note s = one [OF generated_lives(1) [OF L, of inst]] and a = one [OF generated_lives(2) [OF L, of inst]]
  show ?thesis
    unfolding reconcileSecrets_def
    by (rule yields_check [OF s], rule yields_check [OF a])
       (auto simp: upheld_by_def generated_secret_names_def)
qed

lemma upholds_same: "resembles a b \<Longrightarrow> upheld_by L b = upheld_by L a"
proof -
  assume r: "resembles a b"
  have "upholds L b n ev = upholds L a n ev" for n ev
    by (cases ev) (simp_all add: resembles_same [OF r] split: sum.split)
  then have u: "upholds L b = upholds L a" by (intro ext)
  show ?thesis by (rule ext) (simp only: upheld_by_def u resembles_same [OF r])
qed

lemma instance_upheld:
  assumes L: "lib_laws L"
  shows "yields (reconcileInstance L inst) (\<lambda>es x. through x \<longrightarrow> upheld_by L inst es)"
proof -
  obtain s ss where st: "stages L = s # ss" and bd: "sgBody s = unconditional (reconcileSecrets L)"
    unfolding stages_def by simp
  have "yields (bind (unconditional (reconcileSecrets L) inst) (after_stage L s (run_stages L ss)))
      (\<lambda>es x. through x \<longrightarrow> upheld_by L inst es)"
    by (rule stage_done [OF unconditional_done [OF secrets_upheld [OF L]]])
       (auto simp: yields_def wp_def upheld_by_more)
  then show ?thesis by (simp add: reconcileInstance_stages st bd)
qed

lemma after_read_upheld:
  assumes L: "lib_laws L"
  shows "yields (after_read L inst) (\<lambda>es y. y = (zero_result, None) \<longrightarrow> upheld_by L inst es)"
proof -
  let ?i = "\<lambda>t. set_at L t inst ConditionReady ConditionFalse ''Reconciling'' ''the operator is reconciling this instance''"
  have oc: "only_conditions inst (?i t)" for t by simp
  note inst = instance_upheld [OF L, of "?i t" for t, unfolded upholds_same [OF only_conditions_resembles [OF oc]]]
  show ?thesis
    unfolding after_read_def bind_SetCondition
    by (auto intro!: yields_bind [OF inst] simp: patchStatus_eq through_def upheld_by_more split: option.split)
qed

section \<open>When nothing is left to do\<close>

definition unmoved :: "Lib \<Rightarrow> PaperlessInstance \<Rightarrow> 'a prog \<Rightarrow> bool" where
  "unmoved L inst p \<longleftrightarrow> wp p (\<lambda>es x. list_all (calm L inst) es \<longrightarrow> list_all no_secret_write es)"

lemma unmoved_bind: "unmoved L inst p \<Longrightarrow> (\<And>y. unmoved L inst (f y)) \<Longrightarrow> unmoved L inst (bind p f)"
  unfolding unmoved_def by (erule wp_bindI) (assumption, erule_tac x = x in meta_allE, erule wp_mono, simp)

lemma unmoved_check: "unmoved L inst p \<Longrightarrow> unmoved L inst rest \<Longrightarrow> unmoved L inst (check p onerr rest)"
  unfolding check_def by (erule unmoved_bind) (simp add: unmoved_def split: option.split)

lemma unmoved_emits: "emits no_secret_write p \<Longrightarrow> unmoved L inst p"
  unfolding unmoved_def emits_def by (erule wp_mono) simp

lemma secrets_unmoved:
  assumes L: "lib_laws L"
  shows "unmoved L inst (reconcileSecrets L inst)"
proof -
  have "unmoved L inst (ensureGeneratedSecret L inst (SecretKeyName inst) (SecretKey L))"
    and "unmoved L inst (ensureGeneratedSecret L inst (AdminSecretName inst) (AdminSecret L))"
    unfolding unmoved_def
    by (rule wp_mono [OF generated_lives(1) [OF L]] wp_mono [OF generated_lives(2) [OF L]],
        blast intro: life_calm [unfolded generated_secret_names_def list.set] )+
  then show ?thesis
    unfolding reconcileSecrets_def by (intro unmoved_check) (simp_all add: unmoved_def)
qed

lemma stages_write_no_secret:
  assumes L: "lib_laws L"
  shows "list_all (\<lambda>s. stage_ok L s \<and> sgTag s \<noteq> StSecrets) ss \<Longrightarrow> emits no_secret_write (run_stages L ss inst)"
proof (induction ss arbitrary: inst)
  case (Cons s ss)
  then have "safe (step_event L inst (sgTag s)) (sgBody s inst)"
    using L by (simp add: stage_ok_def reconcile_step_def)
  moreover have "no_secret_write e" if "step_event L inst (sgTag s) e" for e
    using that Cons.prems by (cases e) auto
  ultimately have "emits no_secret_write (sgBody s inst)"
    unfolding safe_def emits_def by (elim wp_mono) (auto simp: list_all_iff)
  moreover have "emits no_secret_write (after_stage L s (run_stages L ss) y)" for y
    using Cons
    by (cases "(L, s, run_stages L ss, y)" rule: after_stage.cases)
       (auto simp: step_failed_def database_not_ready_def bind_SetCondition)
  ultimately show ?case by (simp add: emits_bind)
qed simp

lemma calm_same: "resembles a b \<Longrightarrow> calm L b = calm L a"
proof (rule ext)
  fix ev assume r: "resembles a b"
  show "calm L b ev = calm L a ev" by (cases ev) (simp_all add: resembles_same [OF r] split: sum.split)
qed

lemma instance_unmoved:
  assumes L: "lib_laws L"
  shows "unmoved L inst (reconcileInstance L inst)"
proof -
  obtain s ss where st: "stages L = s # ss" and bd: "sgBody s = unconditional (reconcileSecrets L)"
    and tl: "list_all (\<lambda>s. stage_ok L s \<and> sgTag s \<noteq> StSecrets) ss"
    using stages_ok [of L] unfolding stages_def by auto
  have "unmoved L inst (after_stage L s (run_stages L ss) y)" for y
    by (rule unmoved_emits)
       (cases "(L, s, run_stages L ss, y)" rule: after_stage.cases;
        simp add: step_failed_def database_not_ready_def bind_SetCondition stages_write_no_secret [OF L tl])
  moreover have "unmoved L inst (unconditional (reconcileSecrets L) inst)"
    unfolding unconditional_def
    by (intro unmoved_bind secrets_unmoved [OF L] unmoved_emits) simp
  ultimately show ?thesis
    unfolding reconcileInstance_stages st run_stages.simps bd by (intro unmoved_bind)
qed

lemma after_read_unmoved:
  assumes L: "lib_laws L"
  shows "unmoved L inst (after_read L inst)"
proof -
  let ?i = "\<lambda>t. set_at L t inst ConditionReady ConditionFalse ''Reconciling'' ''the operator is reconciling this instance''"
  have oc: "only_conditions inst (?i t)" for t by simp
  have "unmoved L inst (reconcileInstance L (?i t))" for t
    using instance_unmoved [OF L, of "?i t"] by (simp add: unmoved_def calm_same [OF only_conditions_resembles [OF oc]])
  then have "unmoved L inst (bind (reconcileInstance L (?i t)) (\<lambda>(i, res, e). bind (patchStatus i inst) (\<lambda>r. case r of
         Some e \<Rightarrow> Done (zero_result, Some (ErrorWrap ''patching status'' e)) | None \<Rightarrow> Done (res, e))))" for t
    by (rule unmoved_bind) (auto intro!: unmoved_emits simp: patchStatus_eq split: option.split)
  then show ?thesis
    unfolding after_read_def bind_SetCondition by (simp add: unmoved_def)
qed

section \<open>The server\<close>

text \<open>The requests of a log, one after the other.\<close>

primrec chain :: "'w handler \<Rightarrow> 'w \<Rightarrow> event list \<Rightarrow> 'w \<Rightarrow> bool" where
  "chain h w [] w' \<longleftrightarrow> w' = w"
| "chain h w (e # es) w' \<longleftrightarrow> (\<exists>v. answers h e w v \<and> chain h v es w')"

lemma chain_append: "chain h w (es @ es') w' \<longleftrightarrow> (\<exists>v. chain h w es v \<and> chain h v es' w')"
  by (induction es arbitrary: w) auto

lemma run_chain: "chain h w (events (run h p w)) (final (run h p w))"
  by (induction p arbitrary: w) (auto simp: events_def [of "([], _)"] final_def [of "([], _)"] split: prod.split)

text \<open>
  What is needed of the server about the secrets it holds, \<open>sec w k\<close>: a read returns the secret
  under that name, and says that it is missing only when it is; a create, when it is accepted,
  and a merge patch of the owners leave the secret with the owners they state, and change
  nothing if they are refused; no other request changes a secret.
\<close>

definition puts_owners ::
    "ObjectKey \<Rightarrow> OwnerReference list \<Rightarrow> err \<Rightarrow> (ObjectKey \<rightharpoonup> Secret) \<Rightarrow> (ObjectKey \<rightharpoonup> Secret) \<Rightarrow> bool" where
  "puts_owners k refs r m m' \<longleftrightarrow>
     (if r = None then \<exists>s. m' = m(k \<mapsto> s) \<and> omOwnerReferences (secMeta s) = refs else m' = m)"

definition secret_store :: "Lib \<Rightarrow> 'w handler \<Rightarrow> ('w \<Rightarrow> ObjectKey \<rightharpoonup> Secret) \<Rightarrow> bool" where
  "secret_store L h sec \<longleftrightarrow> faithful_reads h \<and>
     (\<forall>k r w w'. answers h (EvGetSecret k r) w w' \<longrightarrow> sec w' = sec w \<and>
        (case r of Inr s \<Rightarrow> sec w k = Some s | Inl e \<Rightarrow> libIsNotFound L (Some e) \<longrightarrow> sec w k = None)) \<and>
     (\<forall>s r w w'. answers h (EvCreateSecret s r) w w' \<longrightarrow>
        puts_owners (secret_key_of s) (omOwnerReferences (secMeta s)) r (sec w) (sec w')) \<and>
     (\<forall>s b o' r refs w w'. answers h (EvPatchMerge s b o' r) w w' \<longrightarrow>
        libUnmarshalMap L b = Inr (Some (ownership_patch refs)) \<longrightarrow>
        puts_owners (secret_key_of s) refs r (sec w) (sec w')) \<and>
     (\<forall>ev w w'. answers h ev w w' \<longrightarrow> target ev = None \<or> (\<exists>k. target ev = Some k \<and> fst k \<noteq> KSecret) \<longrightarrow>
        sec w' = sec w)"

lemma secret_storeD:
  assumes "secret_store L h sec"
  shows "faithful_reads h"
    and "answers h (EvGetSecret k q) w w' \<Longrightarrow> sec w' = sec w"
    and "answers h (EvGetSecret k (Inr s)) w w' \<Longrightarrow> sec w k = Some s"
    and "answers h (EvGetSecret k (Inl e)) w w' \<Longrightarrow> libIsNotFound L (Some e) \<Longrightarrow> sec w k = None"
    and "answers h (EvCreateSecret s r) w w' \<Longrightarrow>
        puts_owners (secret_key_of s) (omOwnerReferences (secMeta s)) r (sec w) (sec w')"
    and "answers h (EvPatchMerge s b o' r) w w' \<Longrightarrow> libUnmarshalMap L b = Inr (Some (ownership_patch refs)) \<Longrightarrow>
        puts_owners (secret_key_of s) refs r (sec w) (sec w')"
    and "answers h ev w w' \<Longrightarrow> target ev = None \<Longrightarrow> sec w' = sec w"
    and "answers h ev w w' \<Longrightarrow> target ev = Some key \<Longrightarrow> fst key \<noteq> KSecret \<Longrightarrow> sec w' = sec w"
  using assms unfolding secret_store_def by (blast, (fastforce dest: spec)+)

text \<open>Every generated secret is as the policy wants it, or is not there because the user supplies it.\<close>

definition upheld :: "Lib \<Rightarrow> PaperlessInstance \<Rightarrow> (ObjectKey \<rightharpoonup> Secret) \<Rightarrow> string \<Rightarrow> bool" where
  "upheld L inst m n \<longleftrightarrow> (case m (secret_key_for inst n) of
     None \<Rightarrow> user_supplied inst n | Some s \<Rightarrow> owns_matches L inst s)"

lemma owners_match:
  assumes O: "owner_laws L" and s: "omOwnerReferences (secMeta s) = stateful_owners inst"
  shows "owns_matches L inst s"
proof -
  have "secMeta s = (secMeta s)\<lparr>omOwnerReferences := stateful_owners inst\<rparr>"
    using s by (cases "secMeta s") simp
  then show ?thesis
    using isControlledBy_owner [OF O, where m = "secMeta s" and inst = inst]
    unfolding owns_matches_def stateful_owners_def by (auto split: if_splits)
qed

lemma puts_upheld:
  assumes "lib_laws L" and "puts_owners k (stateful_owners inst) r m m'"
  shows "upheld L inst m n \<Longrightarrow> upheld L inst m' n"
    and "r = None \<Longrightarrow> k = secret_key_for inst n \<Longrightarrow> upheld L inst m' n"
  using assms(2) owners_match [OF lib_lawsD(4) [OF assms(1)], of _ inst]
  by (auto simp: puts_owners_def upheld_def split: if_splits)

text \<open>What a reconciliation requests keeps them so, and some of it makes them so.\<close>

lemma step_keeps_upheld:
  assumes L: "lib_laws L" and S: "secret_store L h sec" and a: "answers h ev w w'"
    and ev: "is_status_patch ev \<or> (\<exists>s. step_event L inst s ev)"
    and m: "\<And>s b o' r. ev = EvPatchMerge s b o' r \<Longrightarrow> omNamespace (secMeta s) = inst_ns inst"
    and u: "upheld L inst (sec w) n"
  shows "upheld L inst (sec w') n"
proof (cases ev)
  case (EvCreateSecret s r)
  then have "omOwnerReferences (secMeta s) = stateful_owners inst"
    using ev by (auto simp: is_status_patch_def)
  then show ?thesis
    using puts_upheld(1) [OF L, of "secret_key_of s" inst r "sec w" "sec w'" n] u
      secret_storeD(5) [OF S, of s r w w'] a EvCreateSecret by simp
next
  case (EvPatchMerge s b o' r)
  then have "libUnmarshalMap L b = Inr (Some (ownership_patch (stateful_owners inst)))"
    using ev m [OF EvPatchMerge] by (auto simp: is_status_patch_def)
  then show ?thesis
    using puts_upheld(1) [OF L, of "secret_key_of s" inst r "sec w" "sec w'" n] u
      secret_storeD(6) [OF S, of s b o' r w w'] a EvPatchMerge by simp
next
  case (EvPatchApply obj b o' fo r)
  then obtain s where "step_event L inst s ev" using ev by (auto simp: is_status_patch_def)
  then have "kind_of obj \<noteq> KSecret" using EvPatchApply confined_step_event [OF L, of inst s ev] by simp
  then show ?thesis
    using secret_storeD(8) [OF S a, of "key_of obj"] u EvPatchApply by (simp add: key_of_def)
qed (use secret_storeD(7) [OF S a] u in simp_all)

lemma upholds_makes:
  assumes L: "lib_laws L" and S: "secret_store L h sec" and a: "answers h ev w w'" and u: "upholds L inst n ev"
  shows "upheld L inst (sec w') n"
proof (cases ev)
  case (EvGetSecret k q)
  then show ?thesis
    using u a secret_storeD(2-4) [OF S, of k] by (cases q) (auto simp: upheld_def)
next
  case (EvCreateSecret s r)
  then show ?thesis
    using u a puts_upheld(2) [OF L, of _ inst r "sec w" "sec w'" n] secret_storeD(5) [OF S, of s r w w'] by simp
next
  case (EvPatchMerge s b o' r)
  then show ?thesis
    using u a puts_upheld(2) [OF L, of _ inst r "sec w" "sec w'" n] secret_storeD(6) [OF S, of s b o' r w w'] by simp
qed (use u in simp_all)

text \<open>The requests of a log that is answered by the server, and where they lead.\<close>

definition of_instance :: "Lib \<Rightarrow> PaperlessInstance \<Rightarrow> event \<Rightarrow> bool" where
  "of_instance L inst ev \<longleftrightarrow> (is_status_patch ev \<or> (\<exists>s. step_event L inst s ev)) \<and>
     (\<forall>s b o' r. ev = EvPatchMerge s b o' r \<longrightarrow> omNamespace (secMeta s) = inst_ns inst)"

lemma chain_keeps_upheld:
  assumes "lib_laws L" and "secret_store L h sec"
  shows "chain h w es w' \<Longrightarrow> list_all (of_instance L inst) es \<Longrightarrow> upheld L inst (sec w) n \<Longrightarrow>
    upheld L inst (sec w') n"
proof (induction es arbitrary: w)
  case (Cons e es)
  then obtain v where v: "answers h e w v" "chain h v es w'" by auto
  with Cons show ?case
    using step_keeps_upheld [OF assms v(1), of inst n] by (auto simp: of_instance_def)
qed simp

lemma chain_makes_upheld:
  assumes L: "lib_laws L" and S: "secret_store L h sec"
    and "chain h w es w'" and "list_all (of_instance L inst) es" and "list_ex (upholds L inst n) es"
  shows "upheld L inst (sec w') n"
proof -
  from assms(5) obtain pre e post where es: "es = pre @ e # post" and u: "upholds L inst n e"
    by (auto simp: list_ex_iff dest: split_list)
  with assms(3) obtain v v' where "answers h e v v'" "chain h v' post w'" by (auto simp: chain_append)
  with chain_keeps_upheld [OF L S, of v' post w' inst n] upholds_makes [OF L S _ u] assms(4) es
  show ?thesis by simp
qed

lemma chain_calm:
  assumes L: "lib_laws L" and S: "secret_store L h sec"
  shows "chain h w es w' \<Longrightarrow> list_all (of_instance L inst) es \<Longrightarrow>
    \<forall>n \<in> set (generated_secret_names inst). upheld L inst (sec w) n \<Longrightarrow> list_all (calm L inst) es"
proof (induction es arbitrary: w)
  case (Cons e es)
  then obtain v where v: "answers h e w v" "chain h v es w'" by auto
  have "calm L inst e"
  proof (cases e)
    case (EvGetSecret k q)
    then show ?thesis
      using v(1) Cons.prems(3) secret_storeD(3,4) [OF S, of k] by (cases q) (fastforce simp: upheld_def)+
  qed simp_all
  moreover have "\<forall>n \<in> set (generated_secret_names inst). upheld L inst (sec v) n"
    using step_keeps_upheld [OF L S v(1), of inst] Cons.prems by (auto simp: of_instance_def)
  ultimately show ?case using Cons v by simp
qed simp

text \<open>All that a reconciliation requests, if the server returns the secrets it is asked for.\<close>

lemma Reconcile_of_instance:
  assumes L: "lib_laws L"
  shows "wp (Reconcile L req) (\<lambda>es x. case es of
      EvGetInstance k (Inr inst) # rest \<Rightarrow> list_all reads_asked rest \<longrightarrow> list_all (of_instance L inst) rest
    | _ \<Rightarrow> True)"
proof -
  let ?P = "\<lambda>inst ev. (\<exists>s. step_event L inst s ev) \<or> is_status_patch ev"
  have "of_instance L inst ev"
    if P: "list_all (?P inst) es" and pr: "patches_read inst es" and r: "list_all reads_asked es" and ev: "ev \<in> set es"
    for inst es ev
  proof -
    have "omNamespace (secMeta s) = inst_ns inst" if e: "ev = EvPatchMerge s b o' u" for s b o' u
    proof -
      obtain pre post where es: "es = pre @ EvPatchMerge s b o' u # post" using ev e by (blast dest: split_list)
      then obtain n where "EvGetSecret \<lparr>okNamespace = inst_ns inst, okName = n\<rparr> (Inr s) \<in> set pre"
        using pr unfolding patches_read_def by blast
      then have "reads_asked (EvGetSecret \<lparr>okNamespace = inst_ns inst, okName = n\<rparr> (Inr s))"
        using r unfolding es list_all_iff by simp
      then show ?thesis by (simp add: reads_asked_def)
    qed
    then show ?thesis using P ev unfolding of_instance_def list_all_iff by blast
  qed
  then have all: "list_all (of_instance L inst) es"
    if "list_all (?P inst) es" "patches_read inst es" "list_all reads_asked es" for inst es
    using that by (simp add: list_all_iff)
  have "wp (Reconcile L req) (\<lambda>es x. (case es of
      EvGetInstance k (Inr inst) # rest \<Rightarrow> list_all (?P inst) rest | _ \<Rightarrow> True) \<and>
      (case es of EvGetInstance k (Inr inst) # rest \<Rightarrow> patches_read inst rest | _ \<Rightarrow> True))"
    unfolding wp_conj
    by (intro conjI reconcile_all_requests [OF L] Reconcile_patches_read [OF L]) (auto simp: is_status_patch_def)
  then show ?thesis
  proof (rule wp_mono)
    fix es :: "event list" and x :: "(Result \<times> err) go"
    assume *: "(case es of EvGetInstance k (Inr inst) # rest \<Rightarrow> list_all (?P inst) rest | _ \<Rightarrow> True) \<and>
      (case es of EvGetInstance k (Inr inst) # rest \<Rightarrow> patches_read inst rest | _ \<Rightarrow> True)"
    then show "case es of
        EvGetInstance k (Inr inst) # rest \<Rightarrow> list_all reads_asked rest \<longrightarrow> list_all (of_instance L inst) rest
      | _ \<Rightarrow> True"
    proof (cases es)
      case (Cons e rest)
      then show ?thesis using * by (cases e) (simp_all add: all split: sum.splits)
    qed simp
  qed
qed

section \<open>Reconciling twice\<close>

text \<open>What is known of a reconciliation that runs alone.\<close>

lemma lone_run:
  assumes L: "lib_laws L" and S: "secret_store L h sec"
    and ev: "events (run h (Reconcile L req) w) = EvGetInstance req (Inr inst) # es"
  obtains v where "sec v = sec w" and "chain h v es (final (run h (Reconcile L req) w))"
    and "list_all (of_instance L inst) es"
    and "list_all (calm L inst) es \<Longrightarrow> list_all no_secret_write es"
    and "\<And>y. result (run h (Reconcile L req) w) = Value y \<Longrightarrow> prefix (applied es) (plan L inst)"
    and "result (run h (Reconcile L req) w) = Value (zero_result, None) \<Longrightarrow>
       applied es = plan L inst \<and> (\<forall>n \<in> set (generated_secret_names inst). list_ex (upholds L inst n) es)"
proof -
  obtain v where v: "answers h (EvGetInstance req (Inr inst)) w v" "chain h v es (final (run h (Reconcile L req) w))"
    using run_chain [of h w "Reconcile L req"] unfolding ev chain.simps by blast
  have "list_all reads_asked (events (run h (Reconcile L req) w))"
    using run_answered [of h "Reconcile L req" w] secret_storeD(1) [OF S]
    unfolding list_all_iff faithful_reads_def by blast
  then have r: "list_all reads_asked es" unfolding ev by simp
  have known: "Q inst es (result (run h (Reconcile L req) w))" if "\<And>inst. wp (after_read L inst) (Q inst)" for Q
    using wp_run [OF wp_Reconcile [of L Q req, OF that], of h w] unfolding ev by simp
  note plan = known [OF after_read_follows [OF L, unfolded yields_def]]
    and up = known [OF after_read_upheld [OF L, unfolded yields_def]]
  show thesis
  proof (rule that [OF _ v(2)])
    show "sec v = sec w" using secret_storeD(7) [OF S v(1)] by simp
    show "list_all (of_instance L inst) es"
      using wp_run [OF Reconcile_of_instance [OF L, of req], of h w] r unfolding ev by simp
    show "list_all no_secret_write es" if "list_all (calm L inst) es"
      using known [OF after_read_unmoved [OF L, unfolded unmoved_def]] that by blast
    show "prefix (applied es) (plan L inst)" if "result (run h (Reconcile L req) w) = Value y" for y
      using plan that by blast
    assume ok: "result (run h (Reconcile L req) w) = Value (zero_result, None)"
    then have "plan_done L inst es" "upheld_by L inst es" using plan up by blast+
    then show "applied es = plan L inst \<and> (\<forall>n \<in> set (generated_secret_names inst). list_ex (upholds L inst n) es)"
      using r unfolding plan_done_def upheld_by_def by blast
  qed
qed

lemma upheld_same: "resembles a b \<Longrightarrow> upheld L b m n \<longleftrightarrow> upheld L a m n"
  by (simp add: upheld_def resembles_same split: option.split)

text \<open>
  C14: Reconciling again changes nothing. When a reconciliation of an instance has succeeded, the next
  one of the same instance, its specification unchanged and its generated secrets left as
  they were, draws nothing, creates no secret and patches none; what it applies are the same
  objects with the same owners in the same order, all of them if it succeeds too. This holds
  of any server that stores secrets: whatever it answers to the second, and whether the first
  created the secrets, found them, or changed their owners after a change of policy.
\<close>

theorem reconciliation_is_idempotent:
  assumes L: "lib_laws L" and S: "secret_store L h sec"
    and first: "events (run h (Reconcile L req) w) = EvGetInstance req (Inr inst) # es"
      "result (run h (Reconcile L req) w) = Value (zero_result, None)"
    and kept: "\<And>n. n \<in> set (generated_secret_names inst) \<Longrightarrow>
      sec w' \<lparr>okNamespace = inst_ns inst, okName = n\<rparr> =
      sec (final (run h (Reconcile L req) w)) \<lparr>okNamespace = inst_ns inst, okName = n\<rparr>"
    and again: "events (run h (Reconcile L req') w') = EvGetInstance req' (Inr inst') # es'"
      "result (run h (Reconcile L req') w') = Value y"
    and same: "piMeta inst' = piMeta inst" "piSpec inst' = piSpec inst"
  shows "list_all no_secret_write es' \<and> prefix (applied es') (applied es) \<and>
    (y = (zero_result, None) \<longrightarrow> applied es' = applied es)"
proof -
  have r: "resembles inst inst'" using same by (simp add: resembles_def)
  have names: "generated_secret_names inst' = generated_secret_names inst"
    and plan: "plan L inst' = plan L inst"
    by (simp_all add: resembles_same [OF r] plan_def)
  obtain v where v: "chain h v es (final (run h (Reconcile L req) w))" "list_all (of_instance L inst) es"
    "applied es = plan L inst" "\<forall>n \<in> set (generated_secret_names inst). list_ex (upholds L inst n) es"
    by (rule lone_run [OF L S first(1)]) (use first(2) in blast)
  have "upheld L inst (sec (final (run h (Reconcile L req) w))) n" if "n \<in> set (generated_secret_names inst)" for n
    using chain_makes_upheld [OF L S v(1,2)] v(4) that by blast
  then have up: "upheld L inst' (sec w') n" if "n \<in> set (generated_secret_names inst)" for n
    using kept [OF that] that by (simp add: upheld_same [OF r]) (simp add: upheld_def secret_key_for_def)
  obtain u where u: "sec u = sec w'" "chain h u es' (final (run h (Reconcile L req') w'))"
    "list_all (of_instance L inst') es'" "list_all (calm L inst') es' \<Longrightarrow> list_all no_secret_write es'"
    "prefix (applied es') (plan L inst')" "y = (zero_result, None) \<Longrightarrow> applied es' = plan L inst'"
    by (rule lone_run [OF L S again(1)]) (use again(2) in blast)
  have "list_all (calm L inst') es'"
    by (rule chain_calm [OF L S u(2,3)]) (simp add: u(1) up names)
  then show ?thesis using u(4-6) v(3) by (simp add: plan)
qed

text \<open>The reference server stores secrets.\<close>

lemma stored_put:
  "secret_key_of s = k \<Longrightarrow> stored_secret (w\<lparr>clSecrets := (clSecrets w)(k \<mapsto> s)\<rparr>) = (stored_secret w)(k \<mapsto> s)"
  by (auto simp: stored_secret_def fun_eq_iff)

lemma stored_key: "stored_secret w k = Some s \<Longrightarrow> secret_key_of s = k"
  by (auto simp: stored_secret_def split: option.splits if_splits)

lemma ref_server_stores: "secret_store L (ref_server L) stored_secret"
proof -
  have "faithful_reads (ref_server L)" using ref_server_objects unfolding object_server_def by blast
  moreover have "puts_owners (secret_key_of s) (omOwnerReferences (secMeta s)) r (stored_secret w) (stored_secret w')"
    if "answers (ref_server L) (EvCreateSecret s r) w w'" for s r w w'
    using that by (auto simp: ref_server_def puts_owners_def stored_put split: if_splits)
  moreover have "puts_owners (secret_key_of s) refs r (stored_secret w) (stored_secret w')"
    if "answers (ref_server L) (EvPatchMerge s b o' r) w w'" "libUnmarshalMap L b = Inr (Some (ownership_patch refs))"
    for s b o' r refs w w'
  proof (cases "stored_secret w (secret_key_of s)")
    case (Some old)
    then have "secret_key_of (merge_owners L b old) = secret_key_of s" by (simp add: stored_key)
    then show ?thesis
      using that(1) Some by (auto simp: ref_server_def puts_owners_def stored_put merge_ownership_patch [OF that(2)])
  qed (use that(1) in \<open>auto simp: ref_server_def puts_owners_def\<close>)
  moreover have "stored_secret w' = stored_secret w"
    if "answers (ref_server L) ev w w'" "target ev = None \<or> (\<exists>k. target ev = Some k \<and> fst k \<noteq> KSecret)" for ev w w'
    using that by (cases ev) (auto simp: ref_server_def stored_secret_def key_of_def fun_eq_iff split: if_splits option.splits)
  moreover have "stored_secret w' = stored_secret w \<and> (case r of Inr s \<Rightarrow> stored_secret w k = Some s
      | Inl e \<Rightarrow> libIsNotFound L (Some e) \<longrightarrow> stored_secret w k = None)"
    if "answers (ref_server L) (EvGetSecret k r) w w'" for k r w w'
    using that by (auto simp: ref_server_def found_def split: option.splits)
  ultimately show ?thesis unfolding secret_store_def by blast
qed

text \<open>
  A server that serves every request and stores secrets only: it has one instance, and creates
  and patches secrets unconditionally.
\<close>

definition keeping :: "PaperlessInstance \<Rightarrow> (ObjectKey \<rightharpoonup> Secret) handler" where
  "keeping inst = \<lparr>
     hGetInstance = (\<lambda>k w. (Inr inst, w)),
     hGetSecret = (\<lambda>k w. (found (case w k of None \<Rightarrow> None | Some s \<Rightarrow> if secret_key_of s = k then Some s else None), w)),
     hGetCRD = (\<lambda>n w. (None, w)),
     hCreateSecret = (\<lambda>s w. (None, w(secret_key_of s \<mapsto> s))),
     hPatchApply = (\<lambda>obj b o' fo w. (Inr obj, w)),
     hPatchMerge = (\<lambda>s b o' w. (None, w(secret_key_of s \<mapsto> merge_owners ref_lib b s))),
     hPatchStatus = (\<lambda>i b w. (None, w)),
     hReadRand = (\<lambda>n w. (Inr (\<lambda>_. 0), w)),
     hNow = (\<lambda>w. (7, w))\<rparr>"

definition kept_secrets :: "(ObjectKey \<rightharpoonup> Secret) \<Rightarrow> ObjectKey \<rightharpoonup> Secret" where
  "kept_secrets w k = (case w k of None \<Rightarrow> None | Some s \<Rightarrow> if secret_key_of s = k then Some s else None)"

lemma kept_put: "secret_key_of s = k \<Longrightarrow> kept_secrets (w(k \<mapsto> s)) = (kept_secrets w)(k \<mapsto> s)"
  by (auto simp: kept_secrets_def fun_eq_iff)

lemma keeping_reads: "answers (keeping inst) (EvGetSecret k r) w w' \<longleftrightarrow> r = found (kept_secrets w k) \<and> w' = w"
  by (auto simp: keeping_def kept_secrets_def)

lemma keeping_stores: "secret_store ref_lib (keeping inst) kept_secrets"
proof -
  have "reads_asked ev" if "answers (keeping inst) ev w w'" for ev w w'
  proof (cases ev)
    case (EvGetSecret k r)
    with that keeping_reads [of inst k r w w'] show ?thesis
      by (auto simp: reads_asked_def found_def kept_secrets_def secret_key_of_def split: option.splits if_splits)
  qed (simp_all add: reads_asked_def)
  then have "faithful_reads (keeping inst)" unfolding faithful_reads_def answered_def by blast
  moreover have "puts_owners (secret_key_of s) refs r (kept_secrets w) (kept_secrets w')"
    if "answers (keeping inst) (EvPatchMerge s b o' r) w w'" "libUnmarshalMap ref_lib b = Inr (Some (ownership_patch refs))"
    for s b o' r refs w w'
    using that(1) by (auto simp: keeping_def puts_owners_def kept_put merge_ownership_patch [OF that(2)] secret_key_of_def)
  moreover have "puts_owners (secret_key_of s) (omOwnerReferences (secMeta s)) r (kept_secrets w) (kept_secrets w')"
    if "answers (keeping inst) (EvCreateSecret s r) w w'" for s r w w'
    using that by (auto simp: keeping_def puts_owners_def kept_put)
  moreover have "kept_secrets w' = kept_secrets w"
    if "answers (keeping inst) ev w w'" "target ev = None \<or> (\<exists>k. target ev = Some k \<and> fst k \<noteq> KSecret)" for ev w w'
    using that by (cases ev) (auto simp: keeping_def key_of_def)
  ultimately show ?thesis
    unfolding secret_store_def keeping_reads by (auto simp: found_def split: option.splits)
qed

text \<open>
  The instance \<open>docs\<close> now asks for its data to be deleted with it: the first reconciliation
  takes over the key that is there and creates the admin secret, the second one does neither.
\<close>

definition turned_docs :: PaperlessInstance where
  "turned_docs = deleting (bare_instance ''docs'' ''ns'' ''u'')"

definition docs_secrets :: "ObjectKey \<rightharpoonup> Secret" where
  "docs_secrets = [\<lparr>okNamespace = ''ns'', okName = ''docs-secret-key''\<rparr> \<mapsto>
     \<lparr>secMeta = new_meta ''docs-secret-key'' ''ns'' Map.empty, secData = Map.empty,
      secStringData = [''PAPERLESS_SECRET_KEY'' \<mapsto> ''s3cret'']\<rparr>]"

lemma turned_docs_succeeds:
  fixes w :: "ObjectKey \<rightharpoonup> Secret"
  obtains es where "events (run (keeping turned_docs) (Reconcile ref_lib docs_key) w) = EvGetInstance docs_key (Inr turned_docs) # es"
    and "result (run (keeping turned_docs) (Reconcile ref_lib docs_key) w) = Value (zero_result, None)"
proof -
  let ?o = "run (keeping turned_docs) (Reconcile ref_lib docs_key) w"
  obtain es where ev: "events ?o = EvGetInstance docs_key (Inr turned_docs) # es"
    by (simp add: Reconcile_def keeping_def)
  have "list_all (answered (keeping turned_docs)) es"
    using run_answered [of "keeping turned_docs" "Reconcile ref_lib docs_key" w] by (simp add: ev)
  then have "list_all (served ref_lib turned_docs) es"
  proof (rule list.pred_mono_strong)
    fix e assume a: "answered (keeping turned_docs) e"
    show "served ref_lib turned_docs e"
    proof (cases e)
      case (EvGetSecret k r)
      with a obtain w' where r: "r = found (kept_secrets w' k)"
        unfolding answered_def by (auto simp only: keeping_reads)
      have "\<not> is_external_key turned_docs k"
        by (simp add: is_external_key_def turned_docs_def deleting_def bare_instance_def zero_spec_def)
      then show ?thesis
        by (auto simp: EvGetSecret r found_def kept_secrets_def secret_key_of_def ref_is_not_found_def
            split: option.splits if_splits)
    qed (use a in \<open>auto simp: answered_def keeping_def\<close>)
  qed
  moreover have "nameable ref_lib turned_docs"
    using docs_nameable [of "piStatus turned_docs"]
    by (simp add: nameable_def name_defs derivedName_def turned_docs_def deleting_def bare_instance_def)
  ultimately have "result ?o = Value (zero_result, None)"
    using wp_run [OF wp_Reconcile [of ref_lib "\<lambda>inst rest x. nameable ref_lib inst \<longrightarrow>
        list_all (served ref_lib inst) rest \<longrightarrow> x = Value (zero_result, None)" docs_key], of "keeping turned_docs" w]
      after_read_completes [OF ref_lib_laws]
    by (auto simp: wp_def ev)
  with ev show thesis by (rule that)
qed

theorem reconciliation_is_idempotent_witness:
  "let once = run (keeping turned_docs) (Reconcile ref_lib docs_key) docs_secrets;
       twice = run (keeping turned_docs) (Reconcile ref_lib docs_key) (final once)
   in list_all no_secret_write (tl (events twice)) \<and> applied (tl (events twice)) = applied (tl (events once))"
proof -
  let ?once = "run (keeping turned_docs) (Reconcile ref_lib docs_key) docs_secrets"
  let ?twice = "run (keeping turned_docs) (Reconcile ref_lib docs_key) (final ?once)"
  obtain es where es: "events ?once = EvGetInstance docs_key (Inr turned_docs) # es"
    "result ?once = Value (zero_result, None)" by (rule turned_docs_succeeds)
  obtain es' where es': "events ?twice = EvGetInstance docs_key (Inr turned_docs) # es'"
    "result ?twice = Value (zero_result, None)" by (rule turned_docs_succeeds)
  show ?thesis
    using reconciliation_is_idempotent [OF ref_lib_laws keeping_stores es refl es' refl refl] es(1) es'(1)
    by (simp add: Let_def)
qed

end
