(* ===== verification/Database_First.thy ===== *)
theory Database_First
  imports Completion
begin

text \<open>
  The database comes first: nothing of the cache or the server is applied before the database
  has been seen to be there in the same reconciliation.
\<close>

section \<open>What has gone before\<close>

text \<open>Before every request of \<open>B\<close> the log so far is in \<open>A\<close>.\<close>

definition preceded :: "(event \<Rightarrow> bool) \<Rightarrow> (event list \<Rightarrow> bool) \<Rightarrow> event list \<Rightarrow> bool" where
  "preceded B A es \<longleftrightarrow> (\<forall>pre e post. es = pre @ e # post \<longrightarrow> B e \<longrightarrow> A pre)"

lemma preceded_none: "list_all (\<lambda>e. \<not> B e) es \<Longrightarrow> preceded B A es"
  by (auto simp: preceded_def)

lemma preceded_append:
  assumes "preceded B A es" and "preceded B (\<lambda>pre. A (es @ pre)) es'"
  shows "preceded B A (es @ es')"
  unfolding preceded_def
proof (intro allI impI)
  fix pre e post assume eq: "es @ es' = pre @ e # post" and e: "B e"
  from eq obtain us where "es = pre @ us \<and> us @ es' = e # post \<or> es @ us = pre \<and> es' = us @ e # post"
    unfolding append_eq_append_conv2 by auto
  then consider vs where "es = pre @ e # vs" | vs where "pre = es @ vs" "es' = vs @ e # post"
    by (cases us) auto
  then show "A pre"
    by cases (use assms e in \<open>auto simp: preceded_def\<close>)
qed

lemma preceded_later:
  assumes "list_all (\<lambda>e. \<not> B e) es" and "preceded B A es'" and "\<And>pre. A pre \<Longrightarrow> A (es @ pre)"
  shows "preceded B A (es @ es')"
  by (rule preceded_append [OF preceded_none [OF assms(1)]])
     (use assms(2,3) in \<open>auto simp: preceded_def\<close>)

lemma preceded_since:
  assumes "list_all (\<lambda>e. \<not> B e) es" and "\<And>pre. A (es @ pre)"
  shows "preceded B A (es @ es')"
  by (rule preceded_append [OF preceded_none [OF assms(1)]]) (simp add: preceded_def assms(2))

text \<open>
  Evidence of the database: the secret of an external one was read and has both keys; for a
  managed one, CloudNativePG was found to be installed and the cluster was accepted.
\<close>

definition database_there :: "Lib \<Rightarrow> PaperlessInstance \<Rightarrow> event list \<Rightarrow> bool" where
  "database_there L inst es \<longleftrightarrow> (case dbExternal (spDatabase (piSpec inst)) of
     Some ext \<Rightarrow> \<exists>s. EvGetSecret \<lparr>okNamespace = inst_ns inst, okName = lrName (edCredentialsSecretRef ext)\<rparr> (Inr s) \<in> set es \<and>
       secData s ''username'' \<noteq> None \<and> secData s ''password'' \<noteq> None
   | None \<Rightarrow> EvGetCRD cnpgCRDName None \<in> set es \<and>
       (\<exists>c. CNPGCluster L inst = Value (Inr c) \<and>
          with_refs (stateful_owners inst) (OUnstructured c) \<in> accepted es))"

lemma database_there_more:
  "database_there L inst es \<Longrightarrow> database_there L inst (pre @ es @ post)"
  by (auto simp: database_there_def split: option.splits)

lemma database_there_same: "only_conditions a b \<Longrightarrow> database_there L b = database_there L a"
proof -
  assume "only_conditions a b"
  then obtain cs where b: "b = PutConditions cs a" by (auto simp: only_conditions_def)
  have "CNPGCluster L b = CNPGCluster L a" for L
    unfolding b CNPGCluster_def name_defs PutConditions_sel ignore_conditions by (rule refl)
  then show ?thesis by (simp add: fun_eq_iff database_there_def b split: option.split)
qed

definition gated :: "Lib \<Rightarrow> PaperlessInstance \<Rightarrow> 'a prog \<Rightarrow> bool" where
  "gated L inst p \<longleftrightarrow> wp p (\<lambda>es x. preceded brings_up (database_there L inst) es)"

lemma gated_quiet: "emits (\<lambda>e. \<not> brings_up e) p \<Longrightarrow> gated L inst p"
  unfolding gated_def emits_def by (erule wp_mono) (rule preceded_none)

lemma gated_bind:
  assumes p: "emits (\<lambda>e. \<not> brings_up e) p" and R: "results R p" and f: "\<And>y. R y \<Longrightarrow> gated L inst (f y)"
  shows "gated L inst (bind p f)"
proof -
  have "wp p (\<lambda>es x. list_all (\<lambda>e. \<not> brings_up e) es \<and> (case x of Value y \<Rightarrow> R y | Panic m \<Rightarrow> True))"
    using p R unfolding wp_conj emits_def results_def by blast
  then show ?thesis
    unfolding gated_def
  proof (rule wp_bindI)
    fix es x assume es: "list_all (\<lambda>e. \<not> brings_up e) es \<and> (case Value x of Value y \<Rightarrow> R y | Panic m \<Rightarrow> True)"
    show "wp (f x) (\<lambda>es' x. preceded brings_up (database_there L inst) (es @ es'))"
      using f [of x] es unfolding gated_def
      by (auto elim!: wp_mono intro!: preceded_later dest: database_there_more [where post = "[]", simplified])
  qed (auto intro: preceded_none)
qed

lemma gated_by:
  assumes p: "emits (\<lambda>e. \<not> brings_up e) p" and A: "yields p (\<lambda>es y. ok y \<longrightarrow> database_there L inst es)"
    and f: "\<And>y. \<not> ok y \<Longrightarrow> emits (\<lambda>e. \<not> brings_up e) (f y)"
  shows "gated L inst (bind p f)"
proof -
  have "wp p (\<lambda>es x. list_all (\<lambda>e. \<not> brings_up e) es \<and> (\<forall>y. x = Value y \<longrightarrow> ok y \<longrightarrow> database_there L inst es))"
    using p A unfolding wp_conj emits_def yields_def ..
  then show ?thesis
    unfolding gated_def
  proof (rule wp_bindI)
    fix es x assume es: "list_all (\<lambda>e. \<not> brings_up e) es \<and> (\<forall>y. Value x = Value y \<longrightarrow> ok y \<longrightarrow> database_there L inst es)"
    show "wp (f x) (\<lambda>es' x. preceded brings_up (database_there L inst) (es @ es'))"
    proof (cases "ok x")
      case True
      then have "database_there L inst (es @ pre)" for pre
        using es database_there_more [of L inst es "[]" pre] by simp
      then have "preceded brings_up (database_there L inst) (es @ es')" for es'
        using es by (blast intro: preceded_since)
      then show ?thesis by (simp add: wp_def)
    next
      case False
      show ?thesis
        using f [OF False] unfolding emits_def
        by (rule wp_mono) (use es in \<open>simp add: preceded_none\<close>)
    qed
  qed (rule preceded_none, simp)
qed

section \<open>The steps\<close>

lemma database_found:
  assumes L: "lib_laws L"
  shows "yields (reconcileDatabase L inst) (\<lambda>es x. snd x = Inr True \<longrightarrow> database_there L inst es)"
proof (cases "dbExternal (spDatabase (piSpec inst))")
  case (Some ext)
  then show ?thesis
    by (auto simp: reconcileDatabase_def reconcileExternalDatabase_def Let_def bind_SetCondition
        database_there_def external_secret_key_def split: sum.split)
next
  case None
  have "yields (reconcileDatabase L inst) (\<lambda>es x. snd x = Inr True \<longrightarrow>
      EvGetCRD cnpgCRDName None \<in> set es \<and> (\<exists>c. CNPGCluster L inst = Value (Inr c)))"
  proof -
    obtain r where r: "CNPGCluster L inst = Value r"
      using CNPGCluster_valid [OF lib_lawsD(1) [OF L] lib_lawsD(7) [OF L]] CNPGCluster_invalid by metis
    have any: "yields p (\<lambda>es y. True)" for p :: "'b prog" by (simp add: yields_def wp_def)
    show ?thesis
      using None r
      by (auto simp: reconcileDatabase_def reconcileManagedDatabase_def cnpgInstalled_def bind_SetCondition
          split: option.split sum.split bool.split intro!: yields_bind [OF any])
  qed
  from yields_conj [OF this database_done [OF L, of inst]] show ?thesis
    by (rule yields_mono)
       (use None in \<open>auto simp: database_there_def all_applied_def cluster_objects_def IsExternal_def\<close>)
qed

lemma early_step_quiet:
  assumes "lib_laws L" and "stage_ok L s" and "sgTag s \<le> StDatabase"
  shows "emits (\<lambda>e. \<not> brings_up e) (sgBody s inst)"
proof -
  have "safe (step_event L inst (sgTag s)) (sgBody s inst)"
    using assms(1,2) by (simp add: stage_ok_def reconcile_step_def)
  then show ?thesis
    unfolding safe_def emits_def using early_steps_do_not_bring_up [OF _ assms(3)]
    by (elim wp_mono) (auto simp: list_all_iff)
qed

lemma stage_stopped_quiet:
  "snd y \<noteq> Inr True \<Longrightarrow> emits (\<lambda>e. \<not> brings_up e) (after_stage L s rest y)"
  by (cases "(L, s, rest, y)" rule: after_stage.cases)
     (auto simp: step_failed_def database_not_ready_def bind_SetCondition brings_up_def)

lemma gated_same: "only_conditions a b \<Longrightarrow> gated L b = gated L a"
  by (simp add: gated_def fun_eq_iff database_there_same)

lemma stage_gated:
  assumes L: "lib_laws L" and s: "stage_ok L s" "sgTag s \<le> StDatabase" and same: "results (\<lambda>x. fst x = inst) (sgBody s inst)"
    and rest: "gated L inst (rest inst)"
  shows "gated L inst (bind (sgBody s inst) (after_stage L s rest))"
proof (rule gated_bind [OF early_step_quiet [OF L s] same])
  fix y :: "PaperlessInstance \<times> (gerror + bool)" assume y: "fst y = inst"
  show "gated L inst (after_stage L s rest y)"
  proof (cases "snd y = Inr True")
    case True
    with y have "y = (inst, Inr True)" by (simp add: prod_eq_iff)
    with rest show ?thesis by simp
  qed (rule gated_quiet [OF stage_stopped_quiet])
qed

lemma database_stage_gated:
  assumes L: "lib_laws L" and s: "stage_ok L s" "sgTag s = StDatabase" "sgBody s = reconcileDatabase L"
  shows "gated L inst (bind (reconcileDatabase L inst) (after_stage L s rest))"
  by (rule gated_by [where ok = "\<lambda>y. snd y = Inr True"])
     (use early_step_quiet [OF L s(1), of inst] s database_found [OF L] stage_stopped_quiet in simp_all)

lemma instance_gated:
  assumes L: "lib_laws L"
  shows "gated L inst (reconcileInstance L inst)"
proof -
  have ok: "stage_ok L (stages L ! 0)" "stage_ok L (stages L ! 1)" "stage_ok L (stages L ! 2)"
    using stages_ok [of L] by (simp_all add: stages_def)
  have run: "run_stages L (stages L) inst =
      bind (sgBody (stages L ! 0) inst) (after_stage L (stages L ! 0) (\<lambda>i.
      bind (sgBody (stages L ! 1) i) (after_stage L (stages L ! 1) (\<lambda>i.
      bind (reconcileDatabase L i) (after_stage L (stages L ! 2) (run_stages L (drop 3 (stages L))))))))"
    by (simp add: stages_def)
  have same: "results (\<lambda>x. fst x = inst) (unconditional p inst)" for p
    unfolding unconditional_def by (rule results_bind_any) (simp add: results_def)
  show ?thesis
    unfolding reconcileInstance_stages run
    by (rule stage_gated [OF L ok(1)], simp_all add: stages_def less_eq_step_def same,
        rule stage_gated [OF L ok(2), unfolded stages_def, simplified],
        simp_all add: less_eq_step_def same database_stage_gated [OF L ok(3), unfolded stages_def, simplified])
qed

lemma gated_then:
  assumes "gated L inst p" and "\<And>y. emits (\<lambda>e. \<not> brings_up e) (f y)"
  shows "gated L inst (bind p f)"
  unfolding gated_def
proof (rule wp_bindI [OF assms(1) [unfolded gated_def]])
  fix es x assume "preceded brings_up (database_there L inst) es"
  then show "wp (f x) (\<lambda>es' x. preceded brings_up (database_there L inst) (es @ es'))"
    using assms(2) [of x] unfolding emits_def
    by (blast intro: wp_mono preceded_append preceded_none)
qed

lemma gated_Now:
  assumes "\<And>t. gated L inst (c t)"
  shows "gated L inst (Now c)"
  unfolding gated_def wp_basic
proof (rule allI)
  fix t
  have "preceded brings_up (database_there L inst) ([EvNow t] @ es)"
    if "preceded brings_up (database_there L inst) es" for es
    using that by (rule preceded_later [rotated])
      (auto simp: brings_up_def dest: database_there_more [of L inst _ "[EvNow t]" "[]", simplified])
  then show "wp (c t) (\<lambda>es x. preceded brings_up (database_there L inst) (EvNow t # es))"
    using assms [of t] unfolding gated_def by (auto elim!: wp_mono)
qed

lemma after_read_gated:
  assumes L: "lib_laws L"
  shows "gated L inst (after_read L inst)"
proof -
  let ?i = "\<lambda>t. set_at L t inst ConditionReady ConditionFalse ''Reconciling'' ''the operator is reconciling this instance''"
  have "gated L inst (reconcileInstance L (?i t))" for t
    using instance_gated [OF L, of "?i t"] by (subst (asm) gated_same [where a = inst]) simp_all
  then show ?thesis
    unfolding after_read_def bind_SetCondition
    by (intro gated_Now gated_then)
       (auto simp: patchStatus_eq brings_up_def split: option.split)
qed

text \<open>So in every run whatever brings up a container comes after the evidence of its database.\<close>

lemma nothing_before_the_database:
  assumes "lib_laws L"
  shows "wp (Reconcile L req) (\<lambda>es x. case es of
     EvGetInstance k (Inr inst) # rest \<Rightarrow> preceded brings_up (database_there L inst) rest | _ \<Rightarrow> True)"
  by (rule wp_Reconcile) (use after_read_gated [OF assms] in \<open>simp add: gated_def\<close>)

end
