(* ===== verification/Spec2Isabelle.thy ===== *)
theory Spec2Isabelle
  imports Reconciliation Step_Properties Manager Deep_Copy Api_Defaults Tenancy Request_Bounds
    Status_Writes Startup Idempotence Ref_Lib Database_First
begin

text \<open>
  The paperless-ngx operator is a Kubernetes controller. A user writes a
  \<open>PaperlessInstance\<close>; the operator creates and maintains, in the same namespace, what the
  instance needs to run: two generated secrets, four persistent volume claims, a
  CloudNativePG database cluster (or the use of an external one), a Valkey cache (or the use
  of an external one), a Deployment and a Service; and it reports on the instance's status.

  How the program is put together, and which theory models which part.

  \<^item> \<open>api/v1alpha1/paperlessinstance_types.go\<close>: the custom resource and the accessors that
    resolve defaults in \<open>Api_Types\<close>, one record per struct in the source's order; the \<open>json\<close>
    tags in \<open>Api_Json\<close> (\<open>write_X\<close> and \<open>read_X\<close> for a struct \<open>X\<close>); the \<open>kubebuilder\<close> markers, defaults
    and validation rules, in \<open>Api_Schema\<close> (\<open>X_schema\<close> and \<open>X_valid\<close>).
  \<^item> \<open>api/v1alpha1/zz_generated.deepcopy.go\<close>: \<open>Deep_Copy\<close>, every \<open>DeepCopyInto\<close>, \<open>DeepCopy\<close> and
    \<open>DeepCopyObject\<close>, on the store of \<open>Go_Memory\<close>, where a pointer, a slice and a map are
    references to cells, so that sharing is visible.
  \<^item> \<open>internal/resources\<close>: pure builders from an instance to a Kubernetes object, one theory per
    file: \<open>Names\<close> (\<open>names.go\<close>), \<open>Secrets\<close> (\<open>secret.go\<close>), \<open>Storage\<close> (\<open>storage.go\<close>),
    \<open>Database\<close> (\<open>database.go\<close>), \<open>Cache\<close> (\<open>cache.go\<close>), \<open>Workload\<close> and \<open>Env_Dedupe\<close>
    (\<open>workload.go\<close>). A builder keeps its name, in capitals or lower case as in Go
    (\<open>Deployment\<close> and \<open>Service\<close> are \<open>PaperlessDeployment\<close> and \<open>PaperlessService\<close>).
  \<^item> \<open>internal/controller\<close>: \<open>Conditions\<close> (\<open>conditions.go\<close>), \<open>Deletion_Policy\<close>
    (\<open>deletion_policy.go\<close>, and \<open>apply\<close>, \<open>applyOwned\<close>), \<open>Controller_Steps\<close> (the five steps)
    and \<open>Controller\<close> (\<open>Reconcile\<close>, \<open>reconcileInstance\<close>, \<open>patchStatus\<close>) for
    \<open>paperlessinstance_controller.go\<close>.
  \<^item> \<open>internal/manager/options.go\<close>, \<open>internal/version/version.go\<close>, \<open>groupversion_info.go\<close> and the
    permissions of the controller: \<open>Manager\<close>; the command line, the start-up calls and exit codes
    of \<open>cmd/main.go\<close>, and \<open>SetupWithManager\<close>: \<open>Startup\<close>.
  \<^item> The cluster around the operator: \<open>History\<close>, in which reconciliations, overlapping request by
    request, and other changes meet an API server of which only laws are known; \<open>Cluster\<close> and
    \<open>Tenancy\<close> build on it.
  \<^item> Below them: \<open>Op_Prelude\<close> (errors, panics, collections of rules), \<open>Go_Strings\<close>
    (\<open>strings.Join\<close>, \<open>strconv\<close>, \<open>%q\<close>), \<open>Kube_Objects\<close> (the Kubernetes types as far as the source
    uses them), \<open>Ext_Lib\<close> (third-party functions), \<open>Client\<close> (requests to the API server).

  How state and effects correspond. A Go value is an Isabelle value: a struct a record, a
  pointer an option, a slice a list, a map a map, \<open>int32\<close> a 32-bit word read signed. An error
  is a value of \<open>gerror\<close> (nil is \<open>None\<close>); a call that may panic returns \<open>go\<close>. A method that
  sets a condition through the pointer to the instance returns the changed instance. A
  function that calls the API server, the random source or the clock is a tree of requests
  (\<open>Client.prog\<close>): each node is one call with its arguments and continues with the answer.
  Nothing is assumed of the answers, so a statement about a tree (\<open>wp\<close>: all its logs and
  results; \<open>emits\<close>: all its requests) holds against every API server, cache and failure, and
  \<open>Client.wp_run\<close> carries it to every concrete handler. All trees are finite: each loop of the
  source runs over a list, so every reconciliation ends and no fuel is used;
  \<open>Request_Bounds\<close> has the number of requests. In these trees \<open>inst.DeepCopy()\<close> is the value
  itself; that the copy is one, and shares nothing with the instance the conditions are
  written to, is what \<open>Deep_Copy\<close> shows.

  Code that is not in the repository is a record of functions, \<open>Ext_Lib.Lib\<close>, that every
  definition using it takes as an argument; a theorem that relies on documented behaviour of
  it has a law of \<open>Ext_Lib\<close> as a hypothesis (together \<open>lib_laws\<close>), and \<open>Ref_Lib\<close> has a concrete
  library that satisfies them all, at which the witnesses apply the theorems.

  Interfaces. \<open>object_builder\<close> (\<open>Secrets\<close>) is what the reconciler relies on of every builder,
  interpreted for the claims, the cluster, the cache and the workload; \<open>secret_builder\<close> the same
  for the generated secrets; \<open>service_backend\<close> (\<open>Workload\<close>) ties a Service to its pods, for the
  application and the cache; \<open>suffix_scheme\<close> (\<open>Names\<close>) says when derived names cannot collide;
  \<open>last_wins\<close> (\<open>Env_Dedupe\<close>) is the contract of a de-duplication; \<open>reconcile_step\<close>
  (\<open>Step_Contract\<close>) is what the reconciler and its steps promise each other, interpreted for
  each of the five steps; \<open>reliable_builder\<close> (\<open>Progress\<close>) extends \<open>secret_builder\<close> with success
  whenever the random source answers; \<open>deep_copier\<close> (\<open>Go_Memory\<close>) is what a deep copy of a
  type promises, and the contracts of the structs are built from those of their fields.

  What is shown. \<open>Step_Contract.step_event\<close> is the abstract specification of the operator: the
  requests each step may make of an instance. \<open>Controller\<close> shows that \<open>reconcileInstance\<close> is a
  pipeline of stages under the contract of \<open>reconcile_step\<close> and derives the shape of every
  run (\<open>Reconcile_runs\<close>); \<open>Reconciliation\<close> reads it off the log, and the theorems of this
  theory state what it means: one status patch and that last, the steps in order, the outcome
  and \<open>Ready\<close> in agreement, ownership as the deletion policy says, no write outside the
  instance, no workload without a database, no claim of readiness without a replica.
  \<open>Isolation\<close> lists the objects of an instance by kind, namespace and name (\<open>object_keys\<close>),
  shows that a run writes only these, and which of them two instances can have in common.
  \<open>Step_Properties\<close> describes each step on every branch (the life of a generated secret, the
  claims, the database gates, the cache, the workload); \<open>Deletion_Policy\<close> the bodies that are
  sent and the convergence of ownership; \<open>Manager\<close> that the declared permissions cover every
  request; \<open>Startup\<close> that the manager starts with the options its flags say.

  \<open>Database_First\<close> shows that nothing of the cache or the server is applied before the evidence
  of the database is in the log of the same run.

  Success and progress: \<open>Completion\<close> shows that a step which reports no error has done all its
  work, whatever the answers; \<open>Apply_Plan\<close> lists the objects of an instance with their owners in
  the order of the steps, and shows that every reconciliation applies a prefix of that list and
  a successful one all of it; \<open>Progress\<close> concludes that a reconciliation without error and
  requeue has completed, and that one whose requests are served gets there (\<open>served\<close> lists what
  can stop it). \<open>Status_Settles\<close> and \<open>Status_Writes\<close> compare the status that is written with the
  one that was read: that of a ready instance always changes, unchanged verdicts of one that
  is not ready leave it as it was.

  Across reconciliations: \<open>Idempotence\<close> follows the secrets a server holds through a run and shows
  that reconciling again, after a success, writes no secret and repeats the applies. Over every
  history: \<open>Cluster\<close> shows that generated secrets keep their
  values and that retained data never gets an owner; \<open>Tenancy\<close> that an instance's objects
  change only on its own behalf.

  The theories of the builders show that the objects fit together (names, labels and
  selectors, volumes and claims, environment and secrets, hosts and probes) and the
  functional behaviour of the helpers (the environment's de-duplication against a
  specification, uniformly distributed random keys, image references, conditions). Of the
  types: an instance survives being written and read back (\<open>Api_Json\<close>), an admitted
  specification is usable (\<open>Api_Schema\<close>), and a deep copy is a snapshot that shares no cell with
  its original (\<open>Deep_Copy\<close>). \<open>Api_Defaults\<close> compares, for every admitted document, the
  specification read after the schema's defaulting with the one read without it: field by field
  (\<open>fills_X\<close>), and then in what the builders make of it, which is the same but for the five
  fields that have no fallback in the code (port and name of an external database, username in
  the admin secret, tag and pull policy of the image).

  What is not modelled. Logging and \<open>context.Context\<close>; what a watch does, and the work queue
  with its retries, which are controller-runtime's; the test harness \<open>test/envtestenv\<close>, which
  starts an API server process; the parsing of URLs and quantities, which is \<open>net/url\<close> and
  \<open>resource\<close>. The API server is not modelled either: the theorems about histories name the
  laws they need, and the reference servers of \<open>Cluster\<close> and \<open>Progress\<close> show that these can
  hold. The lines of the source no definition covers are comments, imports, licence headers
  and logging.
\<close>

section \<open>Properties of a whole reconciliation\<close>

text \<open>
  C1: Every reconciliation has one of two shapes and never panics, whatever the API server
  answers. If the instance cannot be read, that is the only request, and the error is
  returned except when it says the instance is gone. Otherwise there is exactly one status
  patch, it is the last request, and it is made against the instance as it was read. What it
  writes differs from what was read only in the conditions and the observed generation: the
  metadata, the specification, and the URL and version of the status are untouched. The
  observed generation is the instance's generation, and \<open>Ready\<close> is present and was computed
  from that generation.
\<close>

theorem reconcile_patches_status_once:
  assumes "lib_laws L"
  shows "wp (Reconcile L req) (\<lambda>es x. \<exists>r rest res e.
    es = EvGetInstance req r # rest \<and> x = Value (res, e) \<and>
    (case r of
       Inl err \<Rightarrow> rest = [] \<and> res = zero_result \<and> e = (if libIsNotFound L (Some err) then None else Some err)
     | Inr inst \<Rightarrow> (\<exists>mid inst' sr. rest = mid @ [EvPatchStatus inst' inst sr] \<and>
         list_all (\<lambda>ev. \<not> is_status_patch ev) mid \<and>
         piMeta inst' = piMeta inst \<and> piSpec inst' = piSpec inst \<and>
         psURL (piStatus inst') = psURL (piStatus inst) \<and>
         psVersion (piStatus inst') = psVersion (piStatus inst) \<and>
         psObservedGeneration (piStatus inst') = omGeneration (piMeta inst) \<and>
         (\<exists>c. cond inst' ConditionReady = Some c \<and>
            cdObservedGeneration c = omGeneration (piMeta inst)))))"
proof (rule wp_mono [OF Reconcile_runs [OF assms]], elim disjE exE)
  fix es x inst tags mid inst' r res e
  assume "full_run L req inst tags mid inst' r res e es x"
  then have es: "es = EvGetInstance req (Inr inst) # mid @ [EvPatchStatus (observed inst') inst r]"
    and t: "list_all2 (step_event L inst) tags mid"
    and fr: "frame {ConditionReady, ConditionDatabaseReady} inst inst'"
    and en: "ended (stages L) (workload_done L inst) tags mid inst' res e"
    and x: "\<exists>res e. x = Value (res, e)"
    unfolding full_run_def by (auto split: option.split)
  have "list_all (\<lambda>ev. \<not> is_status_patch ev) mid"
    using t by (rule tagged_all) (rule step_event_no_status)
  then show "\<exists>r rest res e. es = EvGetInstance req r # rest \<and> x = Value (res, e) \<and>
    (case r of
       Inl err \<Rightarrow> rest = [] \<and> res = zero_result \<and> e = (if libIsNotFound L (Some err) then None else Some err)
     | Inr inst \<Rightarrow> (\<exists>mid inst' sr. rest = mid @ [EvPatchStatus inst' inst sr] \<and>
         list_all (\<lambda>ev. \<not> is_status_patch ev) mid \<and>
         piMeta inst' = piMeta inst \<and> piSpec inst' = piSpec inst \<and>
         psURL (piStatus inst') = psURL (piStatus inst) \<and>
         psVersion (piStatus inst') = psVersion (piStatus inst) \<and>
         psObservedGeneration (piStatus inst') = omGeneration (piMeta inst) \<and>
         (\<exists>c. cond inst' ConditionReady = Some c \<and>
            cdObservedGeneration c = omGeneration (piMeta inst))))"
    using es x frame_keeps [OF fr] frame_keeps_status [OF fr] ended_says_ready [OF en] by (auto simp: says_def)
qed (auto simp: missing_run_def)

theorem reconcile_patches_status_once_witness:
  "wp (Reconcile ref_lib \<lparr>okNamespace = ''ns'', okName = ''docs''\<rparr>)
     (\<lambda>es x. is_value x \<and> es \<noteq> [])"
  by (rule wp_mono [OF reconcile_patches_status_once [OF ref_lib_laws]]) auto

text \<open>
  C2: The five steps run in their order and each keeps to itself. Between reading the instance
  and patching its status, every request belongs to a step, the steps come in the order
  secrets, storage, database, cache, workload, and each request is one its step may make of
  the instance as read (\<open>step_event\<close>): the generated secrets' reads, draws, creations and
  owner patches; the claims; the database's check and cluster; the cache's objects; the
  Service and the Deployment; each applied with the owners of its class, stated explicitly.
\<close>

theorem reconcile_steps_in_order:
  assumes "lib_laws L"
  shows "wp (Reconcile L req) (\<lambda>es x.
    case es of EvGetInstance k (Inr inst) # rest \<Rightarrow>
      k = req \<and> (\<exists>tags mid inst' sr. rest = mid @ [EvPatchStatus inst' inst sr] \<and>
        sorted tags \<and> list_all2 (step_event L inst) tags mid)
    | _ \<Rightarrow> (\<exists>e. es = [EvGetInstance req (Inl e)]))"
  by (rule wp_mono [OF Reconcile_runs [OF assms]])
     (auto simp: missing_run_def full_run_def)

theorem reconcile_steps_in_order_witness:
  "wp (Reconcile ref_lib \<lparr>okNamespace = ''ns'', okName = ''docs''\<rparr>)
     (\<lambda>es x. case es of EvGetInstance k r # rest \<Rightarrow> okName k = ''docs'' | _ \<Rightarrow> False)"
  by (rule wp_mono [OF reconcile_steps_in_order [OF ref_lib_laws]])
     (auto split: list.splits event.splits sum.splits)

text \<open>What the reconciler says of each step's failure: the context of the error, the reason.\<close>

definition failure_reasons :: "(string \<times> string \<times> step) list" where
  "failure_reasons =
    [(''reconciling secrets'', ''SecretsNotReady'', StSecrets),
     (''reconciling storage'', ''StorageNotReady'', StStorage),
     (''reconciling database'', ''DatabaseNotReady'', StDatabase),
     (''reconciling cache'', ''CacheNotReady'', StCache),
     (''reconciling workload'', ''WorkloadApplyFailed'', StWorkload)]"

lemma ended_outcome:
  assumes "ended (stages L) (workload_done L inst) tags es inst' res e"
  shows "(\<exists>(context, reason, s) \<in> set failure_reasons. \<exists>e'.
        (res, e) = (zero_result, Some (ErrorWrap context e')) \<and>
        says inst' ConditionReady ConditionFalse reason \<and> list_all (\<lambda>t. t \<le> s) tags) \<or>
     ((res, e) = (\<lparr>rsRequeueAfter = 30000000000\<rparr>, None) \<and>
        says inst' ConditionReady ConditionFalse ''DatabaseNotReady'' \<and> list_all (\<lambda>t. t \<le> StDatabase) tags) \<or>
     ((res, e) = (zero_result, None) \<and>
        (says inst' ConditionReady ConditionTrue ''WorkloadReady'' \<or>
         says inst' ConditionReady ConditionFalse ''WorkloadNotReady''))"
proof -
  have "map (\<lambda>s. (sgContext s, sgReason s, sgTag s)) (stages L) = failure_reasons"
    by (simp add: stages_def failure_reasons_def)
  then have mem: "(sgContext s, sgReason s, sgTag s) \<in> set failure_reasons" if "s \<in> set (stages L)" for s
    using that by (metis (mono_tags, lifting) image_eqI list.set_map)
  have rq: "\<lparr>rsRequeueAfter = notReadyRequeueInterval\<rparr> = \<lparr>rsRequeueAfter = 30000000000\<rparr>"
    by (simp add: notReadyRequeueInterval_def)
  have wd: "says inst' ConditionReady ConditionTrue ''WorkloadReady'' \<or>
      says inst' ConditionReady ConditionFalse ''WorkloadNotReady''" if "workload_done L inst es2 inst'" for es2
    using that unfolding workload_done_def by (elim exE conjE) (simp split: if_splits)
  from assms consider
      (failed) s e' where "s \<in> set (stages L)" "e = Some (ErrorWrap (sgContext s) e')" "res = zero_result"
        "says inst' ConditionReady ConditionFalse (sgReason s)" "list_all (\<lambda>t. t \<le> sgTag s) tags"
    | (waiting) "e = None" "res = \<lparr>rsRequeueAfter = notReadyRequeueInterval\<rparr>"
        "says inst' ConditionReady ConditionFalse ''DatabaseNotReady''" "list_all (\<lambda>t. t \<le> StDatabase) tags"
    | (passed) es2 where "e = None" "res = zero_result" "workload_done L inst es2 inst'"
    unfolding ended_def by blast
  then show ?thesis
  proof cases
    case failed
    then show ?thesis using mem by (intro disjI1 bexI [OF _ mem [OF failed(1)]]) auto
  next
    case waiting
    then show ?thesis using rq by (intro disjI2 disjI1 conjI) simp_all
  next
    case passed
    then have "(res, e) = (zero_result, None)" by simp
    with wd [OF passed(3)] show ?thesis by blast
  qed
qed

text \<open>
  What the result \<open>x\<close> and the patched instance \<open>inst'\<close> say of a reconciliation whose requests
  belong to the steps \<open>tags\<close>; \<open>sr\<close> is the answer to the status patch.
\<close>

definition outcome_agrees ::
    "step list \<Rightarrow> PaperlessInstance \<Rightarrow> err \<Rightarrow> (Result \<times> err) go \<Rightarrow> bool" where
  "outcome_agrees tags inst' sr x \<longleftrightarrow>
     (case sr of
        Some e \<Rightarrow> x = Value (zero_result, Some (ErrorWrap ''patching status'' (ErrorWrap ''patching status'' e)))
      | None \<Rightarrow>
          (\<exists>(context, reason, s) \<in> set failure_reasons. \<exists>e.
             x = Value (zero_result, Some (ErrorWrap context e)) \<and>
             says inst' ConditionReady ConditionFalse reason \<and> list_all (\<lambda>t. t \<le> s) tags) \<or>
          (x = Value (\<lparr>rsRequeueAfter = 30000000000\<rparr>, None) \<and>
             says inst' ConditionReady ConditionFalse ''DatabaseNotReady'' \<and>
             list_all (\<lambda>t. t \<le> StDatabase) tags) \<or>
          (x = Value (zero_result, None) \<and>
             (says inst' ConditionReady ConditionTrue ''WorkloadReady'' \<or>
              says inst' ConditionReady ConditionFalse ''WorkloadNotReady'')))"

text \<open>
  C3: The outcome, the error and \<open>Ready\<close> agree. When the status patch succeeds, one of three
  things has happened: a step failed, and then the error carries the step's context, no
  requeue is asked for, \<open>Ready\<close> is false with the step's reason, and no later step made a
  request; or the database is not ready, and then there is no error, the instance is
  requeued after thirty seconds, and \<open>Ready\<close> is false because of it; or all steps passed,
  without error and requeue, and \<open>Ready\<close> says what the workload reports. When it fails, the
  error of the patch is returned instead.
\<close>

theorem reconcile_reports_outcome:
  assumes "lib_laws L"
  shows "wp (Reconcile L req) (\<lambda>es x.
    case es of EvGetInstance k (Inr inst) # rest \<Rightarrow>
      (\<exists>tags mid inst' sr. rest = mid @ [EvPatchStatus inst' inst sr] \<and>
        list_all2 (step_event L inst) tags mid \<and> outcome_agrees tags inst' sr x)
    | _ \<Rightarrow> True)"
proof (rule wp_mono [OF Reconcile_runs [OF assms]], elim disjE exE, goal_cases)
  case (2 es x inst tags mid inst' r res e)
  then have es: "es = EvGetInstance req (Inr inst) # mid @ [EvPatchStatus (observed inst') inst r]"
    and t: "list_all2 (step_event L inst) tags mid"
    and en: "ended (stages L) (workload_done L inst) tags mid inst' res e"
    and x: "x = Value (case r of None \<Rightarrow> (res, e)
       | Some e' \<Rightarrow> (zero_result, Some (ErrorWrap ''patching status'' (ErrorWrap ''patching status'' e'))))"
    unfolding full_run_def by auto
  show ?case
    unfolding es list.case event.case sum.case
  proof (intro exI [of _ tags] exI [of _ mid] exI [of _ "observed inst'"] exI [of _ r] conjI refl t, goal_cases)
    case 1
    show ?case
    proof (cases r)
      case None
      show ?thesis
        unfolding outcome_agrees_def x None option.case go.inject says_observed
        by (rule ended_outcome [OF en])
    next
      case (Some a)
      show ?thesis unfolding outcome_agrees_def x Some option.case by (rule refl)
    qed
  qed
qed (auto simp: missing_run_def)

theorem reconcile_reports_outcome_witness:
  "wp (Reconcile ref_lib \<lparr>okNamespace = ''ns'', okName = ''docs''\<rparr>) (\<lambda>es x.
     case es of EvGetInstance k (Inr inst) # rest \<Rightarrow>
       (\<exists>tags mid inst' sr. rest = mid @ [EvPatchStatus inst' inst sr] \<and> outcome_agrees tags inst' sr x)
     | _ \<Rightarrow> True)"
  by (rule wp_mono [OF reconcile_reports_outcome [OF ref_lib_laws]])
     (auto split: list.splits event.splits sum.splits)

text \<open>
  C4: The deletion policy decides what the instance owns. Whatever a reconciliation applies
  is given, and states explicitly in its body, exactly the owners of its class: the claims
  of the documents and the database cluster have no owner at all unless the policy is
  \<open>Delete\<close>, so deleting the instance keeps them; everything else, and under \<open>Delete\<close> these too,
  is controlled by the instance alone. A generated secret is created under the same rule, and
  one that is patched, in the instance's namespace, gets exactly these owners and nothing else.
\<close>

theorem deletion_policy_decides_ownership:
  assumes "lib_laws L"
  shows "wp (Reconcile L req) (\<lambda>es x.
    case es of EvGetInstance k (Inr inst) # rest \<Rightarrow> list_all (owned_by_policy L inst) rest | _ \<Rightarrow> True)"
  by (rule reconcile_all_requests [OF assms]) (auto intro: owned_step_event)

theorem deletion_policy_decides_ownership_witness:
  "wp (Reconcile ref_lib \<lparr>okNamespace = ''ns'', okName = ''docs''\<rparr>) (\<lambda>es x.
    case es of EvGetInstance k (Inr inst) # rest \<Rightarrow> list_all (owned_by_policy ref_lib inst) rest | _ \<Rightarrow> True)"
  by (rule deletion_policy_decides_ownership [OF ref_lib_laws])

text \<open>
  C5: A reconciliation stays with its instance. Everything it applies or creates is one of the
  instance's own objects: its two secrets, its four claims, the cluster of a managed database,
  the managed cache and the workload, each under its name in the instance's namespace
  (\<open>object_keys\<close>). It applies under the operator's own field owner, with force, and never a
  secret, so a generated value cannot be rewritten by an apply; and it merge-patches only a
  secret that it read before, under one of the two generated names.
\<close>

theorem writes_stay_with_the_instance:
  assumes "lib_laws L"
  shows "wp (Reconcile L req) (\<lambda>es x.
    case es of EvGetInstance k (Inr inst) # rest \<Rightarrow> list_all (confined inst) rest \<and> patches_read inst rest
    | _ \<Rightarrow> True)"
  by (rule wp_mono [OF wp_conj [THEN iffD2, OF conjI [OF
        reconcile_all_requests [OF assms, where P = confined] Reconcile_patches_read [OF assms]]]])
     (auto intro: confined_step_event [OF assms] split: list.splits event.splits sum.splits)

theorem writes_stay_with_the_instance_witness:
  "wp (Reconcile ref_lib \<lparr>okNamespace = ''ns'', okName = ''docs''\<rparr>) (\<lambda>es x.
    case es of EvGetInstance k (Inr inst) # rest \<Rightarrow> list_all (confined inst) rest \<and> patches_read inst rest
    | _ \<Rightarrow> True)"
  by (rule writes_stay_with_the_instance [OF ref_lib_laws])

text \<open>
  C8: No workload without a database. Whatever the answers, before any object of the cache or of
  the server is applied the same reconciliation has seen the database: the secret of an external
  one was read and has both keys, or, for a managed one, CloudNativePG was found and its cluster
  was accepted with the owners of the deletion policy. So no container is started that could
  only crash for want of its database. And a reconciliation that asks to be requeued does so
  for exactly thirty seconds, without an error, having applied nothing of the cache or the server.
\<close>

theorem no_workload_without_database:
  assumes "lib_laws L"
  shows "wp (Reconcile L req) (\<lambda>es x.
    (case es of
       EvGetInstance k (Inr inst) # rest \<Rightarrow> preceded brings_up (database_there L inst) rest
     | _ \<Rightarrow> list_all (\<lambda>ev. \<not> brings_up ev) es) \<and>
    (case x of Value (res, e) \<Rightarrow>
      rsRequeueAfter res = 0 \<or>
      (rsRequeueAfter res = 30000000000 \<and> e = None \<and> list_all (\<lambda>ev. \<not> brings_up ev) es)
    | Panic m \<Rightarrow> False))"
proof (rule wp_mono [OF wp_conj [THEN iffD2, OF conjI [OF nothing_before_the_database [OF assms]
      Reconcile_runs [OF assms]]]], elim conjE disjE exE, goal_cases)
  case (2 es x inst tags mid inst' r res e)
  then have es: "es = EvGetInstance req (Inr inst) # mid @ [EvPatchStatus (observed inst') inst r]"
    and t: "list_all2 (step_event L inst) tags mid"
    and en: "ended (stages L) (workload_done L inst) tags mid inst' res e"
    and x: "x = Value (case r of None \<Rightarrow> (res, e)
       | Some e' \<Rightarrow> (zero_result, Some (ErrorWrap ''patching status'' (ErrorWrap ''patching status'' e'))))"
    and first: "preceded brings_up (database_there L inst) (mid @ [EvPatchStatus (observed inst') inst r])"
    unfolding full_run_def by auto
  have mid: "list_all (\<lambda>ev. \<not> brings_up ev) mid" if "list_all (\<lambda>t. t \<le> StDatabase) tags"
    using t by (rule tagged_all) (use that early_steps_do_not_bring_up in \<open>auto simp: list_all_iff\<close>)
  show ?case
    using en mid first
    by (cases r) (auto simp: x es ended_def zero_result_def notReadyRequeueInterval_def brings_up_def)
qed (auto simp: missing_run_def zero_result_def brings_up_def)

theorem no_workload_without_database_witness:
  "wp (Reconcile ref_lib \<lparr>okNamespace = ''ns'', okName = ''docs''\<rparr>) (\<lambda>es x.
    (case es of EvGetInstance k (Inr inst) # rest \<Rightarrow> preceded brings_up (database_there ref_lib inst) rest
     | _ \<Rightarrow> True) \<and>
    (case x of Value (res, e) \<Rightarrow> rsRequeueAfter res \<in> {0, 30000000000} | Panic m \<Rightarrow> False))"
  by (rule wp_mono [OF no_workload_without_database [OF ref_lib_laws]])
     (auto split: go.splits list.splits event.splits sum.splits)

text \<open>
  C9: \<open>Ready\<close> is never claimed without evidence. If the status that is written says the instance
  is ready, then all steps passed, no error and no requeue is reported (unless writing the
  status itself failed), and in this very reconciliation the server answered the apply of
  the instance's own Deployment with at least one ready replica.
\<close>

theorem ready_needs_a_replica:
  assumes "lib_laws L"
  shows "wp (Reconcile L req) (\<lambda>es x.
    case last es of EvPatchStatus inst' inst sr \<Rightarrow>
      (if says inst' ConditionReady ConditionTrue ''WorkloadReady''
       then list_ex (reports_replica inst) es \<and> (sr \<noteq> None \<or> x = Value (zero_result, None))
       else (\<exists>c. cond inst' ConditionReady = Some c \<and> cdStatus c = ConditionFalse))
    | _ \<Rightarrow> length es = 1)"
proof (rule wp_mono [OF Reconcile_runs [OF assms]], elim disjE exE, goal_cases)
  case (2 es x inst tags mid inst' r res e)
  then have es: "es = EvGetInstance req (Inr inst) # mid @ [EvPatchStatus (observed inst') inst r]"
    and en: "ended (stages L) (workload_done L inst) tags mid inst' res e"
    and x: "x = Value (case r of None \<Rightarrow> (res, e)
       | Some e' \<Rightarrow> (zero_result, Some (ErrorWrap ''patching status'' (ErrorWrap ''patching status'' e'))))"
    unfolding full_run_def by auto
  from en consider (false) re where "says inst' ConditionReady ConditionFalse re"
    | (passed) es1 es2 where "e = None" "res = zero_result" "mid = es1 @ es2" "workload_done L inst es2 inst'"
    unfolding ended_def by blast
  then show ?case
  proof cases
    case false
    then show ?thesis by (auto simp: es says_def)
  next
    case passed
    show ?thesis
    proof (cases "says inst' ConditionReady ConditionTrue ''WorkloadReady''")
      case True
      then have "list_ex (reports_replica inst) es2" by (rule workload_done_replica [OF passed(4)])
      then show ?thesis using True passed by (cases r) (auto simp: es x)
    next
      case False
      then show ?thesis using passed(4) unfolding workload_done_def
        by (auto simp: es says_def split: if_splits)
    qed
  qed
qed (auto simp: missing_run_def)

theorem ready_needs_a_replica_witness:
  "wp (Reconcile ref_lib \<lparr>okNamespace = ''ns'', okName = ''docs''\<rparr>) (\<lambda>es x.
    case last es of EvPatchStatus inst' inst sr \<Rightarrow>
      (if says inst' ConditionReady ConditionTrue ''WorkloadReady'' then list_ex (reports_replica inst) es
       else True)
    | _ \<Rightarrow> True)"
  by (rule wp_mono [OF ready_needs_a_replica [OF ref_lib_laws]]) (auto split: event.splits if_splits)

end
